(* ===== verification/Loong_Prelude.thy ===== *)
theory Loong_Prelude
  imports Main "HOL-Library.Word" "HOL-Library.List_Lexorder" "HOL-Library.Char_ord"
    "HOL-Library.Sublist" "HOL-Library.Product_Lexorder"
begin

text \<open>
  Shared vocabulary of the development: the machine integers and result types of the Rust
  sources, the error-propagation combinator that stands for the question-mark operator, the
  saturating and atomic counter operations of the standard library, and the formatting of
  integers that the sources use to make identifiers and messages.  Nothing here is specific to
  one component; the lemmas are declared so that the component theories get them from the
  simplifier or from the collection \<open>result_simps\<close>.
\<close>

named_theorems result_simps \<open>rewriting of error propagation\<close>
named_theorems counter_simps \<open>rewriting of the saturating and atomic counters\<close>

section \<open>Integers\<close>

type_synonym u8 = "8 word"
type_synonym u32 = "32 word"
type_synonym u64 = "64 word"

text \<open>A \<open>usize\<close> counter is a natural number that never passes \<open>usize_max\<close>.\<close>

type_synonym usize = nat

definition usize_max :: usize where
  "usize_max = 2 ^ 64 - 1"

text \<open>\<open>usize::saturating_add(1)\<close>.\<close>

definition sat_inc :: "usize \<Rightarrow> usize" where
  "sat_inc n = (if n < usize_max then Suc n else n)"

text \<open>\<open>u64::saturating_add\<close>.\<close>

definition sat_add_u64 :: "u64 \<Rightarrow> u64 \<Rightarrow> u64" where
  "sat_add_u64 a b = (if unat a + unat b < 2 ^ 64 then a + b else - 1)"

lemma sat_inc_below [counter_simps]: "n < usize_max \<Longrightarrow> sat_inc n = Suc n"
  by (simp add: sat_inc_def)

lemma sat_inc_le: "n \<le> usize_max \<Longrightarrow> sat_inc n \<le> usize_max"
  by (simp add: sat_inc_def)

lemma sat_inc_mono: "m \<le> n \<Longrightarrow> sat_inc m \<le> sat_inc n"
  by (auto simp: sat_inc_def)

lemma unat_minus_one_u64: "unat (- 1 :: u64) = 2 ^ 64 - 1"
  by (simp add: unsigned_minus_1_eq_mask mask_eq_exp_minus_1)

lemma unat_u64_bound: "unat (w :: u64) < 2 ^ 64"
  using unsigned_less [where ?'a = nat and w = w] by simp

lemma u64_le_max: "w \<le> (- 1 :: u64)"
  using unat_u64_bound [of w] by (simp add: word_le_nat_alt unat_minus_one_u64)

lemma unat_sat_add_u64: "unat (sat_add_u64 a b) = min (unat a + unat b) (2 ^ 64 - 1)"
proof (cases "unat a + unat b < 2 ^ 64")
  case True
  then show ?thesis
    by (simp add: sat_add_u64_def unat_word_ariths)
next
  case False
  then show ?thesis
    by (simp add: sat_add_u64_def unat_minus_one_u64)
qed

lemma sat_add_u64_ge: "a \<le> sat_add_u64 a b"
proof -
  have "unat a \<le> 2 ^ 64 - 1"
    using unat_u64_bound [of a] by simp
  then show ?thesis
    by (simp add: word_le_nat_alt unat_sat_add_u64)
qed

lemma unat_inc_u64: "w \<noteq> (- 1 :: u64) \<Longrightarrow> unat (w + 1) = Suc (unat w)"
  by (metis add.commute add_neg_numeral_special(7) eq_neg_iff_add_eq_0 unatSuc)

section \<open>Results\<close>

text \<open>
  A fallible call of the sources returns \<open>Result<T, E>\<close>, modelled as \<open>'e + 'a\<close>.
  Where a call may also unwind with a panic, the left side is a \<open>failure\<close>: the error
  value, or the payload of the panic (a string where it can be downcast to one).
\<close>

datatype panic_payload = PanicString string | PanicOpaque

datatype 'e failure = Error 'e | Panicked panic_payload

text \<open>
  The question-mark operator over explicit state: run the continuation on the state and the
  value of a successful call, pass on the error of a failed one with the state it left.
\<close>

definition try_bind :: "'s \<times> ('e + 'a) \<Rightarrow> ('s \<Rightarrow> 'a \<Rightarrow> 's \<times> ('e + 'b)) \<Rightarrow> 's \<times> ('e + 'b)" where
  "try_bind m f = (case m of (s, r) \<Rightarrow> (case r of Inl e \<Rightarrow> (s, Inl e) | Inr a \<Rightarrow> f s a))"

text \<open>\<open>?\<close> in a function without state.\<close>

definition and_then :: "'e + 'a \<Rightarrow> ('a \<Rightarrow> 'e + 'b) \<Rightarrow> 'e + 'b" where
  "and_then r f = (case r of Inl e \<Rightarrow> Inl e | Inr a \<Rightarrow> f a)"

text \<open>\<open>Result::map_err\<close> and \<open>Option::ok_or\<close>.\<close>

definition map_err :: "('e \<Rightarrow> 'f) \<Rightarrow> 'e + 'a \<Rightarrow> 'f + 'a" where
  "map_err f r = (case r of Inl e \<Rightarrow> Inl (f e) | Inr a \<Rightarrow> Inr a)"

definition ok_or :: "'e \<Rightarrow> 'a option \<Rightarrow> 'e + 'a" where
  "ok_or e x = (case x of None \<Rightarrow> Inl e | Some a \<Rightarrow> Inr a)"

lemma try_bind_simps [simp, result_simps]:
  "try_bind (s, Inl e) f = (s, Inl e)"
  "try_bind (s, Inr a) f = f s a"
  by (simp_all add: try_bind_def)

lemma try_bind_Inr:
  "try_bind m f = (s', Inr b) \<longleftrightarrow> (\<exists>s a. m = (s, Inr a) \<and> f s a = (s', Inr b))"
  by (cases m; cases "snd m") (auto simp: try_bind_def)

lemma try_bind_InrE:
  assumes "try_bind m f = (s', Inr b)"
  obtains s a where "m = (s, Inr a)" and "f s a = (s', Inr b)"
  using assms by (auto simp: try_bind_Inr)

lemma try_bind_Inl:
  "try_bind m f = (s', Inl e) \<longleftrightarrow>
     m = (s', Inl e) \<or> (\<exists>s a. m = (s, Inr a) \<and> f s a = (s', Inl e))"
  by (cases m; cases "snd m") (auto simp: try_bind_def)

lemma try_bind_assoc:
  "try_bind (try_bind m f) g = try_bind m (\<lambda>s a. try_bind (f s a) g)"
  by (cases m; cases "snd m") (auto simp: try_bind_def)

lemma try_bind_cong [fundef_cong]:
  "m = m' \<Longrightarrow> (\<And>s a. m' = (s, Inr a) \<Longrightarrow> f s a = g s a) \<Longrightarrow> try_bind m f = try_bind m' g"
  by (cases m'; cases "snd m'") (auto simp: try_bind_def)

lemma and_then_simps [simp, result_simps]:
  "and_then (Inl e) f = Inl e"
  "and_then (Inr a) f = f a"
  by (simp_all add: and_then_def)

lemma and_then_Inr: "and_then r f = Inr b \<longleftrightarrow> (\<exists>a. r = Inr a \<and> f a = Inr b)"
  by (cases r) simp_all

lemma and_then_cong [fundef_cong]:
  "r = r' \<Longrightarrow> (\<And>a. r' = Inr a \<Longrightarrow> f a = g a) \<Longrightarrow> and_then r f = and_then r' g"
  by (cases r') simp_all

lemma map_err_simps [simp, result_simps]:
  "map_err f (Inl e) = Inl (f e)"
  "map_err f (Inr a) = Inr a"
  by (simp_all add: map_err_def)

lemma map_err_Inr [simp]: "map_err f r = Inr a \<longleftrightarrow> r = Inr a"
  by (cases r) simp_all

lemma map_err_Inl: "map_err f r = Inl e \<longleftrightarrow> (\<exists>e'. r = Inl e' \<and> e = f e')"
  by (cases r) auto

lemma ok_or_simps [simp, result_simps]:
  "ok_or e None = Inl e"
  "ok_or e (Some a) = Inr a"
  by (simp_all add: ok_or_def)

lemma ok_or_Inr [simp]: "ok_or e x = Inr a \<longleftrightarrow> x = Some a"
  by (cases x) simp_all

lemma ok_or_Inl [simp]: "ok_or e x = Inl d \<longleftrightarrow> x = None \<and> d = e"
  by (cases x) auto

section \<open>Iterators\<close>

text \<open>\<open>Iterator::max_by_key\<close>: of several maximal elements the last one.\<close>

fun max_by_key :: "('a \<Rightarrow> 'b::linorder) \<Rightarrow> 'a list \<Rightarrow> 'a option" where
  "max_by_key key [] = None"
| "max_by_key key (x # xs) =
     (case max_by_key key xs of
        None \<Rightarrow> Some x
      | Some y \<Rightarrow> Some (if key y < key x then x else y))"

lemma max_by_key_None [simp]: "max_by_key key xs = None \<longleftrightarrow> xs = []"
  by (cases xs) (auto split: option.split)

lemma max_by_key_Some:
  "max_by_key key xs = Some y \<Longrightarrow> y \<in> set xs \<and> (\<forall>x \<in> set xs. key x \<le> key y)"
  by (induction xs arbitrary: y) (fastforce split: option.splits if_splits)+

section \<open>Formatting integers\<close>

text \<open>Decimal digits, as \<open>Display\<close> writes an unsigned integer.\<close>

definition dec_digit :: "nat \<Rightarrow> char" where
  "dec_digit d = char_of (48 + d)"

fun show_nat :: "nat \<Rightarrow> string" where
  "show_nat n = (if n < 10 then [dec_digit n] else show_nat (n div 10) @ [dec_digit (n mod 10)])"

declare show_nat.simps [simp del]

definition show_u64 :: "u64 \<Rightarrow> string" where
  "show_u64 w = show_nat (unat w)"

text \<open>Lower-case hexadecimal padded to sixteen digits, as \<open>{:016x}\<close> writes a \<open>u64\<close>.\<close>

definition hex_digit :: "nat \<Rightarrow> char" where
  "hex_digit d = (if d < 10 then char_of (48 + d) else char_of (87 + d))"

fun hex_digits :: "nat \<Rightarrow> nat \<Rightarrow> string" where
  "hex_digits 0 n = []"
| "hex_digits (Suc k) n = hex_digits k (n div 16) @ [hex_digit (n mod 16)]"

definition hex16 :: "u64 \<Rightarrow> string" where
  "hex16 w = hex_digits 16 (unat w)"

lemma hex_digit_inj: "a < 16 \<Longrightarrow> b < 16 \<Longrightarrow> hex_digit a = hex_digit b \<Longrightarrow> a = b"
proof -
  assume ab: "a < 16" "b < 16" and eq: "hex_digit a = hex_digit b"
  have val: "of_char (hex_digit d) = (if d < 10 then 48 + d else 87 + d)" if "d < 16" for d :: nat
    using that by (simp add: hex_digit_def)
  have "(of_char (hex_digit a) :: nat) = of_char (hex_digit b)"
    using eq by simp
  then show "a = b"
    using ab by (simp add: val split: if_splits)
qed

lemma length_hex_digits [simp]: "length (hex_digits k n) = k"
  by (induction k arbitrary: n) simp_all

lemma hex_digits_inj:
  "m < 16 ^ k \<Longrightarrow> n < 16 ^ k \<Longrightarrow> hex_digits k m = hex_digits k n \<Longrightarrow> m = n"
proof (induction k arbitrary: m n)
  case 0
  then show ?case by simp
next
  case (Suc k)
  have "hex_digit (m mod 16) = hex_digit (n mod 16)"
    using Suc.prems(3) by simp
  then have low: "m mod 16 = n mod 16"
    by (intro hex_digit_inj) simp_all
  have "m div 16 < 16 ^ k" "n div 16 < 16 ^ k"
    using Suc.prems by (simp_all add: less_mult_imp_div_less mult.commute)
  then have "m div 16 = n div 16"
    using Suc.IH Suc.prems(3) by simp
  with low show ?case
    by (metis mult_div_mod_eq)
qed

lemma length_hex16 [simp]: "length (hex16 w) = 16"
  by (simp add: hex16_def)

lemma hex16_inj [simp]: "hex16 v = hex16 w \<longleftrightarrow> v = w"
proof
  assume "hex16 v = hex16 w"
  moreover have "unat x < 16 ^ 16" for x :: u64
    using unat_u64_bound [of x] by simp
  ultimately have "unat v = unat w"
    unfolding hex16_def by (blast intro: hex_digits_inj)
  then show "v = w"
    by (rule unsigned_word_eqI)
qed simp

lemma unat_inc_below: "unat (w :: u64) \<le> n \<Longrightarrow> Suc n < 2 ^ 64 \<Longrightarrow> unat (w + 1) = Suc (unat w)"
  by (rule unat_inc_u64) (auto simp: unat_minus_one_u64)

end
