(* ===== verification/Rust_Strings.thy ===== *)
theory Rust_Strings
  imports Loong_Prelude
begin

text \<open>
  The \<open>str\<close> and \<open>char\<close> operations of the Rust standard library that the sources call.
  A Rust string is a \<open>string\<close> over ASCII text, one \<open>char\<close> per code point: on that range
  \<open>char::is_whitespace\<close>, the ASCII case maps, \<open>len\<close> and the bytewise order of the library
  coincide with the definitions here.  Lemmas about trimming, splitting and joining are shared by
  the parsers and normalisers of the components.
\<close>

named_theorems str_simps \<open>rewriting of the string library\<close>

section \<open>Character classes and case maps\<close>

text \<open>\<open>char::is_whitespace\<close> on ASCII: the space and the controls 9 to 13.\<close>

definition is_ws :: "char \<Rightarrow> bool" where
  "is_ws c \<longleftrightarrow> (let n = (of_char c :: nat) in n = 32 \<or> (9 \<le> n \<and> n \<le> 13))"

definition is_ascii_lowercase :: "char \<Rightarrow> bool" where
  "is_ascii_lowercase c \<longleftrightarrow> (let n = (of_char c :: nat) in 97 \<le> n \<and> n \<le> 122)"

definition is_ascii_uppercase :: "char \<Rightarrow> bool" where
  "is_ascii_uppercase c \<longleftrightarrow> (let n = (of_char c :: nat) in 65 \<le> n \<and> n \<le> 90)"

definition is_ascii_digit :: "char \<Rightarrow> bool" where
  "is_ascii_digit c \<longleftrightarrow> (let n = (of_char c :: nat) in 48 \<le> n \<and> n \<le> 57)"

definition is_ascii_alphabetic :: "char \<Rightarrow> bool" where
  "is_ascii_alphabetic c \<longleftrightarrow> is_ascii_lowercase c \<or> is_ascii_uppercase c"

definition is_ascii_alphanumeric :: "char \<Rightarrow> bool" where
  "is_ascii_alphanumeric c \<longleftrightarrow> is_ascii_alphabetic c \<or> is_ascii_digit c"

definition lower_char :: "char \<Rightarrow> char" where
  "lower_char c = (if is_ascii_uppercase c then char_of ((of_char c :: nat) + 32) else c)"

definition upper_char :: "char \<Rightarrow> char" where
  "upper_char c = (if is_ascii_lowercase c then char_of ((of_char c :: nat) - 32) else c)"

definition to_ascii_lowercase :: "string \<Rightarrow> string" where
  "to_ascii_lowercase s = map lower_char s"

definition to_ascii_uppercase :: "string \<Rightarrow> string" where
  "to_ascii_uppercase s = map upper_char s"

definition eq_ignore_ascii_case :: "string \<Rightarrow> string \<Rightarrow> bool" where
  "eq_ignore_ascii_case a b \<longleftrightarrow> to_ascii_lowercase a = to_ascii_lowercase b"

section \<open>Trimming, replacing, prefixes and suffixes\<close>

definition trim_start :: "string \<Rightarrow> string" where
  "trim_start s = dropWhile is_ws s"

definition trim_end :: "string \<Rightarrow> string" where
  "trim_end s = rev (dropWhile is_ws (rev s))"

definition trim :: "string \<Rightarrow> string" where
  "trim s = trim_end (trim_start s)"

definition replace_char :: "char \<Rightarrow> char \<Rightarrow> string \<Rightarrow> string" where
  "replace_char a b s = map (\<lambda>c. if c = a then b else c) s"

definition strip_prefix :: "string \<Rightarrow> string \<Rightarrow> string option" where
  "strip_prefix p s = (if prefix p s then Some (drop (length p) s) else None)"

definition strip_suffix :: "string \<Rightarrow> string \<Rightarrow> string option" where
  "strip_suffix p s = (if suffix p s then Some (take (length s - length p) s) else None)"

definition ends_with_char :: "char \<Rightarrow> string \<Rightarrow> bool" where
  "ends_with_char c s \<longleftrightarrow> s \<noteq> [] \<and> last s = c"

text \<open>\<open>str::trim_end_matches\<close> and \<open>str::trim_start_matches\<close> with a set of characters.\<close>

definition trim_end_matches :: "char list \<Rightarrow> string \<Rightarrow> string" where
  "trim_end_matches cs s = rev (dropWhile (\<lambda>c. c \<in> set cs) (rev s))"

definition trim_start_matches :: "char list \<Rightarrow> string \<Rightarrow> string" where
  "trim_start_matches cs s = dropWhile (\<lambda>c. c \<in> set cs) s"

text \<open>The \<open>Debug\<close> text of a string: quoted, with the escapes of \<open>char::escape_debug\<close>.\<close>

fun hex_of_nat :: "nat \<Rightarrow> string" where
  "hex_of_nat n = (if n < 16 then [hex_digit n] else hex_of_nat (n div 16) @ [hex_digit (n mod 16)])"

declare hex_of_nat.simps [simp del]

definition escape_debug_char :: "char \<Rightarrow> string" where
  "escape_debug_char c =
     (let n = (of_char c :: nat) in
      if n = 0 then [CHR 0x5C, CHR ''0'']
      else if n = 9 then [CHR 0x5C, CHR ''t'']
      else if n = 13 then [CHR 0x5C, CHR ''r'']
      else if n = 10 then [CHR 0x5C, CHR ''n'']
      else if n = 34 then [CHR 0x5C, CHR 0x22]
      else if n = 92 then [CHR 0x5C, CHR 0x5C]
      else if n < 32 \<or> n = 127 then [CHR 0x5C, CHR ''u'', CHR 0x7B] @ hex_of_nat n @ [CHR 0x7D]
      else [c])"

definition debug_str :: "string \<Rightarrow> string" where
  "debug_str s = [CHR 0x22] @ concat (map escape_debug_char s) @ [CHR 0x22]"

section \<open>Splitting and joining\<close>

text \<open>\<open>str::split\<close> on one character: a string with \<open>n\<close> separators has \<open>n + 1\<close> pieces.\<close>

fun split_on :: "char \<Rightarrow> string \<Rightarrow> string list" where
  "split_on c [] = [[]]"
| "split_on c (x # xs) =
     (if x = c then [] # split_on c xs
      else (case split_on c xs of [] \<Rightarrow> [[x]] | seg # segs \<Rightarrow> (x # seg) # segs))"

text \<open>\<open>[String]::join\<close>.\<close>

fun join :: "string \<Rightarrow> string list \<Rightarrow> string" where
  "join sep [] = []"
| "join sep [x] = x"
| "join sep (x # y # ys) = x @ sep @ join sep (y # ys)"

section \<open>Lemmas\<close>

lemma set_trim_start: "set (trim_start s) \<subseteq> set s"
  by (auto simp: trim_start_def dest: set_dropWhileD)

lemma set_trim_end: "set (trim_end s) \<subseteq> set s"
  by (auto simp: trim_end_def dest: set_dropWhileD)

lemma set_trim: "set (trim s) \<subseteq> set s"
  using set_trim_end set_trim_start unfolding trim_def by blast

lemma trim_end_Cons_neq: "\<not> is_ws x \<Longrightarrow> trim_end (x # xs) = x # trim_end xs"
  unfolding trim_end_def by (induction xs rule: rev_induct) auto

lemma trim_end_append_neq: "\<not> is_ws x \<Longrightarrow> trim_end (xs @ [x]) = xs @ [x]"
  by (simp add: trim_end_def)

lemma trim_end_Nil_iff: "trim_end s = [] \<longleftrightarrow> (\<forall>c \<in> set s. is_ws c)"
  by (simp add: trim_end_def)

lemma trim_Nil_iff: "trim s = [] \<longleftrightarrow> (\<forall>c \<in> set s. is_ws c)"
  unfolding trim_def trim_start_def trim_end_Nil_iff
  by (metis dropWhile_eq_Nil_conv hd_dropWhile hd_in_set list.set_cases set_dropWhileD)

lemma trim_Nil [simp]: "trim [] = []"
  by (simp add: trim_Nil_iff)

lemma trim_end_no_edge: "s = [] \<or> \<not> is_ws (last s) \<Longrightarrow> trim_end s = s"
  by (cases s rule: rev_cases) (auto simp: trim_end_def)

lemma trim_start_no_edge: "s = [] \<or> \<not> is_ws (hd s) \<Longrightarrow> trim_start s = s"
  by (cases s) (auto simp: trim_start_def)

lemma trim_no_edge: "s = [] \<or> (\<not> is_ws (hd s) \<and> \<not> is_ws (last s)) \<Longrightarrow> trim s = s"
  by (auto simp: trim_def trim_start_no_edge trim_end_no_edge)

lemma trim_start_edge: "trim_start s \<noteq> [] \<Longrightarrow> \<not> is_ws (hd (trim_start s))"
  by (simp add: trim_start_def hd_dropWhile)

lemma trim_end_edge: "trim_end s \<noteq> [] \<Longrightarrow> \<not> is_ws (last (trim_end s))"
  by (simp add: trim_end_def last_rev hd_dropWhile)

lemma trim_end_hd: "trim_end s \<noteq> [] \<Longrightarrow> hd (trim_end s) = hd s"
proof -
  assume ne: "trim_end s \<noteq> []"
  have "s = trim_end s @ rev (takeWhile is_ws (rev s))"
    unfolding trim_end_def by (metis rev_append rev_rev_ident takeWhile_dropWhile_id)
  with ne show ?thesis by (metis hd_append2)
qed

lemma trim_edges: "trim s \<noteq> [] \<Longrightarrow> \<not> is_ws (hd (trim s)) \<and> \<not> is_ws (last (trim s))"
  unfolding trim_def
  by (metis list.size(3) trim_end_def trim_end_edge trim_end_hd trim_start_edge
      rev.simps(1) dropWhile.simps(1))

lemma trim_idem [simp]: "trim (trim s) = trim s"
  by (rule trim_no_edge) (use trim_edges in blast)

lemma trim_no_ws: "\<forall>c \<in> set s. \<not> is_ws c \<Longrightarrow> trim s = s"
  by (intro trim_no_edge) (cases s rule: rev_cases; auto simp: hd_append)

lemma lower_char_idem [simp]: "lower_char (lower_char c) = lower_char c"
  by (auto simp: lower_char_def is_ascii_uppercase_def Let_def)

lemma lower_idem [simp]: "to_ascii_lowercase (to_ascii_lowercase s) = to_ascii_lowercase s"
  by (simp add: to_ascii_lowercase_def)

lemma is_ws_lower_char [simp]: "is_ws (lower_char c) \<longleftrightarrow> is_ws c"
  by (auto simp: lower_char_def is_ascii_uppercase_def is_ws_def Let_def)

lemma trim_map:
  assumes "\<And>c. is_ws (f c) \<longleftrightarrow> is_ws c"
  shows "trim (map f s) = map f (trim s)"
proof -
  have "dropWhile is_ws (map f xs) = map f (dropWhile is_ws xs)" for xs
    by (simp add: dropWhile_map comp_def assms)
  then show ?thesis
    by (simp add: trim_def trim_start_def trim_end_def rev_map)
qed

lemma trim_lower: "trim (to_ascii_lowercase s) = to_ascii_lowercase (trim s)"
  by (simp add: to_ascii_lowercase_def trim_map)

lemma trim_replace_char:
  "\<not> is_ws a \<Longrightarrow> \<not> is_ws b \<Longrightarrow> trim (replace_char a b s) = replace_char a b (trim s)"
  unfolding replace_char_def by (rule trim_map) auto

lemma split_on_not_Nil [simp]: "split_on c s \<noteq> []"
  by (induction s) (auto split: list.split)

lemma split_on_no_sep: "seg \<in> set (split_on c s) \<Longrightarrow> c \<notin> set seg"
  by (induction s arbitrary: seg) (auto split: if_splits list.splits)

lemma split_on_subset: "seg \<in> set (split_on c s) \<Longrightarrow> set seg \<subseteq> set s"
proof (induction s arbitrary: seg)
  case Nil
  then show ?case by simp
next
  case (Cons x xs)
  then show ?case
    by (cases "split_on c xs") (fastforce split: if_splits)+
qed

lemma join_Cons: "ys \<noteq> [] \<Longrightarrow> join sep (x # ys) = x @ sep @ join sep ys"
  by (cases ys) simp_all

lemma join_split_on: "join [c] (split_on c s) = s"
proof (induction s)
  case Nil
  then show ?case by simp
next
  case (Cons x xs)
  obtain seg segs where sp: "split_on c xs = seg # segs"
    by (cases "split_on c xs") auto
  with Cons show ?case
    by (cases segs) (auto simp: join_Cons)
qed

lemma split_on_plain: "c \<notin> set s \<Longrightarrow> split_on c s = [s]"
  by (induction s) auto

lemma split_on_append_plain:
  "c \<notin> set l \<Longrightarrow> split_on c (s @ l) = butlast (split_on c s) @ [last (split_on c s) @ l]"
proof (induction s)
  case Nil
  then show ?case by (simp add: split_on_plain)
next
  case (Cons x xs)
  then show ?case by (cases "split_on c xs") auto
qed

lemma split_on_append_sep: "split_on c (s @ c # t) = split_on c s @ split_on c t"
proof (induction s)
  case Nil
  then show ?case by simp
next
  case (Cons x xs)
  then show ?case
    by (cases "split_on c xs") auto
qed

lemma split_on_join:
  "segs \<noteq> [] \<Longrightarrow> \<forall>seg \<in> set segs. c \<notin> set seg \<Longrightarrow> split_on c (join [c] segs) = segs"
proof (induction segs rule: induct_list012)
  case (3 x y zs)
  then show ?case
    using split_on_append_sep [of c x "join [c] (y # zs)"] by (simp add: split_on_plain)
qed (simp_all add: split_on_plain)

text \<open>A path lies below another one exactly when its list of segments extends the other's.\<close>

lemma prefix_split_on:
  "prefix (split_on c q) (split_on c p) \<longleftrightarrow> p = q \<or> prefix (q @ [c]) p"
proof (induction q arbitrary: p)
  case Nil
  then show ?case
    by (cases p) (auto split: list.splits)
next
  case (Cons x q)
  obtain seg segs where q: "split_on c q = seg # segs"
    by (cases "split_on c q") auto
  show ?case
  proof (cases p)
    case Nil
    then show ?thesis by (auto simp: q)
  next
    case (Cons y p')
    obtain seg' segs' where p': "split_on c p' = seg' # segs'"
      by (cases "split_on c p'") auto
    show ?thesis
      using Cons.IH [of p'] by (auto simp: Cons q p')
  qed
qed

lemma hex_digits_no_ws: "c \<in> set (hex_digits k n) \<Longrightarrow> \<not> is_ws c"
proof (induction k arbitrary: n)
  case (Suc k)
  have "\<not> is_ws (hex_digit d)" if "d < 16" for d
    using that by (simp add: hex_digit_def is_ws_def Let_def)
  with Suc show ?case by auto
qed simp

lemma hex16_no_ws: "c \<in> set (hex16 w) \<Longrightarrow> \<not> is_ws c"
  unfolding hex16_def by (rule hex_digits_no_ws)

end
