(* ===== verification/Btree_Map.thy ===== *)
theory Btree_Map
  imports Loong_Prelude
begin

text \<open>
  \<open>std::collections::BTreeMap\<close>: a map whose iteration runs in the order of the keys.  The model
  is a list of entries with strictly ascending keys, so that \<open>values()\<close> and \<open>iter()\<close> are the list
  itself and everything evaluates.  The locale \<open>ordered_dictionary\<close> states what the components
  rely on; it is interpreted on the list model at the end of the theory.
\<close>

type_synonym ('k, 'v) btree_map = "('k \<times> 'v) list"

definition bt_empty :: "('k, 'v) btree_map" where
  "bt_empty = []"

definition bt_get :: "('k, 'v) btree_map \<Rightarrow> 'k \<Rightarrow> 'v option" where
  "bt_get m k = map_of m k"

definition bt_contains_key :: "('k, 'v) btree_map \<Rightarrow> 'k \<Rightarrow> bool" where
  "bt_contains_key m k \<longleftrightarrow> bt_get m k \<noteq> None"

text \<open>\<open>insert\<close> replaces the value of a present key and keeps the order otherwise.\<close>

definition bt_insert :: "('k::linorder) \<Rightarrow> 'v \<Rightarrow> ('k, 'v) btree_map \<Rightarrow> ('k, 'v) btree_map" where
  "bt_insert k v m =
     takeWhile (\<lambda>e. fst e < k) m @ (k, v) # dropWhile (\<lambda>e. fst e \<le> k) m"

definition bt_remove :: "'k \<Rightarrow> ('k, 'v) btree_map \<Rightarrow> ('k, 'v) btree_map" where
  "bt_remove k m = filter (\<lambda>e. fst e \<noteq> k) m"

definition bt_values :: "('k, 'v) btree_map \<Rightarrow> 'v list" where
  "bt_values m = map snd m"

definition bt_keys :: "('k, 'v) btree_map \<Rightarrow> 'k list" where
  "bt_keys m = map fst m"

definition bt_ok :: "('k::linorder, 'v) btree_map \<Rightarrow> bool" where
  "bt_ok m \<longleftrightarrow> sorted_wrt (<) (map fst m)"

section \<open>The interface\<close>

locale ordered_dictionary =
  fixes empty :: "'m"
    and insert :: "'k::linorder \<Rightarrow> 'v \<Rightarrow> 'm \<Rightarrow> 'm"
    and remove :: "'k \<Rightarrow> 'm \<Rightarrow> 'm"
    and get :: "'m \<Rightarrow> 'k \<Rightarrow> 'v option"
    and keys :: "'m \<Rightarrow> 'k list"
    and vals :: "'m \<Rightarrow> 'v list"
    and ok :: "'m \<Rightarrow> bool"
  assumes get_empty: "get empty k = None"
    and get_insert: "ok m \<Longrightarrow> get (insert k v m) = (get m)(k \<mapsto> v)"
    and get_remove: "ok m \<Longrightarrow> get (remove k m) = (get m)(k := None)"
    and ok_empty: "ok empty"
    and ok_insert: "ok m \<Longrightarrow> ok (insert k v m)"
    and ok_remove: "ok m \<Longrightarrow> ok (remove k m)"
    and keys_sorted: "ok m \<Longrightarrow> sorted_wrt (<) (keys m)"
    and keys_values: "ok m \<Longrightarrow> map (get m) (keys m) = map Some (vals m)"
    and keys_dom: "ok m \<Longrightarrow> set (keys m) = dom (get m)"
begin

lemma get_insert_same: "ok m \<Longrightarrow> get (insert k v m) k = Some v"
  by (simp add: get_insert)

lemma get_insert_other: "ok m \<Longrightarrow> j \<noteq> k \<Longrightarrow> get (insert k v m) j = get m j"
  by (simp add: get_insert)

lemma values_ran: "ok m \<Longrightarrow> set (vals m) = ran (get m)"
proof -
  assume m: "ok m"
  have "Some ` set (vals m) = get m ` set (keys m)"
    using keys_values [OF m] by (metis list.set_map)
  then have "Some ` set (vals m) = get m ` dom (get m)"
    by (simp add: keys_dom [OF m])
  moreover have "get m ` dom (get m) = Some ` ran (get m)"
    by (auto simp: ran_def image_iff) (metis domI)
  ultimately show ?thesis
    by (metis inj_Some inj_image_eq_iff)
qed

lemma length_keys_values: "ok m \<Longrightarrow> length (keys m) = length (vals m)"
  using keys_values by (metis length_map)

lemma finite_dom_get: "ok m \<Longrightarrow> finite (dom (get m))"
  by (metis keys_dom List.finite_set)

lemma insert_twice: "ok m \<Longrightarrow> get (insert k v (insert k u m)) = get (insert k v m)"
  by (simp add: get_insert ok_insert)

lemma insert_keys: "ok m \<Longrightarrow> set (keys (insert k v m)) = Set.insert k (set (keys m))"
  by (simp add: keys_dom ok_insert get_insert)

text \<open>Two dictionaries with the same entries iterate in the same order.\<close>

lemma keys_unique: "ok m \<Longrightarrow> ok n \<Longrightarrow> get m = get n \<Longrightarrow> keys m = keys n"
  by (metis keys_dom keys_sorted strict_sorted_equal)

lemma values_unique: "ok m \<Longrightarrow> ok n \<Longrightarrow> get m = get n \<Longrightarrow> vals m = vals n"
  by (metis keys_unique keys_values inj_map_eq_map inj_Some)

end

section \<open>The list model provides it\<close>

lemma bt_get_eq: "bt_get m = map_of m"
  by (rule ext) (simp add: bt_get_def)

lemma bt_ok_Cons: "bt_ok (e # m) \<longleftrightarrow> (\<forall>x \<in> set m. fst e < fst x) \<and> bt_ok m"
  by (auto simp: bt_ok_def)

lemma map_of_below: "\<forall>x \<in> set m. a < fst x \<Longrightarrow> j \<le> a \<Longrightarrow> map_of m j = None"
  for a :: "'k::linorder"
  by (auto simp: map_of_eq_None_iff)

lemma bt_get_takeWhile_less: "bt_ok m \<Longrightarrow> map_of (takeWhile (\<lambda>e. fst e < k) m) j =
    (if j < k then map_of m j else None)"
proof (induction m)
  case (Cons e m)
  then show ?case
    using map_of_below [of m "fst e" j] by (cases e) (auto simp: bt_ok_Cons)
qed simp

lemma bt_get_dropWhile_le: "bt_ok m \<Longrightarrow> map_of (dropWhile (\<lambda>e. fst e \<le> k) m) j =
    (if k < j then map_of m j else None)"
proof (induction m)
  case (Cons e m)
  then show ?case
    using map_of_below [of m "fst e" j] by (cases e) (auto simp: bt_ok_Cons)
qed simp

lemma bt_get_insert: "bt_ok m \<Longrightarrow> bt_get (bt_insert k v m) = (bt_get m)(k \<mapsto> v)"
  by (rule ext)
    (auto simp: bt_get_def bt_insert_def map_add_def bt_get_takeWhile_less bt_get_dropWhile_le
      split: option.split)

lemma bt_ok_insert: "bt_ok m \<Longrightarrow> bt_ok (bt_insert k v m)"
proof (induction m)
  case Nil
  then show ?case by (simp add: bt_ok_def bt_insert_def)
next
  case (Cons e m)
  have tail: "\<forall>x \<in> set m. fst e < fst x" "bt_ok m"
    using Cons.prems by (auto simp: bt_ok_def)
  show ?case
  proof (cases "fst e < k")
    case True
    then have "bt_insert k v (e # m) = e # bt_insert k v m"
      by (simp add: bt_insert_def)
    moreover have "\<forall>x \<in> set (bt_insert k v m). fst e < fst x"
      using tail(1) True by (auto simp: bt_insert_def dest: set_takeWhileD set_dropWhileD)
    ultimately show ?thesis
      using Cons.IH [OF tail(2)] by (simp add: bt_ok_def)
  next
    case False
    then have "bt_insert k v (e # m) = (k, v) # dropWhile (\<lambda>e. fst e \<le> k) (e # m)"
      by (simp add: bt_insert_def)
    moreover have "dropWhile (\<lambda>e. fst e \<le> k) (e # m) = (if fst e = k then m else e # m)"
      using False tail(1) by (cases m) auto
    ultimately show ?thesis
      using False Cons.prems tail by (auto simp: bt_ok_def dest: less_trans)
  qed
qed

lemma bt_ok_remove: "bt_ok m \<Longrightarrow> bt_ok (bt_remove k m)"
  by (induction m) (auto simp: bt_ok_def bt_remove_def)

lemma bt_get_remove: "bt_get (bt_remove k m) = (bt_get m)(k := None)"
proof
  fix j
  show "bt_get (bt_remove k m) j = ((bt_get m)(k := None)) j"
    by (induction m) (auto simp: bt_get_def bt_remove_def)
qed

lemma bt_keys_values: "bt_ok m \<Longrightarrow> map (bt_get m) (bt_keys m) = map Some (bt_values m)"
proof -
  assume "bt_ok m"
  then have "distinct (map fst m)"
    by (simp add: bt_ok_def strict_sorted_iff)
  then have "\<forall>e \<in> set m. map_of m (fst e) = Some (snd e)"
    by (metis map_of_is_SomeI prod.collapse)
  then show ?thesis
    by (simp add: bt_keys_def bt_values_def bt_get_def)
qed

lemma bt_empty_ok: "bt_ok bt_empty" "bt_get bt_empty k = None"
  by (simp_all add: bt_empty_def bt_ok_def bt_get_def)

lemma bt_keys_sorted: "bt_ok m \<Longrightarrow> sorted_wrt (<) (bt_keys m)"
  by (simp add: bt_ok_def bt_keys_def)

interpretation bt: ordered_dictionary bt_empty bt_insert bt_remove bt_get bt_keys bt_values bt_ok
proof unfold_locales
  fix m :: "('a::linorder, 'b) btree_map"
  show "bt_ok m \<Longrightarrow> set (bt_keys m) = dom (bt_get m)"
    by (simp add: bt_keys_def bt_get_eq dom_map_of_conv_image_fst)
qed (simp_all add: bt_get_insert bt_get_remove bt_ok_insert bt_ok_remove bt_keys_values
      bt_empty_ok bt_keys_sorted)

lemmas bt_simps [simp] =
  bt.get_empty bt.ok_empty bt.ok_insert bt.ok_remove bt.get_insert bt.get_remove

lemma bt_contains_insert [simp]:
  "bt_ok m \<Longrightarrow> bt_contains_key (bt_insert k v m) j \<longleftrightarrow> j = k \<or> bt_contains_key m j"
  by (simp add: bt_contains_key_def)

lemma bt_contains_iff: "bt_contains_key m k \<longleftrightarrow> k \<in> dom (bt_get m)"
  by (auto simp: bt_contains_key_def)

text \<open>\<open>BTreeMap::retain\<close>.\<close>

definition bt_retain :: "('k \<Rightarrow> 'v \<Rightarrow> bool) \<Rightarrow> ('k, 'v) btree_map \<Rightarrow> ('k, 'v) btree_map" where
  "bt_retain P m = filter (\<lambda>e. P (fst e) (snd e)) m"

lemma bt_ok_distinct: "bt_ok m \<Longrightarrow> distinct (map fst m)"
  by (simp add: bt_ok_def strict_sorted_iff)

lemma bt_ok_filter: "bt_ok m \<Longrightarrow> bt_ok (filter P m)"
  by (simp add: bt_ok_def sorted_wrt_filter sorted_wrt_map)

lemma bt_get_mem: "bt_ok m \<Longrightarrow> bt_get m k = Some v \<longleftrightarrow> (k, v) \<in> set m"
  using bt_ok_distinct [of m] by (simp add: bt_get_def)

lemma bt_ok_retain [simp]: "bt_ok m \<Longrightarrow> bt_ok (bt_retain P m)"
  by (simp add: bt_retain_def bt_ok_filter)

lemma bt_get_retain [simp]:
  assumes "bt_ok m"
  shows "bt_get (bt_retain P m) k = (case bt_get m k of None \<Rightarrow> None | Some v \<Rightarrow> if P k v then Some v else None)"
proof -
  have mem: "bt_get (bt_retain P m) k = Some v \<longleftrightarrow> bt_get m k = Some v \<and> P k v" for v
    unfolding bt_retain_def bt_get_mem [OF assms] bt_get_mem [OF bt_ok_filter [OF assms]] by simp
  show ?thesis
  proof (cases "bt_get m k")
    case None
    with mem have "bt_get (bt_retain P m) k \<noteq> Some w" for w by simp
    with None show ?thesis by (cases "bt_get (bt_retain P m) k") auto
  next
    case (Some v)
    show ?thesis
    proof (cases "P k v")
      case True
      with Some mem [of v] show ?thesis by simp
    next
      case False
      with Some mem have "bt_get (bt_retain P m) k \<noteq> Some w" for w by auto
      with Some False show ?thesis by (cases "bt_get (bt_retain P m) k") auto
    qed
  qed
qed

end
