(* ===== verification/Contracts.thy ===== *)
theory Contracts
  imports Rust_Strings Btree_Map
begin

text \<open>
  The contract vocabulary of \<open>crates/contracts\<close>: capabilities and their labels, execution routes,
  capability tokens, task intents, harness and connector requests, vertical packs and namespaces.
  A \<open>BTreeSet<Capability>\<close> is a \<open>capability set\<close>, iterated in the derived order of the enum
  (\<open>caps_iter\<close>).  \<open>serde_json::Value\<close> is the data type \<open>json\<close>: the kernel only moves such values
  and builds one object from two of them.
\<close>

section \<open>JSON values\<close>

text \<open>A number is an integer or a double, the latter by its bits.\<close>

datatype json =
    JNull
  | JBool bool
  | JNumber int
  | JFloat "64 word"
  | JString string
  | JArray "json list"
  | JObject "(string \<times> json) list"

section \<open>Labels of enums\<close>

text \<open>
  The sources give every closed enum a canonical label (\<open>as_str\<close>) and a parser that first
  normalises its input (\<open>parse\<close>).  The contract of such a pair: the parser accepts exactly the
  inputs whose normal form is a label, and labels are in normal form.
\<close>

locale label_enum =
  fixes as_str :: "'e \<Rightarrow> string"
    and parse :: "string \<Rightarrow> 'e option"
    and canon :: "string \<Rightarrow> string"
  assumes parse_spec: "parse raw = Some e \<longleftrightarrow> canon raw = as_str e"
    and canon_label: "canon (as_str e) = as_str e"
begin

lemma parse_as_str: "parse (as_str e) = Some e"
  by (simp add: parse_spec canon_label)

lemma as_str_inject: "as_str a = as_str b \<longleftrightarrow> a = b"
  by (metis parse_as_str option.inject)

lemma parse_canon_eq: "canon x = canon y \<Longrightarrow> parse x = parse y"
  by (metis not_Some_eq parse_spec)

lemma parse_None_iff: "parse raw = None \<longleftrightarrow> canon raw \<notin> range as_str"
  by (metis not_Some_eq parse_spec rangeE rangeI)

lemma as_str_of_parse: "parse raw = Some e \<Longrightarrow> as_str e = canon raw"
  by (simp add: parse_spec)

end

text \<open>Normal form of the work-unit labels: trimmed and in lower case.\<close>

definition canon_trim_lower :: "string \<Rightarrow> string" where
  "canon_trim_lower raw = to_ascii_lowercase (trim raw)"

text \<open>Normal form of capability labels: also with underscores for hyphens.\<close>

definition canon_capability :: "string \<Rightarrow> string" where
  "canon_capability raw = replace_char (CHR ''-'') (CHR ''_'') (to_ascii_lowercase (trim raw))"

section \<open>Capabilities\<close>

datatype capability =
    InvokeTool
  | InvokeConnector
  | MemoryRead
  | MemoryWrite
  | FilesystemRead
  | FilesystemWrite
  | NetworkEgress
  | ObserveTelemetry
  | ControlRead
  | ControlWrite
  | ControlApprovals
  | ControlPairing
  | ControlAcp

fun capability_as_str :: "capability \<Rightarrow> string" where
  "capability_as_str InvokeTool = ''invoke_tool''"
| "capability_as_str InvokeConnector = ''invoke_connector''"
| "capability_as_str MemoryRead = ''memory_read''"
| "capability_as_str MemoryWrite = ''memory_write''"
| "capability_as_str FilesystemRead = ''filesystem_read''"
| "capability_as_str FilesystemWrite = ''filesystem_write''"
| "capability_as_str NetworkEgress = ''network_egress''"
| "capability_as_str ObserveTelemetry = ''observe_telemetry''"
| "capability_as_str ControlRead = ''control_read''"
| "capability_as_str ControlWrite = ''control_write''"
| "capability_as_str ControlApprovals = ''control_approvals''"
| "capability_as_str ControlPairing = ''control_pairing''"
| "capability_as_str ControlAcp = ''control_acp''"

definition capability_parse :: "string \<Rightarrow> capability option" where
  "capability_parse raw =
     (let s = canon_capability raw in
      if s = ''invoke_tool'' then Some InvokeTool
      else if s = ''invoke_connector'' then Some InvokeConnector
      else if s = ''memory_read'' then Some MemoryRead
      else if s = ''memory_write'' then Some MemoryWrite
      else if s = ''filesystem_read'' then Some FilesystemRead
      else if s = ''filesystem_write'' then Some FilesystemWrite
      else if s = ''network_egress'' then Some NetworkEgress
      else if s = ''observe_telemetry'' then Some ObserveTelemetry
      else if s = ''control_read'' then Some ControlRead
      else if s = ''control_write'' then Some ControlWrite
      else if s = ''control_approvals'' then Some ControlApprovals
      else if s = ''control_pairing'' then Some ControlPairing
      else if s = ''control_acp'' then Some ControlAcp
      else None)"

text \<open>The derived \<open>Debug\<close> of the enum, as error messages print it.\<close>

fun capability_debug :: "capability \<Rightarrow> string" where
  "capability_debug InvokeTool = ''InvokeTool''"
| "capability_debug InvokeConnector = ''InvokeConnector''"
| "capability_debug MemoryRead = ''MemoryRead''"
| "capability_debug MemoryWrite = ''MemoryWrite''"
| "capability_debug FilesystemRead = ''FilesystemRead''"
| "capability_debug FilesystemWrite = ''FilesystemWrite''"
| "capability_debug NetworkEgress = ''NetworkEgress''"
| "capability_debug ObserveTelemetry = ''ObserveTelemetry''"
| "capability_debug ControlRead = ''ControlRead''"
| "capability_debug ControlWrite = ''ControlWrite''"
| "capability_debug ControlApprovals = ''ControlApprovals''"
| "capability_debug ControlPairing = ''ControlPairing''"
| "capability_debug ControlAcp = ''ControlAcp''"

text \<open>The derived \<open>Ord\<close>: the order of the declaration.\<close>

fun capability_rank :: "capability \<Rightarrow> nat" where
  "capability_rank InvokeTool = 0"
| "capability_rank InvokeConnector = 1"
| "capability_rank MemoryRead = 2"
| "capability_rank MemoryWrite = 3"
| "capability_rank FilesystemRead = 4"
| "capability_rank FilesystemWrite = 5"
| "capability_rank NetworkEgress = 6"
| "capability_rank ObserveTelemetry = 7"
| "capability_rank ControlRead = 8"
| "capability_rank ControlWrite = 9"
| "capability_rank ControlApprovals = 10"
| "capability_rank ControlPairing = 11"
| "capability_rank ControlAcp = 12"

definition all_capabilities :: "capability list" where
  "all_capabilities =
     [InvokeTool, InvokeConnector, MemoryRead, MemoryWrite, FilesystemRead, FilesystemWrite,
      NetworkEgress, ObserveTelemetry, ControlRead, ControlWrite, ControlApprovals,
      ControlPairing, ControlAcp]"

lemma capability_rank_inj: "capability_rank a = capability_rank b \<Longrightarrow> a = b"
  by (cases a; cases b) simp_all

lemma all_capabilities_UNIV: "c \<in> set all_capabilities"
  by (cases c) (simp_all add: all_capabilities_def)

instantiation capability :: linorder
begin

definition less_eq_capability :: "capability \<Rightarrow> capability \<Rightarrow> bool" where
  "less_eq_capability a b \<longleftrightarrow> capability_rank a \<le> capability_rank b"

definition less_capability :: "capability \<Rightarrow> capability \<Rightarrow> bool" where
  "less_capability a b \<longleftrightarrow> capability_rank a < capability_rank b"

instance
  by standard
    (auto simp: less_eq_capability_def less_capability_def dest: capability_rank_inj)

end

instantiation capability :: finite
begin

instance
proof
  have "(UNIV :: capability set) \<subseteq> set all_capabilities"
    using all_capabilities_UNIV by blast
  then show "finite (UNIV :: capability set)"
    by (rule finite_subset) simp
qed

end

text \<open>Iteration over a \<open>BTreeSet<Capability>\<close>.\<close>

definition caps_iter :: "capability set \<Rightarrow> capability list" where
  "caps_iter cs = filter (\<lambda>c. c \<in> cs) all_capabilities"

lemma set_caps_iter [simp]: "set (caps_iter cs) = cs"
  by (auto simp: caps_iter_def all_capabilities_UNIV)

lemma caps_iter_sorted: "sorted_wrt (<) (caps_iter cs)"
  unfolding caps_iter_def
  by (rule sorted_wrt_filter) (simp add: all_capabilities_def less_capability_def)

lemma caps_iter_eq: "caps_iter cs = sorted_list_of_set cs"
  by (rule strict_sorted_equal) (simp_all add: caps_iter_sorted)

lemma find_caps_iter_None: "find P (caps_iter cs) = None \<longleftrightarrow> (\<forall>c \<in> cs. \<not> P c)"
  by (auto simp: find_None_iff)

lemma find_caps_iter_Some:
  "find P (caps_iter cs) = Some c \<Longrightarrow> c \<in> cs \<and> P c \<and> (\<forall>d \<in> cs. P d \<longrightarrow> c \<le> d)"
proof -
  assume f: "find P (caps_iter cs) = Some c"
  then obtain i where i: "i < length (caps_iter cs)" "P (caps_iter cs ! i)" "c = caps_iter cs ! i"
    and before: "\<forall>j<i. \<not> P (caps_iter cs ! j)"
    by (auto simp: find_Some_iff)
  have "c \<le> d" if "d \<in> cs" "P d" for d
  proof -
    from that(1) obtain j where j: "j < length (caps_iter cs)" "d = caps_iter cs ! j"
      by (metis in_set_conv_nth set_caps_iter)
    with before that(2) have "i \<le> j"
      by (meson not_le)
    then show ?thesis
      using i j caps_iter_sorted [of cs]
      by (cases "i = j") (auto simp: sorted_wrt_iff_nth_less order_less_imp_le)
  qed
  with i show ?thesis
    by (metis nth_mem set_caps_iter)
qed

interpretation capability_label: label_enum capability_as_str capability_parse canon_capability
proof
  fix raw e
  show "(capability_parse raw = Some e) = (canon_capability raw = capability_as_str e)"
    by (cases e) (simp_all add: capability_parse_def Let_def)
  show "canon_capability (capability_as_str e) = capability_as_str e"
    by (induct e; code_simp)
qed

section \<open>Routes, tokens, intents, requests\<close>

datatype harness_kind = EmbeddedPi | Acp

fun harness_kind_debug :: "harness_kind \<Rightarrow> string" where
  "harness_kind_debug EmbeddedPi = ''EmbeddedPi''"
| "harness_kind_debug Acp = ''Acp''"

record execution_route =
  route_harness_kind :: harness_kind
  route_adapter :: "string option"

record capability_token =
  token_id :: string
  token_pack_id :: string
  token_agent_id :: string
  allowed_capabilities :: "capability set"
  issued_at_epoch_s :: u64
  expires_at_epoch_s :: u64
  token_generation :: u64

record task_intent =
  intent_task_id :: string
  intent_objective :: string
  intent_required_capabilities :: "capability set"
  intent_payload :: json

record harness_request =
  hreq_token_id :: string
  hreq_pack_id :: string
  hreq_agent_id :: string
  hreq_task_id :: string
  hreq_objective :: string
  hreq_payload :: json

record harness_outcome =
  hout_status :: string
  hout_output :: json

record connector_command =
  cmd_connector_name :: string
  cmd_operation :: string
  cmd_required_capabilities :: "capability set"
  cmd_payload :: json

record connector_outcome =
  cout_status :: string
  cout_payload :: json

text \<open>
  The tool, runtime and memory planes exchange requests of one shape (a name of what is asked
  for and a payload) and outcomes of one shape (a status and a payload).
\<close>

record tool_core_request =
  tool_name :: string
  tool_payload :: json

record tool_extension_request =
  extension_action :: string
  tool_ext_payload :: json

record runtime_request =
  runtime_action :: string
  runtime_payload :: json

record memory_request =
  memory_operation :: string
  memory_payload :: json

record plane_outcome =
  out_status :: string
  out_payload :: json

section \<open>Packs and namespaces\<close>

record vertical_pack_manifest =
  pack_id :: string
  pack_domain :: string
  pack_version :: string
  default_route :: execution_route
  allowed_connectors :: "string set"
  granted_capabilities :: "capability set"
  pack_metadata :: "(string, string) btree_map"

record namespace =
  ns_pack_id :: string
  ns_domain :: string
  ns_membrane :: string
  ns_default_route :: execution_route
  ns_granted_capabilities :: "capability set"

datatype pack_error =
    EmptyPackId
  | EmptyDomain
  | InvalidVersion string
  | EmptyCapabilities

text \<open>
  \<open>VerticalPackManifest::validate\<close>.  Parsing the version is \<open>semver::Version::parse\<close>; whether
  it accepts a string is the parameter \<open>semver_ok\<close>.
\<close>

definition pack_validate :: "(string \<Rightarrow> bool) \<Rightarrow> vertical_pack_manifest \<Rightarrow> pack_error + unit" where
  "pack_validate semver_ok p =
     (if trim (pack_id p) = [] then Inl EmptyPackId
      else if trim (pack_domain p) = [] then Inl EmptyDomain
      else if \<not> semver_ok (pack_version p) then Inl (InvalidVersion (pack_version p))
      else if granted_capabilities p = {} then Inl EmptyCapabilities
      else Inr ())"

definition pack_grants :: "vertical_pack_manifest \<Rightarrow> capability \<Rightarrow> bool" where
  "pack_grants p c \<longleftrightarrow> c \<in> granted_capabilities p"

definition allows_connector :: "vertical_pack_manifest \<Rightarrow> string \<Rightarrow> bool" where
  "allows_connector p n \<longleftrightarrow> n \<in> allowed_connectors p"

lemma pack_validate_Inr:
  "pack_validate semver_ok p = Inr u \<longleftrightarrow>
     trim (pack_id p) \<noteq> [] \<and> trim (pack_domain p) \<noteq> [] \<and> semver_ok (pack_version p)
     \<and> granted_capabilities p \<noteq> {}"
  by (simp add: pack_validate_def)

end
