(* ===== verification/Contract_Errors.thy ===== *)
theory Contract_Errors
  imports Contracts
begin

text \<open>
  The error enums of \<open>crates/contracts/src/errors.rs\<close> with the messages their \<open>Display\<close>
  implementations write, the \<open>Fault\<close> type of \<open>fault.rs\<close> with its conversions from policy and
  kernel errors, and the task life cycle of \<open>task_state.rs\<close>.
\<close>

section \<open>Errors\<close>

datatype policy_error =
    ExpiredToken string u64
  | MissingCapability string capability
  | PackMismatch string string
  | RevokedToken string
  | ExtensionDenied string string
  | ToolCallDenied string string

datatype harness_error =
    AdapterNotFound string
  | AdapterKindMismatch string harness_kind harness_kind
  | HarnessExecution string

datatype connector_error =
    ConnectorNotFound string
  | ConnectorCoreAdapterNotFound string
  | ConnectorExtensionNotFound string
  | ConnectorNoDefaultCoreAdapter
  | ConnectorExecution string

datatype runtime_plane_error =
    RuntimeCoreAdapterNotFound string
  | RuntimeExtensionNotFound string
  | RuntimeNoDefaultCoreAdapter
  | RuntimeExecution string

datatype tool_plane_error =
    ToolCoreAdapterNotFound string
  | ToolExtensionNotFound string
  | ToolNoDefaultCoreAdapter
  | ToolExecution string

datatype memory_plane_error =
    MemoryCoreAdapterNotFound string
  | MemoryExtensionNotFound string
  | MemoryNoDefaultCoreAdapter
  | MemoryExecution string

datatype integration_error =
    ProviderNotFound string
  | ChannelNotFound string
  | ChannelDisabled string
  | PluginScanRootNotFound string
  | PluginFileRead string string
  | PluginManifestParse string string
  | PluginManifestConflict string string string string string
  | AwarenessRootNotFound string
  | AwarenessFileRead string string
  | PluginAbsorbFailed string string

datatype audit_error = AuditSinkError string

datatype kernel_error =
    PackNotFound string
  | DuplicatePack string
  | ConnectorNotAllowed string string
  | PackCapabilityBoundary string capability
  | KPack pack_error
  | KPolicy policy_error
  | KHarness harness_error
  | KConnector connector_error
  | KRuntimePlane runtime_plane_error
  | KToolPlane tool_plane_error
  | KMemoryPlane memory_plane_error
  | KIntegration integration_error
  | KAudit audit_error

section \<open>Messages\<close>

fun pack_error_display :: "pack_error \<Rightarrow> string" where
  "pack_error_display EmptyPackId = ''pack_id must not be empty''"
| "pack_error_display EmptyDomain = ''domain must not be empty''"
| "pack_error_display (InvalidVersion v) = ''version is not valid semver: '' @ v"
| "pack_error_display EmptyCapabilities = ''pack must grant at least one capability''"

fun policy_error_display :: "policy_error \<Rightarrow> string" where
  "policy_error_display (ExpiredToken t e) = ''token '' @ t @ '' expired at '' @ show_u64 e"
| "policy_error_display (MissingCapability t c) =
     ''token '' @ t @ '' missing required capability '' @ capability_debug c"
| "policy_error_display (PackMismatch tp rp) =
     ''token pack mismatch: token pack '' @ tp @ '' vs runtime pack '' @ rp"
| "policy_error_display (RevokedToken t) = ''token '' @ t @ '' has been revoked''"
| "policy_error_display (ExtensionDenied e r) =
     ''policy extension '' @ e @ '' denied request: '' @ r"
| "policy_error_display (ToolCallDenied t r) =
     ''tool call denied by policy for `'' @ t @ ''`: '' @ r"

fun harness_error_display :: "harness_error \<Rightarrow> string" where
  "harness_error_display (AdapterNotFound n) = ''harness adapter not found: '' @ n"
| "harness_error_display (AdapterKindMismatch a e f) =
     ''harness adapter kind mismatch for adapter '' @ a @ '': expected '' @ harness_kind_debug e
       @ '', actual '' @ harness_kind_debug f"
| "harness_error_display (HarnessExecution m) = ''harness adapter execution failed: '' @ m"

fun connector_error_display :: "connector_error \<Rightarrow> string" where
  "connector_error_display (ConnectorNotFound n) = ''connector not found: '' @ n"
| "connector_error_display (ConnectorCoreAdapterNotFound n) =
     ''core connector adapter not found: '' @ n"
| "connector_error_display (ConnectorExtensionNotFound n) =
     ''connector extension not found: '' @ n"
| "connector_error_display ConnectorNoDefaultCoreAdapter =
     ''no default core connector adapter is configured''"
| "connector_error_display (ConnectorExecution m) = ''connector execution failed: '' @ m"

fun runtime_plane_error_display :: "runtime_plane_error \<Rightarrow> string" where
  "runtime_plane_error_display (RuntimeCoreAdapterNotFound n) =
     ''core runtime adapter not found: '' @ n"
| "runtime_plane_error_display (RuntimeExtensionNotFound n) =
     ''runtime extension not found: '' @ n"
| "runtime_plane_error_display RuntimeNoDefaultCoreAdapter =
     ''no default core runtime adapter is configured''"
| "runtime_plane_error_display (RuntimeExecution m) = ''runtime execution failed: '' @ m"

fun tool_plane_error_display :: "tool_plane_error \<Rightarrow> string" where
  "tool_plane_error_display (ToolCoreAdapterNotFound n) = ''core tool adapter not found: '' @ n"
| "tool_plane_error_display (ToolExtensionNotFound n) = ''tool extension not found: '' @ n"
| "tool_plane_error_display ToolNoDefaultCoreAdapter =
     ''no default core tool adapter is configured''"
| "tool_plane_error_display (ToolExecution m) = ''tool execution failed: '' @ m"

fun memory_plane_error_display :: "memory_plane_error \<Rightarrow> string" where
  "memory_plane_error_display (MemoryCoreAdapterNotFound n) =
     ''core memory adapter not found: '' @ n"
| "memory_plane_error_display (MemoryExtensionNotFound n) =
     ''memory extension not found: '' @ n"
| "memory_plane_error_display MemoryNoDefaultCoreAdapter =
     ''no default core memory adapter is configured''"
| "memory_plane_error_display (MemoryExecution m) = ''memory execution failed: '' @ m"

fun integration_error_display :: "integration_error \<Rightarrow> string" where
  "integration_error_display (ProviderNotFound n) = ''provider not found: '' @ n"
| "integration_error_display (ChannelNotFound n) = ''channel not found: '' @ n"
| "integration_error_display (ChannelDisabled n) = ''channel is disabled: '' @ n"
| "integration_error_display (PluginScanRootNotFound n) =
     ''plugin scan root does not exist: '' @ n"
| "integration_error_display (PluginFileRead p r) =
     ''failed to read plugin source file '' @ p @ '': '' @ r"
| "integration_error_display (PluginManifestParse p r) =
     ''invalid plugin manifest in '' @ p @ '': '' @ r"
| "integration_error_display (PluginManifestConflict mp sp f pv sv) =
     ''plugin manifest conflict between package '' @ mp @ '' and source '' @ sp @ '' on '' @ f
       @ '': package '' @ pv @ '' vs source '' @ sv"
| "integration_error_display (AwarenessRootNotFound n) =
     ''awareness root does not exist: '' @ n"
| "integration_error_display (AwarenessFileRead p r) =
     ''failed to inspect awareness file '' @ p @ '': '' @ r"
| "integration_error_display (PluginAbsorbFailed p r) =
     ''plugin absorb failed for '' @ p @ '': '' @ r"

fun audit_error_display :: "audit_error \<Rightarrow> string" where
  "audit_error_display (AuditSinkError m) = ''audit sink failure: '' @ m"

fun kernel_error_display :: "kernel_error \<Rightarrow> string" where
  "kernel_error_display (PackNotFound p) = ''pack not found: '' @ p"
| "kernel_error_display (DuplicatePack p) = ''duplicate pack id: '' @ p"
| "kernel_error_display (ConnectorNotAllowed c p) =
     ''connector '' @ c @ '' is not allowed by pack '' @ p"
| "kernel_error_display (PackCapabilityBoundary p c) =
     ''pack '' @ p @ '' does not grant capability '' @ capability_debug c"
| "kernel_error_display (KPack e) = pack_error_display e"
| "kernel_error_display (KPolicy e) = policy_error_display e"
| "kernel_error_display (KHarness e) = harness_error_display e"
| "kernel_error_display (KConnector e) = connector_error_display e"
| "kernel_error_display (KRuntimePlane e) = runtime_plane_error_display e"
| "kernel_error_display (KToolPlane e) = tool_plane_error_display e"
| "kernel_error_display (KMemoryPlane e) = memory_plane_error_display e"
| "kernel_error_display (KIntegration e) = integration_error_display e"
| "kernel_error_display (KAudit e) = audit_error_display e"

section \<open>Faults\<close>

datatype fault =
    FaultPanic string
  | CapabilityViolation string capability
  | TokenExpired string u64
  | ProtocolViolation string
  | PolicyDenied string

fun fault_display :: "fault \<Rightarrow> string" where
  "fault_display (FaultPanic m) = ''panic: '' @ m"
| "fault_display (CapabilityViolation t c) =
     ''capability violation: token '' @ t @ '' missing '' @ capability_debug c"
| "fault_display (TokenExpired t e) = ''token '' @ t @ '' expired at '' @ show_u64 e"
| "fault_display (ProtocolViolation d) = ''protocol violation: '' @ d"
| "fault_display (PolicyDenied r) = ''policy denied: '' @ r"

fun from_policy_error :: "policy_error \<Rightarrow> fault" where
  "from_policy_error (ExpiredToken t e) = TokenExpired t e"
| "from_policy_error (MissingCapability t c) = CapabilityViolation t c"
| "from_policy_error (RevokedToken t) = PolicyDenied (''token '' @ t @ '' revoked'')"
| "from_policy_error (PackMismatch tp rp) =
     PolicyDenied (''pack mismatch: token='' @ tp @ '' runtime='' @ rp)"
| "from_policy_error (ExtensionDenied e r) = PolicyDenied (''extension '' @ e @ '': '' @ r)"
| "from_policy_error (ToolCallDenied t r) = PolicyDenied (''tool '' @ t @ '': '' @ r)"

fun from_kernel_error :: "kernel_error \<Rightarrow> fault" where
  "from_kernel_error (KPolicy e) = from_policy_error e"
| "from_kernel_error (PackCapabilityBoundary p c) = CapabilityViolation (''pack:'' @ p) c"
| "from_kernel_error e = FaultPanic (kernel_error_display e)"

section \<open>Task life cycle\<close>

datatype task_state =
    Runnable task_intent
  | InSend string
  | InReply string
  | Completed harness_outcome
  | Faulted fault

fun task_id :: "task_state \<Rightarrow> string option" where
  "task_id (Runnable i) = Some (intent_task_id i)"
| "task_id (InSend t) = Some t"
| "task_id (InReply t) = Some t"
| "task_id (Completed _) = None"
| "task_id (Faulted _) = None"

fun is_terminal :: "task_state \<Rightarrow> bool" where
  "is_terminal (Completed _) = True"
| "is_terminal (Faulted _) = True"
| "is_terminal _ = False"

text \<open>
  The guarded transitions.  The error message of a rejected one ends with the derived \<open>Debug\<close> of
  the state it was tried from, which the parameter \<open>dbg\<close> writes.
\<close>

fun transition_to_in_send :: "(task_state \<Rightarrow> string) \<Rightarrow> task_state \<Rightarrow> string + task_state" where
  "transition_to_in_send dbg (Runnable i) = Inr (InSend (intent_task_id i))"
| "transition_to_in_send dbg other =
     Inl (''invalid transition: cannot move to InSend from '' @ dbg other)"

fun transition_to_in_reply :: "(task_state \<Rightarrow> string) \<Rightarrow> task_state \<Rightarrow> string + task_state" where
  "transition_to_in_reply dbg (InSend t) = Inr (InReply t)"
| "transition_to_in_reply dbg other =
     Inl (''invalid transition: cannot move to InReply from '' @ dbg other)"

fun transition_to_completed ::
    "(task_state \<Rightarrow> string) \<Rightarrow> task_state \<Rightarrow> harness_outcome \<Rightarrow> string + task_state" where
  "transition_to_completed dbg (InReply t) out = Inr (Completed out)"
| "transition_to_completed dbg other out =
     Inl (''invalid transition: cannot move to Completed from '' @ dbg other)"

definition transition_to_faulted :: "task_state \<Rightarrow> fault \<Rightarrow> task_state" where
  "transition_to_faulted s f = (if is_terminal s then s else Faulted f)"

text \<open>
  The documented life cycle of \<open>task_state.rs\<close> as a relation: \<open>Runnable\<close> to \<open>InSend\<close>, \<open>InSend\<close> to
  \<open>InReply\<close>, \<open>InReply\<close> to \<open>Completed\<close>, and any state that is not terminal to \<open>Faulted\<close>.
\<close>

inductive lifecycle_step :: "task_state \<Rightarrow> task_state \<Rightarrow> bool" where
  to_in_send: "lifecycle_step (Runnable i) (InSend (intent_task_id i))"
| to_in_reply: "lifecycle_step (InSend t) (InReply t)"
| to_completed: "lifecycle_step (InReply t) (Completed out)"
| to_faulted: "\<not> is_terminal s \<Longrightarrow> lifecycle_step s (Faulted f)"

inductive_cases lifecycle_from_completed: "lifecycle_step (Completed out) s"
inductive_cases lifecycle_from_faulted: "lifecycle_step (Faulted f) s"
inductive_simps lifecycle_step_simps: "lifecycle_step s t"

text \<open>The operations of the code take exactly the steps of that relation.\<close>

lemma transition_in_send_sound:
  "transition_to_in_send dbg s = Inr t \<Longrightarrow> lifecycle_step s t"
  by (cases s) (auto intro: lifecycle_step.intros)

lemma transition_in_reply_sound:
  "transition_to_in_reply dbg s = Inr t \<Longrightarrow> lifecycle_step s t"
  by (cases s) (auto intro: lifecycle_step.intros)

lemma transition_completed_sound:
  "transition_to_completed dbg s out = Inr t \<Longrightarrow> lifecycle_step s t"
  by (cases s) (auto intro: lifecycle_step.intros)

lemma transition_faulted_sound:
  "transition_to_faulted s f = s \<and> is_terminal s \<or> lifecycle_step s (transition_to_faulted s f)"
  by (auto simp: transition_to_faulted_def intro: lifecycle_step.intros)

lemma lifecycle_terminal: "lifecycle_step s t \<Longrightarrow> \<not> is_terminal s"
  by (cases rule: lifecycle_step.cases) auto

text \<open>
  The four transition operations implement the documented life cycle exactly.  A state \<open>t\<close> is
  a successor of \<open>s\<close> in the documented relation iff one of the four operations of the code takes
  \<open>s\<close> to \<open>t\<close>, moving to \<open>Faulted\<close> only from a state that is not terminal.
\<close>

theorem task_transitions_implement_lifecycle:
  "lifecycle_step s t \<longleftrightarrow>
     transition_to_in_send dbg s = Inr t
     \<or> transition_to_in_reply dbg s = Inr t
     \<or> (\<exists>out. transition_to_completed dbg s out = Inr t)
     \<or> (\<not> is_terminal s \<and> (\<exists>f. t = Faulted f \<and> transition_to_faulted s f = t))"
  by (cases s; cases t) (auto simp: lifecycle_step_simps transition_to_faulted_def)

text \<open>The length of every run of the life cycle is bounded: at most four states follow the first.\<close>

fun stage :: "task_state \<Rightarrow> nat" where
  "stage (Runnable _) = 3"
| "stage (InSend _) = 2"
| "stage (InReply _) = 1"
| "stage (Completed _) = 0"
| "stage (Faulted _) = 0"

lemma lifecycle_stage_decreases: "lifecycle_step s t \<Longrightarrow> stage t < stage s"
  by (induction rule: lifecycle_step.induct) (auto elim: is_terminal.elims)

end
