(* ===== verification/Policy_Engine.thy ===== *)
theory Policy_Engine
  imports Contract_Errors
begin

text \<open>
  \<open>crates/kernel/src/policy.rs\<close>: the trait \<open>PolicyEngine\<close> as a record of operations over an engine
  state (\<open>policy_engine\<close>, what a \<open>LoongKernel<P>\<close> calls), the engine the product ships,
  \<open>StaticPolicyEngine\<close>, and the contract that the kernel relies on (locale \<open>engine_contract\<close>),
  interpreted on that engine.  Atomic counters wrap around as \<open>fetch_add\<close> does, and so does the
  plain addition of one after it in a release build.
\<close>

section \<open>The trait\<close>

record policy_context =
  conversation_hash :: "string option"
  call_depth :: u32

record policy_request =
  preq_tool_name :: string
  preq_parameters :: json
  preq_pack_id :: string
  preq_agent_id :: string
  preq_capabilities_used :: "capability set"
  preq_context :: policy_context

datatype policy_decision = PolicyAllow | PolicyDeny string

record 'p policy_engine =
  pe_issue_token ::
    "'p \<Rightarrow> vertical_pack_manifest \<Rightarrow> string \<Rightarrow> u64 \<Rightarrow> u64 \<Rightarrow> 'p \<times> (policy_error + capability_token)"
  pe_authorize ::
    "'p \<Rightarrow> capability_token \<Rightarrow> string \<Rightarrow> u64 \<Rightarrow> capability set \<Rightarrow> policy_error + unit"
  pe_revoke_token :: "'p \<Rightarrow> string \<Rightarrow> 'p \<times> (policy_error + unit)"
  pe_revoke_generation :: "'p \<Rightarrow> u64 \<Rightarrow> 'p"
  pe_check_tool_call :: "'p \<Rightarrow> policy_request \<Rightarrow> policy_decision"

section \<open>The static engine\<close>

text \<open>
  \<open>revoked_poisoned\<close> is the poison flag of the mutex around the set of revoked identifiers: a
  poisoned lock makes \<open>lock()\<close> fail.
\<close>

record static_policy_engine =
  token_seq :: u64
  revoked_tokens :: "string set"
  revoked_poisoned :: bool
  generation :: u64
  revoked_below_generation :: u64

definition static_default :: static_policy_engine where
  "static_default = \<lparr>token_seq = 0, revoked_tokens = {}, revoked_poisoned = False,
     generation = 0, revoked_below_generation = 0\<rparr>"

definition next_token_id :: "static_policy_engine \<Rightarrow> static_policy_engine \<times> string" where
  "next_token_id e =
     (let s = token_seq e in (e\<lparr>token_seq := s + 1\<rparr>, ''tok-'' @ hex16 (s + 1)))"

definition revoke_generation :: "static_policy_engine \<Rightarrow> u64 \<Rightarrow> static_policy_engine" where
  "revoke_generation e below =
     e\<lparr>revoked_below_generation := max (revoked_below_generation e) below,
       generation := max (generation e) below\<rparr>"

definition current_generation :: "static_policy_engine \<Rightarrow> u64" where
  "current_generation e = generation e"

definition issue_token ::
    "static_policy_engine \<Rightarrow> vertical_pack_manifest \<Rightarrow> string \<Rightarrow> u64 \<Rightarrow> u64 \<Rightarrow>
     static_policy_engine \<times> (policy_error + capability_token)" where
  "issue_token e pack agent now ttl =
     (let gen = generation e + 1;
          (e', tid) = next_token_id (e\<lparr>generation := generation e + 1\<rparr>)
      in (e', Inr \<lparr>token_id = tid, token_pack_id = pack_id pack, token_agent_id = agent,
            allowed_capabilities = granted_capabilities pack, issued_at_epoch_s = now,
            expires_at_epoch_s = sat_add_u64 now ttl, token_generation = gen\<rparr>))"

definition authorize ::
    "static_policy_engine \<Rightarrow> capability_token \<Rightarrow> string \<Rightarrow> u64 \<Rightarrow> capability set \<Rightarrow>
     policy_error + unit" where
  "authorize e t runtime_pack_id now required =
     (if revoked_poisoned e then Inl (RevokedToken (token_id t))
      else if token_id t \<in> revoked_tokens e then Inl (RevokedToken (token_id t))
      else if 0 < token_generation t \<and> token_generation t \<le> revoked_below_generation e
        then Inl (RevokedToken (token_id t))
      else if token_pack_id t \<noteq> runtime_pack_id
        then Inl (PackMismatch (token_pack_id t) runtime_pack_id)
      else if expires_at_epoch_s t < now
        then Inl (ExpiredToken (token_id t) (expires_at_epoch_s t))
      else (case find (\<lambda>c. c \<notin> allowed_capabilities t) (caps_iter required) of
              Some c \<Rightarrow> Inl (MissingCapability (token_id t) c)
            | None \<Rightarrow> Inr ()))"

definition revoke_token ::
    "static_policy_engine \<Rightarrow> string \<Rightarrow> static_policy_engine \<times> (policy_error + unit)" where
  "revoke_token e tid =
     (if revoked_poisoned e then (e, Inl (RevokedToken tid))
      else (e\<lparr>revoked_tokens := insert tid (revoked_tokens e)\<rparr>, Inr ()))"

definition check_tool_call :: "static_policy_engine \<Rightarrow> policy_request \<Rightarrow> policy_decision" where
  "check_tool_call e request = PolicyAllow"

definition static_engine :: "static_policy_engine policy_engine" where
  "static_engine = \<lparr>pe_issue_token = issue_token, pe_authorize = authorize,
     pe_revoke_token = revoke_token, pe_revoke_generation = revoke_generation,
     pe_check_tool_call = check_tool_call\<rparr>"

lemma static_engine_simps [simp]:
  "pe_issue_token static_engine = issue_token"
  "pe_authorize static_engine = authorize"
  "pe_revoke_token static_engine = revoke_token"
  "pe_revoke_generation static_engine = revoke_generation"
  "pe_check_tool_call static_engine = check_tool_call"
  by (simp_all add: static_engine_def)

section \<open>The contract of an engine\<close>

text \<open>
  What the kernel relies on.  A token is \<open>dead\<close> in an engine state when no call of \<open>authorize\<close> can
  accept it; revoking makes dead, and no operation brings a dead token back.
\<close>

definition dead :: "'p policy_engine \<Rightarrow> 'p \<Rightarrow> capability_token \<Rightarrow> bool" where
  "dead pe p t \<longleftrightarrow> (\<forall>pid now required. pe_authorize pe p t pid now required \<noteq> Inr ())"

locale engine_contract =
  fixes pe :: "'p policy_engine"
  assumes authorize_capabilities:
      "pe_authorize pe p t pid now required = Inr () \<Longrightarrow> required \<subseteq> allowed_capabilities t"
    and authorize_pack:
      "pe_authorize pe p t pid now required = Inr () \<Longrightarrow> token_pack_id t = pid"
    and authorize_unexpired:
      "pe_authorize pe p t pid now required = Inr () \<Longrightarrow> now \<le> expires_at_epoch_s t"
    and authorize_mono:
      "pe_authorize pe p t pid now required = Inr () \<Longrightarrow> fewer \<subseteq> required \<Longrightarrow>
         pe_authorize pe p t pid now fewer = Inr ()"
    and issue_grants:
      "pe_issue_token pe p pack agent now ttl = (p', Inr t) \<Longrightarrow>
         allowed_capabilities t = granted_capabilities pack
         \<and> token_pack_id t = pack_id pack \<and> token_agent_id t = agent
         \<and> expires_at_epoch_s t = sat_add_u64 now ttl"
    and revoke_kills:
      "pe_revoke_token pe p tid = (p', Inr ()) \<Longrightarrow> token_id t = tid \<Longrightarrow> dead pe p' t"
    and dead_issue: "dead pe p t \<Longrightarrow> dead pe (fst (pe_issue_token pe p pack agent now ttl)) t"
    and dead_revoke: "dead pe p t \<Longrightarrow> dead pe (fst (pe_revoke_token pe p tid)) t"
    and dead_revoke_generation: "dead pe p t \<Longrightarrow> dead pe (pe_revoke_generation pe p below) t"
begin

text \<open>A state reached by any sequence of engine operations.\<close>

inductive evolves :: "'p \<Rightarrow> 'p \<Rightarrow> bool" where
  here: "evolves p p"
| by_issue: "evolves p q \<Longrightarrow> evolves p (fst (pe_issue_token pe q pack agent now ttl))"
| by_revoke: "evolves p q \<Longrightarrow> evolves p (fst (pe_revoke_token pe q tid))"
| by_generation: "evolves p q \<Longrightarrow> evolves p (pe_revoke_generation pe q below)"

lemma dead_stays_dead: "evolves p q \<Longrightarrow> dead pe p t \<Longrightarrow> dead pe q t"
  by (induction rule: evolves.induct) (auto intro: dead_issue dead_revoke dead_revoke_generation)

lemma revoked_is_final:
  assumes "pe_revoke_token pe p (token_id t) = (p', Inr ())" and "evolves p' q"
  shows "pe_authorize pe q t pid now required \<noteq> Inr ()"
  using dead_stays_dead [OF assms(2) revoke_kills [OF assms(1) refl]] by (simp add: dead_def)

lemma expired_never_authorized:
  "expires_at_epoch_s t < now \<Longrightarrow> pe_authorize pe p t pid now required \<noteq> Inr ()"
  using authorize_unexpired by (metis leD)

lemma issued_within_pack:
  assumes "pe_issue_token pe p pack agent now ttl = (p', Inr t)"
    and "pe_authorize pe q t pid later required = Inr ()"
  shows "required \<subseteq> granted_capabilities pack \<and> pid = pack_id pack \<and> later \<le> sat_add_u64 now ttl"
  using issue_grants [OF assms(1)] authorize_capabilities [OF assms(2)] authorize_pack [OF assms(2)]
    authorize_unexpired [OF assms(2)] by simp

end

section \<open>The static engine keeps the contract\<close>

lemma authorize_Inr_iff:
  "authorize e t pid now required = Inr () \<longleftrightarrow>
     \<not> revoked_poisoned e \<and> token_id t \<notin> revoked_tokens e
     \<and> \<not> (0 < token_generation t \<and> token_generation t \<le> revoked_below_generation e)
     \<and> token_pack_id t = pid \<and> now \<le> expires_at_epoch_s t
     \<and> required \<subseteq> allowed_capabilities t"
proof -
  have "find (\<lambda>c. c \<notin> allowed_capabilities t) (caps_iter required) = None
      \<longleftrightarrow> required \<subseteq> allowed_capabilities t"
    by (auto simp: find_caps_iter_None)
  then show ?thesis
    by (auto simp: authorize_def not_less split: option.split)
qed

lemma static_dead_iff:
  "dead static_engine e t \<longleftrightarrow>
     revoked_poisoned e \<or> token_id t \<in> revoked_tokens e
     \<or> (0 < token_generation t \<and> token_generation t \<le> revoked_below_generation e)"
proof -
  have "authorize e t (token_pack_id t) (expires_at_epoch_s t) {} = Inr ()
      \<longleftrightarrow> \<not> (revoked_poisoned e \<or> token_id t \<in> revoked_tokens e
        \<or> (0 < token_generation t \<and> token_generation t \<le> revoked_below_generation e))"
    by (simp add: authorize_Inr_iff)
  then show ?thesis
    by (auto simp: dead_def authorize_Inr_iff)
qed

lemma issue_token_eq:
  "issue_token e pack agent now ttl =
     (e\<lparr>generation := generation e + 1, token_seq := token_seq e + 1\<rparr>,
      Inr \<lparr>token_id = ''tok-'' @ hex16 (token_seq e + 1), token_pack_id = pack_id pack,
        token_agent_id = agent, allowed_capabilities = granted_capabilities pack,
        issued_at_epoch_s = now, expires_at_epoch_s = sat_add_u64 now ttl,
        token_generation = generation e + 1\<rparr>)"
  by (simp add: issue_token_def next_token_id_def Let_def)

interpretation static: engine_contract static_engine
proof
  fix e e' :: static_policy_engine and t tid pid now agent ttl below required fewer pack
  show "pe_revoke_token static_engine e tid = (e', Inr ()) \<Longrightarrow> token_id t = tid \<Longrightarrow>
      dead static_engine e' t"
    by (auto simp: static_dead_iff revoke_token_def split: if_splits)
  show "dead static_engine e t \<Longrightarrow>
      dead static_engine (fst (pe_issue_token static_engine e pack agent now ttl)) t"
    unfolding static_dead_iff by (simp add: issue_token_eq)
  show "dead static_engine e t \<Longrightarrow> dead static_engine (fst (pe_revoke_token static_engine e tid)) t"
    unfolding static_dead_iff by (auto simp: revoke_token_def)
  show "dead static_engine e t \<Longrightarrow>
      dead static_engine (pe_revoke_generation static_engine e below) t"
    unfolding static_dead_iff by (auto simp: revoke_generation_def le_max_iff_disj)
qed (auto simp: authorize_Inr_iff issue_token_eq)

section \<open>Runs of the engine\<close>

datatype engine_op =
    OpIssue vertical_pack_manifest string u64 u64
  | OpRevoke string
  | OpRevokeGeneration u64

text \<open>A sequence of operations, with the tokens it issues, newest first.\<close>

fun run_ops :: "engine_op list \<Rightarrow> static_policy_engine \<times> capability_token list" where
  "run_ops [] = (static_default, [])"
| "run_ops (op # ops) =
     (case run_ops ops of (e, ts) \<Rightarrow>
       (case op of
          OpIssue pack agent now ttl \<Rightarrow>
            (case issue_token e pack agent now ttl of
               (e', Inr t) \<Rightarrow> (e', t # ts) | (e', Inl _) \<Rightarrow> (e', ts))
        | OpRevoke tid \<Rightarrow> (fst (revoke_token e tid), ts)
        | OpRevokeGeneration below \<Rightarrow> (revoke_generation e below, ts)))"

fun op_below :: "engine_op \<Rightarrow> nat" where
  "op_below (OpRevokeGeneration below) = unat below"
| "op_below _ = 0"

definition max_below :: "engine_op list \<Rightarrow> nat" where
  "max_below ops = foldr max (map op_below ops) 0"

lemma revoke_token_fields [simp]:
  "token_seq (fst (revoke_token e tid)) = token_seq e"
  "generation (fst (revoke_token e tid)) = generation e"
  "revoked_below_generation (fst (revoke_token e tid)) = revoked_below_generation e"
  "revoked_poisoned (fst (revoke_token e tid)) = revoked_poisoned e"
  by (simp_all add: revoke_token_def)

lemma revoke_generation_fields [simp]:
  "token_seq (revoke_generation e b) = token_seq e"
  "revoked_tokens (revoke_generation e b) = revoked_tokens e"
  "revoked_poisoned (revoke_generation e b) = revoked_poisoned e"
  by (simp_all add: revoke_generation_def)

lemma run_ops_ids:
  "run_ops ops = (e, ts) \<Longrightarrow>
     token_seq e = of_nat (length ts)
     \<and> map token_id ts = map (\<lambda>i. ''tok-'' @ hex16 (of_nat i)) (rev [1..<Suc (length ts)])"
proof (induction ops arbitrary: e ts)
  case Nil
  then show ?case by (auto simp: static_default_def)
next
  case (Cons op ops)
  obtain e0 ts0 where r: "run_ops ops = (e0, ts0)" by fastforce
  note IH = Cons.IH [OF r]
  show ?case
  proof (cases op)
    case (OpIssue pack agent now ttl)
    with Cons.prems r IH show ?thesis
      by (auto simp: issue_token_eq add.commute)
  qed (use Cons.prems r IH in auto)
qed

lemma run_ops_not_poisoned: "run_ops ops = (e, ts) \<Longrightarrow> \<not> revoked_poisoned e"
proof (induction ops arbitrary: e ts)
  case Nil
  then show ?case by (auto simp: static_default_def)
next
  case (Cons op ops)
  then show ?case
    by (cases op) (auto simp: issue_token_eq split: prod.splits)
qed

lemma unat_max_u64: "unat (max (a :: u64) b) = max (unat a) (unat b)"
  by (simp add: max_def word_le_nat_alt)

lemma run_ops_generation:
  "run_ops ops = (e, ts) \<Longrightarrow> max_below ops + length ops < 2 ^ 64 \<Longrightarrow>
     revoked_below_generation e \<le> generation e
     \<and> unat (generation e) \<le> max_below ops + length ops"
proof (induction ops arbitrary: e ts)
  case Nil
  then show ?case by (auto simp: static_default_def)
next
  case (Cons op ops)
  obtain e0 ts0 where r: "run_ops ops = (e0, ts0)" by fastforce
  have bound: "max_below ops + length ops < 2 ^ 64 - 1"
    using Cons.prems(2) by (simp add: max_below_def)
  then have IH: "revoked_below_generation e0 \<le> generation e0"
      "unat (generation e0) \<le> max_below ops + length ops"
    using Cons.IH [OF r] by simp_all
  show ?case
  proof (cases op)
    case (OpIssue pack agent now ttl)
    have "generation e0 \<noteq> - 1"
      using IH(2) bound by (metis leD unat_minus_one_u64)
    then have "unat (generation e0 + 1) = Suc (unat (generation e0))"
      by (rule unat_inc_u64)
    with OpIssue Cons.prems r IH show ?thesis
      by (auto simp: issue_token_eq max_below_def word_le_nat_alt)
  next
    case (OpRevokeGeneration below)
    with Cons.prems r IH show ?thesis
      by (auto simp: revoke_generation_def max_below_def unat_max_u64 le_max_iff_disj)
  qed (use Cons.prems r IH in \<open>auto simp: max_below_def\<close>)
qed

text \<open>What the state of the engine remembers of a run, newest operation first.\<close>

lemma max_below_Cons: "max_below (op # ops) = max (op_below op) (max_below ops)"
  by (simp add: max_below_def)

lemma max_below_append: "max_below (xs @ ys) = max (max_below xs) (max_below ys)"
  by (induction xs) (simp_all add: max_below_Cons max.assoc, simp add: max_below_def)

lemma max_below_less: "0 < n \<Longrightarrow> max_below ops < n \<longleftrightarrow> (\<forall>op \<in> set ops. op_below op < n)"
  by (induction ops) (simp_all add: max_below_Cons, simp add: max_below_def)

lemma run_ops_history:
  "run_ops ops = (e, ts) \<Longrightarrow>
     revoked_tokens e = {tid. OpRevoke tid \<in> set ops} \<and> unat (revoked_below_generation e) = max_below ops"
proof (induction ops arbitrary: e ts)
  case Nil
  then show ?case by (auto simp: static_default_def max_below_def)
next
  case (Cons op ops)
  obtain e0 ts0 where r: "run_ops ops = (e0, ts0)" by fastforce
  note IH = Cons.IH [OF r] and live = run_ops_not_poisoned [OF r]
  show ?case
  proof (cases op)
    case (OpIssue pack agent now ttl)
    with Cons.prems r IH show ?thesis by (auto simp: issue_token_eq max_below_Cons)
  next
    case (OpRevoke tid)
    with Cons.prems r IH live show ?thesis by (auto simp: revoke_token_def max_below_Cons)
  next
    case (OpRevokeGeneration below)
    with Cons.prems r IH show ?thesis
      by (auto simp: revoke_generation_def max_below_Cons unat_max_u64 max.commute)
  qed
qed

text \<open>The generation of a token lies above every cut-off made before it was issued.\<close>

lemma issued_generation:
  assumes "run_ops ops = (e, ts)" and "max_below ops + length ops < 2 ^ 64 - 1"
    and "issue_token e pack agent now ttl = (e', Inr t)"
  shows "max_below ops < unat (token_generation t)"
proof -
  have g: "revoked_below_generation e \<le> generation e" "unat (generation e) \<le> max_below ops + length ops"
    using run_ops_generation [OF assms(1)] assms(2) by auto
  then have "generation e \<noteq> - 1" using assms(2) by (metis leD unat_minus_one_u64)
  then have "unat (generation e + 1) = Suc (unat (generation e))" by (rule unat_inc_u64)
  with g(1) run_ops_history [OF assms(1)] assms(3) show ?thesis
    by (auto simp: issue_token_eq word_le_nat_alt)
qed

definition sample_pack :: vertical_pack_manifest where
  "sample_pack = \<lparr>pack_id = ''sales'', pack_domain = ''crm'', pack_version = ''0.1.0'',
     default_route = \<lparr>route_harness_kind = EmbeddedPi, route_adapter = None\<rparr>,
     allowed_connectors = {''slack''}, granted_capabilities = {InvokeTool, InvokeConnector},
     pack_metadata = []\<rparr>"

section \<open>Properties\<close>

text \<open>
  C3: the verdict on an issued token is decided by the history of the engine.  Take any run of issues,
  revocations and generation cut-offs, listed newest first, that leaves room for the generation
  counter, and a token issued somewhere in it.  At the end of the run the engine accepts the token
  exactly when it is presented for the pack it was issued for, not after its expiry, for
  capabilities that this pack granted; its identifier was revoked nowhere in the run, not even
  before it was issued; and every cut-off made after it was issued lies below its generation.
  Cut-offs made before do not touch it.
\<close>

theorem accepted_exactly_by_history:
  assumes "run_ops (later @ OpIssue pack agent now ttl # earlier) = (e, ts)"
    and "max_below (later @ earlier) + length (later @ earlier) < 2 ^ 64 - 1"
    and "issue_token (fst (run_ops earlier)) pack agent now ttl = (e1, Inr t)"
  shows "authorize e t pid time required = Inr () \<longleftrightarrow>
     pid = pack_id pack \<and> time \<le> sat_add_u64 now ttl \<and> required \<subseteq> granted_capabilities pack
     \<and> OpRevoke (token_id t) \<notin> set (later @ earlier)
     \<and> list_all (\<lambda>op. op_below op < unat (token_generation t)) later"
proof -
  obtain e0 ts0 where r0: "run_ops earlier = (e0, ts0)" by fastforce
  have room: "max_below earlier + length earlier < 2 ^ 64 - 1"
    using assms(2) by (simp add: max_below_append)
  have gen: "max_below earlier < unat (token_generation t)"
    using issued_generation [OF r0 room] assms(3) r0 by simp
  then have pos: "0 < unat (token_generation t)" by simp
  note h = run_ops_history [OF assms(1)] and live = run_ops_not_poisoned [OF assms(1)]
  have "\<not> (0 < token_generation t \<and> token_generation t \<le> revoked_below_generation e)
      \<longleftrightarrow> max_below later < unat (token_generation t)"
    using h gen pos by (auto simp: max_below_append max_below_Cons word_le_nat_alt word_less_nat_alt)
  moreover have "token_pack_id t = pack_id pack" "expires_at_epoch_s t = sat_add_u64 now ttl"
      "allowed_capabilities t = granted_capabilities pack"
    using assms(3) by (auto simp: issue_token_eq)
  ultimately show ?thesis
    using h live max_below_less [OF pos, of later] by (auto simp: authorize_Inr_iff list_all_iff)
qed

theorem accepted_exactly_by_history_witness:
  "authorize (fst (run_ops [OpRevokeGeneration 3, OpIssue sample_pack ''a'' 0 60, OpRevokeGeneration 9]))
     (projr (snd (issue_token (fst (run_ops [OpRevokeGeneration 9])) sample_pack ''a'' 0 60)))
     ''sales'' 60 {InvokeTool} = Inr ()"
proof -
  let ?ops = "[OpRevokeGeneration 3] @ OpIssue sample_pack ''a'' 0 60 # [OpRevokeGeneration 9]"
  obtain e ts where r: "run_ops ?ops = (e, ts)" by fastforce
  obtain e1 t where t: "issue_token (fst (run_ops [OpRevokeGeneration 9])) sample_pack ''a'' 0 60 = (e1, Inr t)"
    by (simp add: issue_token_eq)
  have room: "max_below ([OpRevokeGeneration 3] @ [OpRevokeGeneration 9])
      + length ([OpRevokeGeneration 3] @ [OpRevokeGeneration 9]) < 2 ^ 64 - 1"
    by (simp add: max_below_def)
  have "token_generation t = 10"
    using t by (auto simp: issue_token_eq revoke_generation_def static_default_def)
  then have "authorize e t ''sales'' 60 {InvokeTool} = Inr ()"
    unfolding accepted_exactly_by_history [OF r room t] by (simp add: sample_pack_def sat_add_u64_def)
  then show ?thesis
    using r t by simp
qed

text \<open>
  A denial for a missing capability names the least required capability (in the order of the
  enum) that the token lacks, and only after every other check has passed.
\<close>

theorem authorize_reports_least_missing:
  "authorize e t pid now required = Inl (MissingCapability tid c) \<longleftrightarrow>
     authorize e t pid now {} = Inr () \<and> tid = token_id t
     \<and> required - allowed_capabilities t \<noteq> {} \<and> c = Min (required - allowed_capabilities t)"
proof -
  let ?f = "find (\<lambda>c. c \<notin> allowed_capabilities t) (caps_iter required)"
  have none: "?f = None \<longleftrightarrow> required - allowed_capabilities t = {}"
    by (auto simp: find_caps_iter_None)
  have some: "d = Min (required - allowed_capabilities t)" if "?f = Some d" for d
    using find_caps_iter_Some [OF that] by (intro Min_eqI [symmetric]) auto
  have "caps_iter {} = []"
    by (simp add: caps_iter_def)
  then show ?thesis
    using none some by (cases ?f) (auto simp: authorize_def)
qed

text \<open>
  Revocation is final.  Once \<open>revoke_token\<close> has accepted an identifier, no sequence of later
  issues, revocations and generation cut-offs makes a token with that identifier acceptable for any
  pack, at any time, for any set of capabilities.
\<close>

theorem revoked_token_stays_revoked:
  assumes "revoke_token e (token_id t) = (e', Inr ())" and "static.evolves e' e''"
  shows "authorize e'' t pid now required \<noteq> Inr ()"
  using static.revoked_is_final [of e t e' e''] assms by simp

theorem revoked_token_stays_revoked_witness:
  "authorize (revoke_generation (static_default\<lparr>revoked_tokens := {''tok-1''}\<rparr>) 3)
     \<lparr>token_id = ''tok-1'', token_pack_id = ''p'', token_agent_id = ''a'',
      allowed_capabilities = {InvokeTool}, issued_at_epoch_s = 0, expires_at_epoch_s = 10,
      token_generation = 7\<rparr> ''p'' 5 {InvokeTool} \<noteq> Inr ()"
proof -
  let ?t = "\<lparr>token_id = ''tok-1'', token_pack_id = ''p'', token_agent_id = ''a'',
      allowed_capabilities = {InvokeTool}, issued_at_epoch_s = 0, expires_at_epoch_s = 10,
      token_generation = 7\<rparr>"
  let ?e = "static_default\<lparr>revoked_tokens := {''tok-1''}\<rparr>"
  have "revoke_token static_default (token_id ?t) = (?e, Inr ())"
    by (simp add: revoke_token_def static_default_def)
  moreover have "static.evolves ?e (revoke_generation ?e 3)"
    using static.by_generation [OF static.here, of ?e 3] by simp
  ultimately show ?thesis
    by (rule revoked_token_stays_revoked)
qed

text \<open>
  \<open>revoke_generation\<close> is an exact cut-off.  Afterwards a token whose generation is positive and
  not above the cut is refused as revoked, and the verdict on every other token is unchanged.
\<close>

theorem revoke_generation_cutoff:
  "authorize (revoke_generation e below) t pid now required =
     (if 0 < token_generation t \<and> token_generation t \<le> below
      then Inl (RevokedToken (token_id t))
      else authorize e t pid now required)"
  by (auto simp: authorize_def revoke_generation_def le_max_iff_disj)

text \<open>
  Token identifiers are unique.  In every run of the engine that issues fewer than \<open>2 ^ 64\<close>
  tokens, whatever it revokes in between, no two issued tokens have the same identifier.
\<close>

theorem issued_token_ids_distinct:
  assumes "run_ops ops = (e, ts)" and "length ts < 2 ^ 64"
  shows "distinct (map token_id ts)"
proof -
  have "inj_on (\<lambda>i. ''tok-'' @ hex16 (of_nat i)) (set (rev [1..<Suc (length ts)]))"
    using assms(2) by (intro inj_onI) (auto simp: of_nat_inverse word_unat_eq_iff unat_of_nat)
  then show ?thesis
    using run_ops_ids [OF assms(1)] by (simp add: distinct_map)
qed

theorem issued_token_ids_distinct_witness:
  "distinct (map token_id (snd (run_ops
     [OpIssue sample_pack ''a'' 5 60, OpRevokeGeneration 1, OpIssue sample_pack ''a'' 0 60])))"
proof -
  obtain e ts where r: "run_ops
     [OpIssue sample_pack ''a'' 5 60, OpRevokeGeneration 1, OpIssue sample_pack ''a'' 0 60] = (e, ts)"
    by fastforce
  moreover from r have "length ts < 2 ^ 64"
    by (auto simp: issue_token_eq)
  ultimately have "distinct (map token_id ts)"
    by (rule issued_token_ids_distinct)
  then show ?thesis
    by (simp only: r snd_conv)
qed

text \<open>
  A fresh token is live.  After any run whose generation cut-offs leave room for the counter
  (largest cut-off plus number of operations below \<open>2 ^ 64\<close>), the next issued token is accepted for
  its own pack exactly when its identifier was not revoked in advance, it has not expired, and the
  required capabilities are granted by the pack.
\<close>

theorem fresh_token_is_live:
  assumes "run_ops ops = (e, ts)" and "max_below ops + length ops < 2 ^ 64 - 1"
    and "issue_token e pack agent now ttl = (e', Inr t)"
  shows "authorize e' t (pack_id pack) later required = Inr () \<longleftrightarrow>
     token_id t \<notin> revoked_tokens e \<and> later \<le> sat_add_u64 now ttl
     \<and> required \<subseteq> granted_capabilities pack"
proof -
  have g: "revoked_below_generation e \<le> generation e"
      "unat (generation e) \<le> max_below ops + length ops"
    using run_ops_generation [OF assms(1)] assms(2) by auto
  then have "generation e \<noteq> - 1"
    using assms(2) by (metis leD unat_minus_one_u64)
  then have "unat (generation e + 1) = Suc (unat (generation e))"
    by (rule unat_inc_u64)
  then have "revoked_below_generation e < generation e + 1"
    using g(1) by (simp add: word_less_nat_alt word_le_nat_alt)
  moreover have "\<not> revoked_poisoned e"
    by (rule run_ops_not_poisoned [OF assms(1)])
  ultimately show ?thesis
    using assms(3) by (auto simp: issue_token_eq authorize_Inr_iff not_le)
qed

theorem fresh_token_is_live_witness:
  "authorize (fst (issue_token (fst (run_ops [OpRevokeGeneration 9])) sample_pack ''a'' 0 60))
     (projr (snd (issue_token (fst (run_ops [OpRevokeGeneration 9])) sample_pack ''a'' 0 60)))
     ''sales'' 30 {InvokeTool} = Inr ()"
proof -
  obtain e where r: "run_ops [OpRevokeGeneration 9] = (e, [])"
    by simp
  have room: "max_below [OpRevokeGeneration 9] + length [OpRevokeGeneration 9] < 2 ^ 64 - 1"
    by (simp add: max_below_def)
  obtain e' t where i: "issue_token e sample_pack ''a'' 0 60 = (e', Inr t)"
    by (simp add: issue_token_eq)
  have "token_id t \<notin> revoked_tokens e"
    using r by (auto simp: static_default_def)
  moreover have "(30 :: u64) \<le> sat_add_u64 0 60"
    by (simp add: sat_add_u64_def)
  ultimately have "authorize e' t (pack_id sample_pack) 30 {InvokeTool} = Inr ()"
    using fresh_token_is_live [OF r room i] by (simp add: sample_pack_def)
  with r i show ?thesis
    by (simp add: sample_pack_def)
qed

text \<open>
  C40: the generation counter has an edge.  A cut-off at the largest \<open>u64\<close>, the natural way to ask
  for every token to be revoked, makes the next issued token carry generation zero, which the
  generation check exempts: whatever cut-offs follow, that token is refused only for a poisoned lock
  or for a revocation of its own identifier.  The token issued after it is dead on arrival.
\<close>

theorem revoke_generation_max_wraps:
  "\<exists>e1 t e2 t2. issue_token (revoke_generation e (- 1)) pack agent now ttl = (e1, Inr t)
   \<and> token_generation t = 0
   \<and> (\<forall>cuts. dead static_engine (foldl revoke_generation e1 cuts) t
         \<longleftrightarrow> revoked_poisoned e \<or> token_id t \<in> revoked_tokens e)
   \<and> issue_token e1 pack agent now ttl = (e2, Inr t2) \<and> dead static_engine e2 t2"
proof -
  have max: "max (a :: u64) (- 1) = - 1" for a
    using u64_le_max [of a] by (simp add: max_def)
  have cuts: "revoked_poisoned (foldl revoke_generation e1 cuts) = revoked_poisoned e1"
    "revoked_tokens (foldl revoke_generation e1 cuts) = revoked_tokens e1" for e1 cuts
    by (induction cuts arbitrary: e1) simp_all
  show ?thesis
    by (simp add: issue_token_eq static_dead_iff cuts) (simp add: revoke_generation_def max u64_le_max)
qed

end
