(* ===== verification/Policy_Extension.thy ===== *)
theory Policy_Extension
  imports Policy_Engine
begin

text \<open>
  \<open>crates/kernel/src/policy_ext.rs\<close>: the chain of policy extensions that the kernel consults after
  the engine.  An extension is a name and a decision on a context; it may read the outside world
  (of type \<open>'w\<close>), which it does not change.
\<close>

record policy_extension_context =
  ctx_pack :: vertical_pack_manifest
  ctx_token :: capability_token
  ctx_now_epoch_s :: u64
  ctx_required_capabilities :: "capability set"
  ctx_request_parameters :: "json option"

record 'w policy_extension =
  policy_extension_name :: string
  authorize_extension :: "'w \<Rightarrow> policy_extension_context \<Rightarrow> policy_error + unit"

type_synonym 'w policy_extension_chain = "'w policy_extension list"

definition chain_new :: "'w policy_extension_chain" where
  "chain_new = []"

definition chain_register ::
    "'w policy_extension_chain \<Rightarrow> 'w policy_extension \<Rightarrow> 'w policy_extension_chain" where
  "chain_register chain ext = chain @ [ext]"

text \<open>The loop of \<open>PolicyExtensionChain::authorize\<close>: the first refusal ends it.\<close>

fun chain_authorize ::
    "'w \<Rightarrow> 'w policy_extension_chain \<Rightarrow> policy_extension_context \<Rightarrow> policy_error + unit" where
  "chain_authorize w [] ctx = Inr ()"
| "chain_authorize w (ext # exts) ctx =
     (case authorize_extension ext w ctx of
        Inl e \<Rightarrow> Inl e
      | Inr _ \<Rightarrow> chain_authorize w exts ctx)"

lemma chain_authorize_Inr:
  "chain_authorize w chain ctx = Inr u \<longleftrightarrow>
     (\<forall>ext \<in> set chain. authorize_extension ext w ctx = Inr ())"
  by (induction chain) (auto split: sum.splits)

lemma chain_authorize_append:
  "chain_authorize w (xs @ ys) ctx =
     (case chain_authorize w xs ctx of Inl e \<Rightarrow> Inl e | Inr _ \<Rightarrow> chain_authorize w ys ctx)"
  by (induction xs) (auto split: sum.splits)

text \<open>
  Extensions only tighten.  Registering one more extension keeps every refusal of the chain,
  with its reason, and a request passes the longer chain exactly when it passed the old one and
  the new extension accepts it too.
\<close>

theorem register_extension_only_tightens:
  "chain_authorize w (chain_register chain ext) ctx =
     (case chain_authorize w chain ctx of
        Inl e \<Rightarrow> Inl e
      | Inr _ \<Rightarrow> authorize_extension ext w ctx)"
  by (auto simp: chain_register_def chain_authorize_append split: sum.splits)

end
