(* ===== verification/Audit_Sink.thy ===== *)
theory Audit_Sink
  imports Contract_Errors
begin

text \<open>
  Audit events (\<open>crates/contracts/src/audit_types.rs\<close>) and the sinks of
  \<open>crates/kernel/src/audit.rs\<close> that keep them in memory: the no-op sink, the bounded in-memory sink
  with its snapshots and filters, and the fan-out over several sinks.  A sink is a state with a
  \<open>record\<close> operation that may fail or panic; the locale \<open>audit_sink\<close> states what every sink
  promises about the events it keeps.  The journal on disk is in \<open>Audit_Journal\<close>.
\<close>

section \<open>Events\<close>

datatype execution_plane = PlaneConnector | PlaneRuntime | PlaneTool | PlaneMemory

datatype plane_tier = TierLegacy | TierCore | TierExtension

datatype audit_event_kind =
    TokenIssued capability_token
  | TokenRevoked string
  | TaskDispatched string string execution_route "capability list"
  | ConnectorInvoked string string string "capability list"
  | PlaneInvoked string execution_plane plane_tier string "string option" string
      "capability list"
  | SecurityScanEvaluated string usize usize usize usize usize bool "string option"
      "string list" "string list"
  | PluginTrustEvaluated string usize usize usize usize usize usize usize "string list"
      "string list"
  | ToolSearchEvaluated string string usize bool "string list" "string list" "string list" bool
      usize "(string, usize) btree_map" "string list"
  | ProviderFailover string string string string string usize usize "16 word option" bool bool
      usize usize
  | AuthorizationDenied string string string

record audit_event =
  event_id :: string
  timestamp_epoch_s :: u64
  event_agent_id :: "string option"
  event_kind :: audit_event_kind

fun event_kind_name :: "audit_event_kind \<Rightarrow> string" where
  "event_kind_name (TokenIssued _) = ''TokenIssued''"
| "event_kind_name (TokenRevoked _) = ''TokenRevoked''"
| "event_kind_name (TaskDispatched _ _ _ _) = ''TaskDispatched''"
| "event_kind_name (ConnectorInvoked _ _ _ _) = ''ConnectorInvoked''"
| "event_kind_name (PlaneInvoked _ _ _ _ _ _ _) = ''PlaneInvoked''"
| "event_kind_name (SecurityScanEvaluated _ _ _ _ _ _ _ _ _ _) = ''SecurityScanEvaluated''"
| "event_kind_name (PluginTrustEvaluated _ _ _ _ _ _ _ _ _ _) = ''PluginTrustEvaluated''"
| "event_kind_name (ToolSearchEvaluated _ _ _ _ _ _ _ _ _ _ _) = ''ToolSearchEvaluated''"
| "event_kind_name (ProviderFailover _ _ _ _ _ _ _ _ _ _ _ _) = ''ProviderFailover''"
| "event_kind_name (AuthorizationDenied _ _ _) = ''AuthorizationDenied''"

section \<open>Filters\<close>

record audit_snapshot_filter =
  since_epoch_s :: "u64 option"
  until_epoch_s :: "u64 option"
  filter_agent_id :: "string option"
  filter_kinds :: "string list option"

text \<open>\<open>AuditSnapshotFilter::matches\<close>, with its early returns in order.\<close>

definition filter_matches :: "audit_snapshot_filter \<Rightarrow> audit_event \<Rightarrow> bool" where
  "filter_matches f e =
     (if (case since_epoch_s f of Some since \<Rightarrow> timestamp_epoch_s e < since | None \<Rightarrow> False)
        then False
      else if (case until_epoch_s f of Some till \<Rightarrow> till < timestamp_epoch_s e | None \<Rightarrow> False)
        then False
      else if (case filter_agent_id f of Some a \<Rightarrow> event_agent_id e \<noteq> Some a | None \<Rightarrow> False)
        then False
      else (case filter_kinds f of
              None \<Rightarrow> True
            | Some ks \<Rightarrow> if ks = [] then True else event_kind_name (event_kind e) \<in> set ks))"

section \<open>Sinks\<close>

type_synonym sink_result = "audit_error failure + unit"

text \<open>\<open>NoopAuditSink\<close>: accepts and forgets.\<close>

definition noop_record :: "unit \<Rightarrow> audit_event \<Rightarrow> unit \<times> sink_result" where
  "noop_record s e = ((), Inr ())"

text \<open>
  \<open>InMemoryAuditSink\<close>.  \<open>sink_poisoned\<close> is the poison flag of its mutex: a panic while the guard
  is held sets it, and every later \<open>lock()\<close> fails.
\<close>

record in_memory_audit_sink =
  sink_events :: "audit_event list"
  sink_capacity :: usize
  sink_poisoned :: bool

definition with_capacity :: "usize \<Rightarrow> in_memory_audit_sink" where
  "with_capacity c = \<lparr>sink_events = [], sink_capacity = c, sink_poisoned = False\<rparr>"

definition default_in_memory_audit_capacity :: usize where
  "default_in_memory_audit_capacity = 10000"

definition in_memory_default :: in_memory_audit_sink where
  "in_memory_default = with_capacity default_in_memory_audit_capacity"

definition snapshot :: "in_memory_audit_sink \<Rightarrow> audit_event list" where
  "snapshot s = (if sink_poisoned s then [] else sink_events s)"

definition snapshot_filtered ::
    "in_memory_audit_sink \<Rightarrow> audit_snapshot_filter \<Rightarrow> audit_event list" where
  "snapshot_filtered s f =
     (if sink_poisoned s then [] else filter (filter_matches f) (sink_events s))"

definition sink_len :: "in_memory_audit_sink \<Rightarrow> usize" where
  "sink_len s = (if sink_poisoned s then 0 else length (sink_events s))"

definition sink_is_empty :: "in_memory_audit_sink \<Rightarrow> bool" where
  "sink_is_empty s \<longleftrightarrow> sink_len s = 0"

text \<open>
  \<open>record\<close>: a full buffer drops its first event with \<open>Vec::remove(0)\<close>, which panics on an empty
  vector; the panic unwinds with the guard held.
\<close>

definition in_memory_record ::
    "in_memory_audit_sink \<Rightarrow> audit_event \<Rightarrow> in_memory_audit_sink \<times> sink_result" where
  "in_memory_record s e =
     (if sink_poisoned s then (s, Inl (Error (AuditSinkError ''audit mutex poisoned'')))
      else if sink_capacity s \<le> length (sink_events s) then
        (case sink_events s of
           [] \<Rightarrow> (s\<lparr>sink_poisoned := True\<rparr>,
             Inl (Panicked (PanicString ''removal index (is 0) should be < len (is 0)'')))
         | _ # rest \<Rightarrow> (s\<lparr>sink_events := rest @ [e]\<rparr>, Inr ()))
      else (s\<lparr>sink_events := sink_events s @ [e]\<rparr>, Inr ()))"

text \<open>
  \<open>FanoutAuditSink\<close> over children of one state type: each child in order, stopping at the first
  failure.
\<close>

fun fanout_record ::
    "('s \<Rightarrow> audit_event \<Rightarrow> 's \<times> sink_result) \<Rightarrow> 's list \<Rightarrow> audit_event \<Rightarrow> 's list \<times> sink_result" where
  "fanout_record rec [] e = ([], Inr ())"
| "fanout_record rec (c # cs) e =
     (case rec c e of
        (c', Inl f) \<Rightarrow> (c' # cs, Inl f)
      | (c', Inr _) \<Rightarrow> (case fanout_record rec cs e of (cs', r) \<Rightarrow> (c' # cs', r)))"

text \<open>A sequence of records, stopping at the first failure.\<close>

fun record_all ::
    "('s \<Rightarrow> audit_event \<Rightarrow> 's \<times> sink_result) \<Rightarrow> 's \<Rightarrow> audit_event list \<Rightarrow> 's \<times> sink_result" where
  "record_all rec s [] = (s, Inr ())"
| "record_all rec s (e # es) = try_bind (rec s e) (\<lambda>s' _. record_all rec s' es)"

section \<open>The contract of a sink\<close>

text \<open>
  \<open>retained\<close> is what a reader of the sink can see and \<open>inv\<close> the invariant of its state.  A sink
  never invents or reorders events: after an accepted record it shows a suffix of what it showed
  before followed by the new event.
\<close>

locale audit_sink =
  fixes rec :: "'s \<Rightarrow> audit_event \<Rightarrow> 's \<times> sink_result"
    and retained :: "'s \<Rightarrow> audit_event list"
    and inv :: "'s \<Rightarrow> bool"
  assumes record_inv: "inv s \<Longrightarrow> rec s e = (s', Inr ()) \<Longrightarrow> inv s'"
    and record_suffix:
      "inv s \<Longrightarrow> rec s e = (s', Inr ()) \<Longrightarrow> suffix (retained s') (retained s @ [e])"
begin

lemma record_all_inv: "record_all rec s es = (s', Inr ()) \<Longrightarrow> inv s \<Longrightarrow> inv s'"
proof (induction es arbitrary: s)
  case (Cons e es)
  then show ?case by (auto elim!: try_bind_InrE) (blast intro: record_inv)
qed simp

lemma record_all_suffix:
  "record_all rec s es = (s', Inr ()) \<Longrightarrow> inv s \<Longrightarrow> suffix (retained s') (retained s @ es)"
proof (induction es arbitrary: s)
  case Nil
  then show ?case by simp
next
  case (Cons e es)
  then obtain s1 where s1: "rec s e = (s1, Inr ())" "record_all rec s1 es = (s', Inr ())"
    by (auto elim: try_bind_InrE)
  have "suffix (retained s') (retained s1 @ es)"
    using Cons.IH [OF s1(2)] record_inv [OF Cons.prems(2) s1(1)] .
  moreover have "suffix (retained s1 @ es) ((retained s @ [e]) @ es)"
    using record_suffix [OF Cons.prems(2) s1(1)] by (auto simp: suffix_def)
  ultimately show ?case
    using suffix_order.trans by fastforce
qed

end

text \<open>A lossless sink shows everything it accepted.\<close>

locale lossless_audit_sink =
  fixes rec :: "'s \<Rightarrow> audit_event \<Rightarrow> 's \<times> sink_result"
    and retained :: "'s \<Rightarrow> audit_event list"
    and inv :: "'s \<Rightarrow> bool"
  assumes record_keeps_inv: "inv s \<Longrightarrow> rec s e = (s', Inr ()) \<Longrightarrow> inv s'"
    and record_appends: "inv s \<Longrightarrow> rec s e = (s', Inr ()) \<Longrightarrow> retained s' = retained s @ [e]"
begin

lemma record_all_appends:
  "record_all rec s es = (s', Inr ()) \<Longrightarrow> inv s \<Longrightarrow> retained s' = retained s @ es"
proof (induction es arbitrary: s)
  case (Cons e es)
  then obtain s1 where s1: "rec s e = (s1, Inr ())" "record_all rec s1 es = (s', Inr ())"
    by (auto elim: try_bind_InrE)
  then show ?case
    using Cons.IH [OF s1(2)] record_keeps_inv [OF Cons.prems(2) s1(1)]
      record_appends [OF Cons.prems(2) s1(1)] by simp
qed simp

end

sublocale lossless_audit_sink \<subseteq> audit_sink
  by unfold_locales (auto intro: record_keeps_inv simp: record_appends)

interpretation noop_sink: audit_sink noop_record "\<lambda>_. []" "\<lambda>_. True"
  by unfold_locales simp_all

interpretation memory_sink: audit_sink in_memory_record snapshot "\<lambda>_. True"
proof
  fix s s' e
  assume "in_memory_record s e = (s', Inr ())"
  then show "suffix (snapshot s') (snapshot s @ [e])"
    by (auto simp: in_memory_record_def snapshot_def suffix_def split: if_splits list.splits)
qed

lemma fanout_record_Inr:
  "fanout_record rec cs e = (cs', Inr ()) \<longleftrightarrow> list_all2 (\<lambda>c c'. rec c e = (c', Inr ())) cs cs'"
proof (induction cs arbitrary: cs')
  case Nil
  then show ?case by auto
next
  case (Cons c cs)
  obtain c1 r1 where c1: "rec c e = (c1, r1)" by fastforce
  obtain cs1 r where cs1: "fanout_record rec cs e = (cs1, r)" by fastforce
  show ?case
    using Cons.IH [of "tl cs'"] c1 cs1
    by (cases r1; cases cs') (auto simp: list_all2_Cons1)
qed

text \<open>A fan-out shows what one of its children shows, so it keeps the contract of the children.\<close>

context audit_sink
begin

lemma fanout_child_suffix:
  assumes "fanout_record rec cs e = (cs', Inr ())" and "i < length cs" and "inv (cs ! i)"
  shows "suffix (retained (cs' ! i)) (retained (cs ! i) @ [e])"
proof -
  have "rec (cs ! i) e = (cs' ! i, Inr ())"
    using assms by (auto simp: fanout_record_Inr dest: list_all2_nthD)
  with assms(3) show ?thesis
    by (rule record_suffix)
qed

end

section \<open>Properties\<close>

definition sink_ok :: "in_memory_audit_sink \<Rightarrow> bool" where
  "sink_ok s \<longleftrightarrow> \<not> sink_poisoned s \<and> 0 < sink_capacity s \<and> length (sink_events s) \<le> sink_capacity s"

lemma in_memory_record_ok:
  assumes "sink_ok s"
  shows "\<exists>s'. in_memory_record s e = (s', Inr ()) \<and> sink_ok s' \<and> sink_capacity s' = sink_capacity s
    \<and> sink_events s' = drop (Suc (length (sink_events s)) - sink_capacity s) (sink_events s @ [e])"
  using assms
  by (cases "sink_events s") (auto simp: sink_ok_def in_memory_record_def Suc_diff_le)

lemma record_all_ring:
  "sink_ok s \<Longrightarrow> \<exists>s'. record_all in_memory_record s es = (s', Inr ()) \<and> sink_ok s'
    \<and> sink_events s' = drop (length (sink_events s) + length es - sink_capacity s) (sink_events s @ es)"
proof (induction es arbitrary: s)
  case Nil
  then show ?case by (simp add: sink_ok_def)
next
  case (Cons e es)
  let ?k = "Suc (length (sink_events s)) - sink_capacity s"
  obtain s1 where s1: "in_memory_record s e = (s1, Inr ())" "sink_ok s1"
      "sink_capacity s1 = sink_capacity s" "sink_events s1 = drop ?k (sink_events s @ [e])"
    using in_memory_record_ok [OF Cons.prems] by blast
  obtain s' where s': "record_all in_memory_record s1 es = (s', Inr ())" "sink_ok s'"
      "sink_events s' = drop (length (sink_events s1) + length es - sink_capacity s1) (sink_events s1 @ es)"
    using Cons.IH [OF s1(2)] by blast
  have "?k \<le> length (sink_events s @ [e])"
    by simp
  then have "drop ?k (sink_events s @ [e]) @ es = drop ?k ((sink_events s @ [e]) @ es)"
    by (simp only: drop_append diff_is_0_eq [THEN iffD2] drop_0)
  then have "drop ?k (sink_events s @ [e]) @ es = drop ?k (sink_events s @ e # es)"
    by (simp only: append.assoc append.simps)
  moreover have "length (sink_events s1) + length es - sink_capacity s1 + ?k
      = length (sink_events s) + length (e # es) - sink_capacity s"
    using Cons.prems s1(3,4) by (auto simp: sink_ok_def)
  moreover have "sink_events s' = drop (length (sink_events s1) + length es - sink_capacity s1)
      (drop ?k (sink_events s @ [e]) @ es)"
    using s'(3) unfolding s1(4) .
  ultimately have "sink_events s' =
      drop (length (sink_events s) + length (e # es) - sink_capacity s) (sink_events s @ e # es)"
    by (simp only: drop_drop)
  with s1(1) s'(1,2) show ?case by auto
qed

text \<open>
  The in-memory sink is a ring buffer.  A fresh sink of positive capacity accepts every event,
  and after any sequence of them its snapshot is exactly the most recent ones, as many as the
  capacity allows, in order.
\<close>

theorem in_memory_sink_keeps_latest:
  assumes "0 < c"
  shows "\<exists>s. record_all in_memory_record (with_capacity c) es = (s, Inr ())
     \<and> snapshot s = drop (length es - c) es"
proof -
  have "sink_ok (with_capacity c)"
    using assms by (simp add: sink_ok_def with_capacity_def)
  from record_all_ring [OF this, of es] show ?thesis
    by (auto simp: with_capacity_def snapshot_def sink_ok_def)
qed

definition sample_event :: "nat \<Rightarrow> audit_event" where
  "sample_event n = \<lparr>event_id = ''evt-'' @ show_nat n, timestamp_epoch_s = of_nat n,
     event_agent_id = Some ''agent'', event_kind = TokenRevoked ''tok''\<rparr>"

theorem in_memory_sink_keeps_latest_witness:
  "\<exists>s. record_all in_memory_record (with_capacity 2) (map sample_event [1, 2, 3]) = (s, Inr ())
     \<and> snapshot s = map sample_event [2, 3]"
  using in_memory_sink_keeps_latest [of 2 "map sample_event [1, 2, 3]"]
  by (simp add: numeral_eq_Suc)

text \<open>
  A sink built with capacity zero cannot record.  Its first record panics on the removal from
  the empty buffer, the panic poisons the lock, and from then on every record is refused and every
  snapshot is empty.
\<close>

theorem zero_capacity_sink_panics:
  "in_memory_record (with_capacity 0) e =
     ((with_capacity 0)\<lparr>sink_poisoned := True\<rparr>,
      Inl (Panicked (PanicString ''removal index (is 0) should be < len (is 0)'')))
   \<and> in_memory_record ((with_capacity 0)\<lparr>sink_poisoned := True\<rparr>) e' =
       ((with_capacity 0)\<lparr>sink_poisoned := True\<rparr>,
        Inl (Error (AuditSinkError ''audit mutex poisoned'')))
   \<and> snapshot ((with_capacity 0)\<lparr>sink_poisoned := True\<rparr>) = []"
  by (simp add: in_memory_record_def with_capacity_def snapshot_def)

lemma filter_matches_iff:
  "filter_matches f e \<longleftrightarrow>
     (since_epoch_s f = None \<or> the (since_epoch_s f) \<le> timestamp_epoch_s e)
       \<and> (until_epoch_s f = None \<or> timestamp_epoch_s e \<le> the (until_epoch_s f))
       \<and> (filter_agent_id f = None \<or> event_agent_id e = filter_agent_id f)
       \<and> (filter_kinds f = None \<or> the (filter_kinds f) = []
           \<or> event_kind_name (event_kind e) \<in> set (the (filter_kinds f)))"
  by (cases "since_epoch_s f"; cases "until_epoch_s f"; cases "filter_agent_id f";
      cases "filter_kinds f")
    (simp_all add: filter_matches_def linorder_not_less [symmetric])

text \<open>
  A filter is the conjunction of its fields.  A filtered snapshot is the snapshot restricted
  to the events inside the time window, of the agent and of the kinds that the filter names, where
  an absent field and an empty list of kinds do not restrict.
\<close>

theorem snapshot_filtered_is_conjunction:
  "snapshot_filtered s f =
     filter (\<lambda>e. (since_epoch_s f = None \<or> the (since_epoch_s f) \<le> timestamp_epoch_s e)
       \<and> (until_epoch_s f = None \<or> timestamp_epoch_s e \<le> the (until_epoch_s f))
       \<and> (filter_agent_id f = None \<or> event_agent_id e = filter_agent_id f)
       \<and> (filter_kinds f = None \<or> the (filter_kinds f) = []
           \<or> event_kind_name (event_kind e) \<in> set (the (filter_kinds f)))) (snapshot s)"
  by (simp add: snapshot_filtered_def snapshot_def filter_matches_iff cong: filter_cong)

lemma fanout_record_Inl_split:
  "fanout_record rec cs e = (cs', Inl f) \<Longrightarrow>
     \<exists>before c after before' c'. cs = before @ c # after \<and> cs' = before' @ c' # after
        \<and> list_all2 (\<lambda>d d'. rec d e = (d', Inr ())) before before' \<and> rec c e = (c', Inl f)"
proof (induction cs arbitrary: cs')
  case Nil
  then show ?case by simp
next
  case (Cons d ds)
  obtain d' r where d': "rec d e = (d', r)" by fastforce
  obtain ds' r' where ds': "fanout_record rec ds e = (ds', r')" by fastforce
  show ?case
  proof (cases r)
    case (Inl g)
    then have "d # ds = [] @ d # ds \<and> cs' = [] @ d' # ds \<and> rec d e = (d', Inl f)"
      using Cons.prems d' by simp
    then show ?thesis by blast
  next
    case (Inr u)
    then have "cs' = d' # ds'" "fanout_record rec ds e = (ds', Inl f)"
      using Cons.prems d' ds' by simp_all
    then obtain before c after before' c' where
      "ds = before @ c # after" "ds' = before' @ c' # after" "rec c e = (c', Inl f)"
      "list_all2 (\<lambda>d d'. rec d e = (d', Inr ())) before before'"
      using Cons.IH by blast
    with Inr d' \<open>cs' = d' # ds'\<close>
    have "d # ds = (d # before) @ c # after \<and> cs' = (d' # before') @ c' # after
        \<and> list_all2 (\<lambda>d d'. rec d e = (d', Inr ())) (d # before) (d' # before')
        \<and> rec c e = (c', Inl f)" by simp
    then show ?thesis by blast
  qed
qed

lemma fanout_record_Inl_join:
  "list_all2 (\<lambda>d d'. rec d e = (d', Inr ())) before before' \<Longrightarrow> rec c e = (c', Inl f) \<Longrightarrow>
     fanout_record rec (before @ c # after) e = (before' @ c' # after, Inl f)"
  by (induction rule: list_all2_induct) simp_all

text \<open>
  A fan-out stops at the first failing child.  It fails with the failure of one child; every
  child before it has recorded the event, and every child after it is untouched.
\<close>

theorem fanout_stops_at_first_failure:
  "fanout_record rec cs e = (cs', Inl f) \<longleftrightarrow>
     (\<exists>before c after before' c'. cs = before @ c # after \<and> cs' = before' @ c' # after
        \<and> list_all2 (\<lambda>d d'. rec d e = (d', Inr ())) before before'
        \<and> rec c e = (c', Inl f))"
  by (blast dest: fanout_record_Inl_split intro: fanout_record_Inl_join)

end
