(* ===== verification/Audit_Journal.thy ===== *)
theory Audit_Journal
  imports Audit_Sink Rust_Strings
begin

text \<open>
  The hash-chained audit journal of \<open>crates/kernel/src/audit.rs\<close>: \<open>JsonlAuditSink\<close>, the verifier
  \<open>verify_jsonl_audit_journal\<close> and the repair \<open>repair_jsonl_audit_journal\<close>.  The journal file is a
  string of bytes.  What the code takes from \<open>serde_json\<close> and \<open>sha2\<close> is the record
  \<open>journal_codec\<close>; \<open>codec_laws\<close> states what is relied on.  The outcomes of the calls to the operating
  system are arguments, so that every failing call is a branch.
\<close>

section \<open>Data\<close>

record persisted_audit_integrity =
  integrity_algorithm :: string
  integrity_prev_hash :: "string option"
  integrity_entry_hash :: string

record persisted_audit_event =
  persisted_event :: audit_event
  persisted_integrity :: "persisted_audit_integrity option"

record audit_verification_report =
  total_events :: usize
  verified_events :: usize
  report_valid :: bool
  report_last_entry_hash :: "string option"
  first_invalid_line :: "usize option"
  report_reason :: "string option"

text \<open>
  \<open>serde_json::to_vec\<close> of the chain material and of a persisted event, \<open>serde_json::from_str\<close>, and
  the hexadecimal SHA-256 digest.
\<close>

record journal_codec =
  material_to_vec :: "audit_event \<Rightarrow> string option \<Rightarrow> string + string"
  sha256_hex :: "string \<Rightarrow> string"
  persisted_to_vec :: "persisted_audit_event \<Rightarrow> string + string"
  persisted_from_str :: "string \<Rightarrow> string + persisted_audit_event"

section \<open>Files\<close>

abbreviation newline :: char where
  "newline \<equiv> CHR 10"

text \<open>
  \<open>BufRead::lines\<close>: the segments between newlines, each without a trailing carriage return; what
  follows the last newline is a line of its own unless it is empty.
\<close>

definition strip_cr :: "string \<Rightarrow> string" where
  "strip_cr l = (case strip_suffix [CHR 13] l of Some l' \<Rightarrow> l' | None \<Rightarrow> l)"

definition file_lines :: "string \<Rightarrow> string list" where
  "file_lines s = (let segs = split_on newline s in
     map strip_cr (butlast segs) @ (if last segs = [] then [] else [last segs]))"

text \<open>What opening a journal and reading it line by line may give.\<close>

datatype journal_source =
    NoJournal
  | OpenFails string
  | Readable "(string + string) list"

definition on_disk :: "string \<Rightarrow> journal_source" where
  "on_disk content = Readable (map Inr (file_lines content))"

section \<open>Operations\<close>

definition prepare_audit_journal_parent ::
    "string option \<Rightarrow> string option \<Rightarrow> audit_error + unit" where
  "prepare_audit_journal_parent parent mkdir_error =
     (case parent of
        Some p \<Rightarrow>
          (if p \<noteq> [] then
             (case mkdir_error of
                Some e \<Rightarrow> Inl (AuditSinkError
                  (''failed to prepare audit journal parent directory `'' @ p @ ''`: '' @ e))
              | None \<Rightarrow> Inr ())
           else Inr ())
      | None \<Rightarrow> Inr ())"

record journal_open_io =
  open_parent :: "string option"
  open_mkdir_error :: "string option"
  open_error :: "string option"

definition open_jsonl_audit_journal :: "string \<Rightarrow> journal_open_io \<Rightarrow> audit_error + unit" where
  "open_jsonl_audit_journal path io =
     and_then (prepare_audit_journal_parent (open_parent io) (open_mkdir_error io)) (\<lambda>_.
       case open_error io of
         Some e \<Rightarrow> Inl (AuditSinkError (''failed to open audit journal `'' @ path @ ''`: '' @ e))
       | None \<Rightarrow> Inr ())"

definition lock_audit_journal :: "string option \<Rightarrow> string \<Rightarrow> audit_error + unit" where
  "lock_audit_journal err path =
     (case err of
        Some e \<Rightarrow> Inl (AuditSinkError (''failed to lock audit journal `'' @ path @ ''`: '' @ e))
      | None \<Rightarrow> Inr ())"

definition unlock_audit_journal :: "string option \<Rightarrow> string \<Rightarrow> audit_error + unit" where
  "unlock_audit_journal err path =
     (case err of
        Some e \<Rightarrow> Inl (AuditSinkError (''failed to unlock audit journal `'' @ path @ ''`: '' @ e))
      | None \<Rightarrow> Inr ())"

definition probe_jsonl_audit_journal_runtime_ready ::
    "string \<Rightarrow> journal_open_io \<Rightarrow> string option \<Rightarrow> string option \<Rightarrow> audit_error + unit" where
  "probe_jsonl_audit_journal_runtime_ready path io lock_error unlock_error =
     and_then (open_jsonl_audit_journal path io) (\<lambda>_.
     and_then (lock_audit_journal lock_error path) (\<lambda>_.
       unlock_audit_journal unlock_error path))"

definition serialize_audit_event_chain_material ::
    "journal_codec \<Rightarrow> string \<Rightarrow> audit_event \<Rightarrow> string option \<Rightarrow> audit_error + string" where
  "serialize_audit_event_chain_material cdc path event prev =
     map_err (\<lambda>e. AuditSinkError
         (''failed to serialize audit chain material for `'' @ path @ ''`: '' @ e))
       (material_to_vec cdc event prev)"

definition compute_audit_event_entry_hash ::
    "journal_codec \<Rightarrow> string \<Rightarrow> audit_event \<Rightarrow> string option \<Rightarrow> audit_error + string" where
  "compute_audit_event_entry_hash cdc path event prev =
     and_then (serialize_audit_event_chain_material cdc path event prev) (\<lambda>material.
       Inr (sha256_hex cdc material))"

definition event_with_integrity ::
    "audit_event \<Rightarrow> string option \<Rightarrow> string \<Rightarrow> persisted_audit_event" where
  "event_with_integrity event prev entry_hash =
     \<lparr>persisted_event = event,
      persisted_integrity = Some \<lparr>integrity_algorithm = ''sha256'', integrity_prev_hash = prev,
        integrity_entry_hash = entry_hash\<rparr>\<rparr>"

definition decode_persisted_audit_event_line ::
    "journal_codec \<Rightarrow> string \<Rightarrow> string \<Rightarrow> string \<Rightarrow> audit_error + persisted_audit_event" where
  "decode_persisted_audit_event_line cdc path label line =
     map_err (\<lambda>e. AuditSinkError
         (''failed to decode audit journal `'' @ path @ ''` at '' @ label @ '': '' @ e))
       (persisted_from_str cdc line)"

definition serialize_audit_event_line ::
    "journal_codec \<Rightarrow> string \<Rightarrow> persisted_audit_event \<Rightarrow> audit_error + string" where
  "serialize_audit_event_line cdc path p =
     and_then (map_err (\<lambda>e. AuditSinkError
         (''failed to serialize audit event for `'' @ path @ ''`: '' @ e))
       (persisted_to_vec cdc p)) (\<lambda>encoded. Inr (encoded @ [newline]))"

subsection \<open>The tail hash\<close>

fun last_non_empty_line ::
    "string \<Rightarrow> (string + string) list \<Rightarrow> string option \<Rightarrow> audit_error + string option" where
  "last_non_empty_line path [] acc = Inr acc"
| "last_non_empty_line path (lr # lrs) acc =
     (case lr of
        Inl e \<Rightarrow> Inl (AuditSinkError (''failed to read audit journal `'' @ path
          @ ''` while loading tail hash: '' @ e))
      | Inr line \<Rightarrow> last_non_empty_line path lrs (if trim line \<noteq> [] then Some line else acc))"

definition load_last_audit_entry_hash ::
    "journal_codec \<Rightarrow> string \<Rightarrow> journal_source \<Rightarrow> audit_error + string option" where
  "load_last_audit_entry_hash cdc path src =
     (case src of
        NoJournal \<Rightarrow> Inr None
      | OpenFails e \<Rightarrow>
          Inl (AuditSinkError (''failed to inspect audit journal `'' @ path @ ''`: '' @ e))
      | Readable lines \<Rightarrow>
          and_then (last_non_empty_line path lines None) (\<lambda>last_line.
            case last_line of
              None \<Rightarrow> Inr None
            | Some line \<Rightarrow>
                and_then (decode_persisted_audit_event_line cdc path ''tail line'' line) (\<lambda>p.
                  Inr (case persisted_integrity p of
                         None \<Rightarrow> None
                       | Some i \<Rightarrow> if trim (integrity_entry_hash i) = [] then None
                                  else Some (integrity_entry_hash i)))))"

subsection \<open>Verification\<close>

text \<open>
  The loop of \<open>verify_jsonl_audit_journal\<close>; the arguments after the lines are the line number and
  the four local variables.
\<close>

definition invalid_report ::
    "usize \<Rightarrow> usize \<Rightarrow> string option \<Rightarrow> usize \<Rightarrow> string \<Rightarrow> audit_verification_report" where
  "invalid_report total_n verified prev line_number reason =
     \<lparr>total_events = total_n, verified_events = verified, report_valid = False,
      report_last_entry_hash = prev, first_invalid_line = Some line_number,
      report_reason = Some reason\<rparr>"

definition valid_report :: "usize \<Rightarrow> usize \<Rightarrow> string option \<Rightarrow> audit_verification_report" where
  "valid_report total_n verified prev =
     \<lparr>total_events = total_n, verified_events = verified, report_valid = True,
      report_last_entry_hash = prev, first_invalid_line = None, report_reason = None\<rparr>"

fun verify_lines ::
    "journal_codec \<Rightarrow> string \<Rightarrow> (string + string) list \<Rightarrow> usize \<Rightarrow> usize \<Rightarrow> usize \<Rightarrow> string option
       \<Rightarrow> bool \<Rightarrow> audit_error + audit_verification_report" where
  "verify_lines cdc path [] n total_n verified prev started = Inr (valid_report total_n verified prev)"
| "verify_lines cdc path (lr # lrs) n total_n verified prev started =
     (case lr of
        Inl e \<Rightarrow> Inl (AuditSinkError (''failed to read audit journal `'' @ path @ ''` at line ''
          @ show_nat n @ '': '' @ e))
      | Inr line \<Rightarrow>
          if trim line = [] then verify_lines cdc path lrs (n + 1) total_n verified prev started
          else
            and_then (decode_persisted_audit_event_line cdc path (''line '' @ show_nat n) line) (\<lambda>p.
              case persisted_integrity p of
                None \<Rightarrow>
                  if started then Inr (invalid_report (total_n + 1) verified prev n
                    ''missing integrity envelope'')
                  else verify_lines cdc path lrs (n + 1) (total_n + 1) verified prev started
              | Some i \<Rightarrow>
                  if trim (integrity_algorithm i) \<noteq> ''sha256'' then
                    Inr (invalid_report (total_n + 1) verified prev n
                      (''unsupported integrity algorithm `'' @ integrity_algorithm i @ ''`''))
                  else if integrity_prev_hash i \<noteq> prev then
                    Inr (invalid_report (total_n + 1) verified prev n ''prev_hash mismatch'')
                  else
                    and_then (compute_audit_event_entry_hash cdc path (persisted_event p)
                        (integrity_prev_hash i)) (\<lambda>expected.
                      if integrity_entry_hash i \<noteq> expected then
                        Inr (invalid_report (total_n + 1) verified prev n ''entry_hash mismatch'')
                      else verify_lines cdc path lrs (n + 1) (total_n + 1) (verified + 1)
                        (Some (integrity_entry_hash i)) True)))"

definition verify_jsonl_audit_journal ::
    "journal_codec \<Rightarrow> string \<Rightarrow> journal_source \<Rightarrow> audit_error + audit_verification_report" where
  "verify_jsonl_audit_journal cdc path src =
     (case src of
        NoJournal \<Rightarrow> Inr (valid_report 0 0 None)
      | OpenFails e \<Rightarrow> Inl (AuditSinkError
          (''failed to open audit journal `'' @ path @ ''` for verification: '' @ e))
      | Readable lines \<Rightarrow> verify_lines cdc path lines 1 0 0 None False)"

subsection \<open>Repair\<close>

datatype audit_repair_outcome = Healthy | Repaired | Refused usize string

record audit_repair_report =
  repair_total_events :: usize
  repaired_events :: usize
  already_valid_events :: usize
  repair_outcome :: audit_repair_outcome

text \<open>The local variables of the loop.\<close>

record repair_state =
  repaired_lines :: "string list"
  rebuilt_previous_hash :: "string option"
  source_previous_hash :: "string option"
  protected_chain_started :: bool
  rs_total :: usize
  rs_repaired :: usize
  rs_already_valid :: usize

definition repair_init :: repair_state where
  "repair_init = \<lparr>repaired_lines = [], rebuilt_previous_hash = None, source_previous_hash = None,
     protected_chain_started = False, rs_total = 0, rs_repaired = 0, rs_already_valid = 0\<rparr>"

definition repair_report :: "repair_state \<Rightarrow> audit_repair_outcome \<Rightarrow> audit_repair_report" where
  "repair_report st outcome =
     \<lparr>repair_total_events = rs_total st, repaired_events = rs_repaired st,
      already_valid_events = rs_already_valid st, repair_outcome = outcome\<rparr>"

text \<open>Sealing an event at the rebuilt end of the chain, as both branches of the loop do it.\<close>

definition reseal ::
    "journal_codec \<Rightarrow> string \<Rightarrow> repair_state \<Rightarrow> audit_event \<Rightarrow> audit_error + repair_state" where
  "reseal cdc path st event =
     and_then (compute_audit_event_entry_hash cdc path event (rebuilt_previous_hash st)) (\<lambda>h.
     and_then (serialize_audit_event_line cdc path
         (event_with_integrity event (rebuilt_previous_hash st) h)) (\<lambda>encoded.
       Inr (st\<lparr>repaired_lines := repaired_lines st @ [encoded],
               rebuilt_previous_hash := Some h, rs_repaired := rs_repaired st + 1\<rparr>)))"

text \<open>
  One event of the loop: either the updated variables, or the early \<open>return\<close> of a refusal.
\<close>

definition repair_event ::
    "journal_codec \<Rightarrow> string \<Rightarrow> repair_state \<Rightarrow> usize \<Rightarrow> string \<Rightarrow> persisted_audit_event
       \<Rightarrow> audit_error + (audit_repair_report + repair_state)" where
  "repair_event cdc path st n line p =
     (case persisted_integrity p of
        Some i \<Rightarrow>
          if trim (integrity_algorithm i) \<noteq> ''sha256'' then
            Inr (Inl (repair_report st (Refused n
              (''unsupported integrity algorithm `'' @ integrity_algorithm i @ ''`''))))
          else if integrity_prev_hash i \<noteq> source_previous_hash st then
            Inr (Inl (repair_report st (Refused n ''prev_hash mismatch in source chain'')))
          else
            and_then (compute_audit_event_entry_hash cdc path (persisted_event p)
                (integrity_prev_hash i)) (\<lambda>h.
              if integrity_entry_hash i \<noteq> h then
                Inr (Inl (repair_report st (Refused n (''entry_hash mismatch ''
                  @ [CHR 0xE2, CHR 0x80, CHR 0x94] @ '' event data may be tampered''))))
              else
                let st' = st\<lparr>protected_chain_started := True,
                             source_previous_hash := Some (integrity_entry_hash i)\<rparr> in
                if rs_repaired st' = 0 \<and> integrity_prev_hash i = rebuilt_previous_hash st' then
                  Inr (Inr (st'\<lparr>rebuilt_previous_hash := Some (integrity_entry_hash i),
                                rs_already_valid := rs_already_valid st' + 1,
                                repaired_lines := repaired_lines st' @ [line @ [newline]]\<rparr>))
                else and_then (reseal cdc path st' (persisted_event p)) (\<lambda>st''. Inr (Inr st'')))
      | None \<Rightarrow>
          if protected_chain_started st then
            Inr (Inl (repair_report st
              (Refused n ''missing integrity envelope after protected chain started'')))
          else and_then (reseal cdc path st (persisted_event p)) (\<lambda>st'. Inr (Inr st')))"

fun repair_loop ::
    "journal_codec \<Rightarrow> string \<Rightarrow> (string + string) list \<Rightarrow> usize \<Rightarrow> repair_state
       \<Rightarrow> audit_error + (audit_repair_report + repair_state)" where
  "repair_loop cdc path [] n st = Inr (Inr st)"
| "repair_loop cdc path (lr # lrs) n st =
     (case lr of
        Inl e \<Rightarrow> Inl (AuditSinkError (''failed to read audit journal `'' @ path @ ''` at line ''
          @ show_nat n @ '': '' @ e))
      | Inr line \<Rightarrow>
          if trim line = [] then
            repair_loop cdc path lrs (n + 1)
              (st\<lparr>repaired_lines := repaired_lines st @ [[newline]]\<rparr>)
          else
            and_then (decode_persisted_audit_event_line cdc path (''line '' @ show_nat n) line) (\<lambda>p.
            and_then (repair_event cdc path (st\<lparr>rs_total := rs_total st + 1\<rparr>) n line p) (\<lambda>r.
              case r of
                Inl report \<Rightarrow> Inr (Inl report)
              | Inr st' \<Rightarrow> repair_loop cdc path lrs (n + 1) st')))"

text \<open>
  The calls that replace the journal, in order; \<open>None\<close> is success.  A failure removes the
  temporary file and leaves the journal as it was.
\<close>

record repair_io =
  metadata_error :: "string option"
  create_error :: "string option"
  permissions_error :: "string option"
  write_error :: "string option"
  flush_error :: "string option"
  sync_error :: "string option"
  rename_error :: "string option"

fun first_io_error :: "(string \<times> string option) list \<Rightarrow> audit_error + unit" where
  "first_io_error [] = Inr ()"
| "first_io_error ((prefix_text, err) # rest) =
     (case err of
        Some e \<Rightarrow> Inl (AuditSinkError (prefix_text @ ''`: '' @ e))
      | None \<Rightarrow> first_io_error rest)"

definition replace_journal :: "string \<Rightarrow> string \<Rightarrow> repair_io \<Rightarrow> audit_error + unit" where
  "replace_journal path temp_path io = first_io_error
     [(''failed to create repair temp file `'' @ temp_path, create_error io),
      (''failed to apply original permissions to repair temp file `'' @ temp_path,
        permissions_error io),
      (''failed to write repair temp file `'' @ temp_path, write_error io),
      (''failed to flush repair temp file `'' @ temp_path, flush_error io),
      (''failed to sync repair temp file `'' @ temp_path, sync_error io),
      (''failed to replace journal with repaired file `'' @ path, rename_error io)]"

text \<open>
  The result is the report and, when the journal was replaced, its new content.
\<close>

definition repair_jsonl_audit_journal ::
    "journal_codec \<Rightarrow> string \<Rightarrow> string \<Rightarrow> repair_io \<Rightarrow> journal_source
       \<Rightarrow> audit_error + (audit_repair_report \<times> string option)" where
  "repair_jsonl_audit_journal cdc path temp_path io src =
     (case src of
        NoJournal \<Rightarrow> Inr (repair_report repair_init Healthy, None)
      | OpenFails e \<Rightarrow> Inl (AuditSinkError
          (''failed to open audit journal `'' @ path @ ''` for repair: '' @ e))
      | Readable lines \<Rightarrow>
          (case metadata_error io of
             Some e \<Rightarrow> Inl (AuditSinkError
               (''failed to read audit journal metadata `'' @ path @ ''` before repair: '' @ e))
           | None \<Rightarrow>
               and_then (repair_loop cdc path lines 1 repair_init) (\<lambda>r.
                 case r of
                   Inl report \<Rightarrow> Inr (report, None)
                 | Inr st \<Rightarrow>
                     if rs_repaired st = 0 then Inr (repair_report st Healthy, None)
                     else and_then (replace_journal path temp_path io) (\<lambda>_.
                       Inr (repair_report st Repaired, Some (concat (repaired_lines st)))))))"

subsection \<open>The sink\<close>

record jsonl_audit_sink =
  sink_path :: string
  sink_last_entry_hash :: "string option"
  sink_journal_poisoned :: bool

definition jsonl_new ::
    "journal_codec \<Rightarrow> string \<Rightarrow> journal_open_io \<Rightarrow> journal_source \<Rightarrow> audit_error + jsonl_audit_sink" where
  "jsonl_new cdc path io src =
     and_then (open_jsonl_audit_journal path io) (\<lambda>_.
     and_then (load_last_audit_entry_hash cdc path src) (\<lambda>h.
       Inr \<lparr>sink_path = path, sink_last_entry_hash = h, sink_journal_poisoned = False\<rparr>))"

text \<open>The calls of one \<open>record\<close>: a write that fails may leave some of its bytes in the file.\<close>

datatype write_outcome = WriteOk | WriteFailed nat string

record record_io =
  record_lock_error :: "string option"
  record_write :: write_outcome
  record_flush_error :: "string option"
  record_unlock_error :: "string option"

definition healthy_io :: record_io where
  "healthy_io = \<lparr>record_lock_error = None, record_write = WriteOk, record_flush_error = None,
     record_unlock_error = None\<rparr>"

definition append_to_journal ::
    "record_io \<Rightarrow> string \<Rightarrow> string \<Rightarrow> string \<Rightarrow> string \<times> (audit_error + unit)" where
  "append_to_journal io path content encoded =
     (case record_write io of
        WriteFailed k e \<Rightarrow> (content @ take k encoded,
          Inl (AuditSinkError (''failed to append audit event to `'' @ path @ ''`: '' @ e)))
      | WriteOk \<Rightarrow> (content @ encoded,
          (case record_flush_error io of
             Some e \<Rightarrow> Inl (AuditSinkError (''failed to flush audit journal `'' @ path @ ''`: '' @ e))
           | None \<Rightarrow> Inr ())))"

definition jsonl_record ::
    "journal_codec \<Rightarrow> record_io \<Rightarrow> string \<times> jsonl_audit_sink \<Rightarrow> audit_event
       \<Rightarrow> (string \<times> jsonl_audit_sink) \<times> sink_result" where
  "jsonl_record cdc io s event =
     (case s of (content, sink) \<Rightarrow>
       if sink_journal_poisoned sink then
         (s, Inl (Error (AuditSinkError ''audit journal mutex poisoned'')))
       else
         let path = sink_path sink; prev = sink_last_entry_hash sink in
         (case compute_audit_event_entry_hash cdc path event prev of
            Inl e \<Rightarrow> (s, Inl (Error e))
          | Inr h \<Rightarrow>
              (case serialize_audit_event_line cdc path (event_with_integrity event prev h) of
                 Inl e \<Rightarrow> (s, Inl (Error e))
               | Inr encoded \<Rightarrow>
                   (case lock_audit_journal (record_lock_error io) path of
                      Inl e \<Rightarrow> (s, Inl (Error e))
                    | Inr _ \<Rightarrow>
                        (case append_to_journal io path content encoded of
                           (content', written) \<Rightarrow>
                             (case (written,
                                 unlock_audit_journal (record_unlock_error io) path) of
                                (Inl e, _) \<Rightarrow> ((content', sink), Inl (Error e))
                              | (Inr _, Inl e) \<Rightarrow> ((content', sink), Inl (Error e))
                              | (Inr _, Inr _) \<Rightarrow>
                                  ((content', sink\<lparr>sink_last_entry_hash := Some h\<rparr>), Inr ())))))))"

section \<open>What is relied on of the codec\<close>

text \<open>
  A serialised event is one line of JSON, an object without raw newlines, that parses back to the
  event; a digest is not blank.
\<close>

definition codec_laws :: "journal_codec \<Rightarrow> bool" where
  "codec_laws cdc \<longleftrightarrow>
     (\<forall>p l. persisted_to_vec cdc p = Inr l \<longrightarrow>
        persisted_from_str cdc l = Inr p \<and> newline \<notin> set l
        \<and> l \<noteq> [] \<and> \<not> is_ws (hd l) \<and> \<not> is_ws (last l))
     \<and> (\<forall>m. trim (sha256_hex cdc m) \<noteq> [])"

section \<open>Lines\<close>

text \<open>A journal is complete when its last line is terminated.\<close>

definition complete_journal :: "string \<Rightarrow> bool" where
  "complete_journal s \<longleftrightarrow> last (split_on newline s) = []"

lemma complete_Nil [simp]: "complete_journal []"
  by (simp add: complete_journal_def)

lemma complete_append_line [simp]: "complete_journal (s @ l @ [newline])"
  using split_on_append_sep [of newline "s @ l" "[]"] by (simp add: complete_journal_def)

lemma file_lines_Nil [simp]: "file_lines [] = []"
  by (simp add: file_lines_def)

lemma file_lines_append_line:
  assumes "complete_journal s" and "newline \<notin> set l"
  shows "file_lines (s @ l @ [newline]) = file_lines s @ [strip_cr l]"
  using assms split_on_append_sep [of newline "s @ l" "[]"]
  by (simp add: file_lines_def Let_def complete_journal_def split_on_append_plain butlast_append)

text \<open>The events of a list of lines: blank lines are skipped, every other line must decode.\<close>

fun decode_lines :: "journal_codec \<Rightarrow> string list \<Rightarrow> persisted_audit_event list option" where
  "decode_lines cdc [] = Some []"
| "decode_lines cdc (l # ls) =
     (if trim l = [] then decode_lines cdc ls
      else (case persisted_from_str cdc l of
              Inl _ \<Rightarrow> None
            | Inr p \<Rightarrow> map_option (\<lambda>ps. p # ps) (decode_lines cdc ls)))"

lemma decode_lines_append:
  "decode_lines cdc (xs @ ys) =
     (case decode_lines cdc xs of
        None \<Rightarrow> None
      | Some ps \<Rightarrow> map_option (\<lambda>qs. ps @ qs) (decode_lines cdc ys))"
proof (induction xs)
  case Nil
  then show ?case by (cases "decode_lines cdc ys") simp_all
next
  case (Cons x xs)
  then show ?case
    by (cases "decode_lines cdc ys"; cases "decode_lines cdc xs"; cases "persisted_from_str cdc x")
      simp_all
qed

definition journal_events :: "journal_codec \<Rightarrow> string \<Rightarrow> audit_event list" where
  "journal_events cdc content =
     (case decode_lines cdc (file_lines content) of
        None \<Rightarrow> []
      | Some ps \<Rightarrow> map persisted_event ps)"

section \<open>The chain that a verified journal carries\<close>

text \<open>
  \<open>sealed_chain cdc path prev ps q\<close>: every event of \<open>ps\<close> names the hash of its predecessor, the
  first one \<open>prev\<close>, and carries its own hash; \<open>q\<close> is the hash at the end.
\<close>

inductive sealed_chain ::
    "journal_codec \<Rightarrow> string \<Rightarrow> string option \<Rightarrow> persisted_audit_event list \<Rightarrow> string option \<Rightarrow> bool"
  for cdc path where
  sealed_Nil: "sealed_chain cdc path prev [] prev"
| sealed_Cons:
    "persisted_integrity p = Some i \<Longrightarrow> trim (integrity_algorithm i) = ''sha256'' \<Longrightarrow>
     integrity_prev_hash i = prev \<Longrightarrow>
     compute_audit_event_entry_hash cdc path (persisted_event p) prev
       = Inr (integrity_entry_hash i) \<Longrightarrow>
     sealed_chain cdc path (Some (integrity_entry_hash i)) ps q \<Longrightarrow>
     sealed_chain cdc path prev (p # ps) q"

inductive_simps sealed_chain_Nil [simp]: "sealed_chain cdc path prev [] q"
inductive_simps sealed_chain_Cons: "sealed_chain cdc path prev (p # ps) q"

definition legacy :: "persisted_audit_event \<Rightarrow> bool" where
  "legacy p \<longleftrightarrow> persisted_integrity p = None"

lemma sealed_chain_append:
  "sealed_chain cdc path prev (ps @ qs) q \<longleftrightarrow>
     (\<exists>m. sealed_chain cdc path prev ps m \<and> sealed_chain cdc path m qs q)"
  by (induction ps arbitrary: prev) (auto simp: sealed_chain_Cons)

lemma sealed_chain_not_legacy: "sealed_chain cdc path prev ps q \<Longrightarrow> p \<in> set ps \<Longrightarrow> \<not> legacy p"
  by (induction rule: sealed_chain.induct) (auto simp: legacy_def)

lemma event_with_integrity_simps [simp]:
  "persisted_event (event_with_integrity e prev h) = e" "\<not> legacy (event_with_integrity e prev h)"
  by (simp_all add: event_with_integrity_def legacy_def)

lemma sealed_event [simp]:
  "compute_audit_event_entry_hash cdc path e prev = Inr h \<Longrightarrow>
     sealed_chain cdc path prev [event_with_integrity e prev h] (Some h)"
  by (simp add: sealed_chain_Cons event_with_integrity_def) (simp add: trim_no_ws is_ws_def)

lemma report_simps [simp]:
  "report_valid (valid_report t v q)" "\<not> report_valid (invalid_report t v q n m)"
  "total_events (valid_report t v q) = t" "verified_events (valid_report t v q) = v"
  "report_last_entry_hash (valid_report t v q) = q"
  "total_events (invalid_report t v q n m) = t"
  "first_invalid_line (invalid_report t v q n m) = Some n"
  by (simp_all add: valid_report_def invalid_report_def)

lemma verify_sealed_line:
  assumes "trim l \<noteq> []" "persisted_from_str cdc l = Inr p" "persisted_integrity p = Some i"
  shows "verify_lines cdc path (Inr l # lrs) n t v prev started = Inr r \<and> report_valid r \<longleftrightarrow>
    trim (integrity_algorithm i) = ''sha256'' \<and> integrity_prev_hash i = prev
    \<and> compute_audit_event_entry_hash cdc path (persisted_event p) prev
        = Inr (integrity_entry_hash i)
    \<and> verify_lines cdc path lrs (n + 1) (t + 1) (v + 1) (Some (integrity_entry_hash i)) True = Inr r
    \<and> report_valid r"
  using assms
  by (cases "compute_audit_event_entry_hash cdc path (persisted_event p) prev")
    (auto simp: decode_persisted_audit_event_line_def)

lemma verify_legacy_line:
  assumes "trim l \<noteq> []" "persisted_from_str cdc l = Inr p" "persisted_integrity p = None"
  shows "verify_lines cdc path (Inr l # lrs) n t v prev started = Inr r \<and> report_valid r \<longleftrightarrow>
    \<not> started \<and> verify_lines cdc path lrs (n + 1) (t + 1) v prev False = Inr r \<and> report_valid r"
  using assms by (auto simp: decode_persisted_audit_event_line_def)

lemma verify_blank_line:
  "trim l = [] \<Longrightarrow> verify_lines cdc path (Inr l # lrs) n t v prev started
     = verify_lines cdc path lrs (n + 1) t v prev started"
  by simp

lemma verify_garbled_line:
  "trim l \<noteq> [] \<Longrightarrow> persisted_from_str cdc l = Inl e \<Longrightarrow>
     verify_lines cdc path (Inr l # lrs) n t v prev started \<noteq> Inr r"
  by (simp add: decode_persisted_audit_event_line_def)

declare verify_lines.simps(2) [simp del]

lemma journal_line_cases [case_names blank garbled old sealed]:
  obtains "trim l = []"
    | e where "trim l \<noteq> []" "persisted_from_str cdc l = Inl e"
    | p where "trim l \<noteq> []" "persisted_from_str cdc l = Inr p" "persisted_integrity p = None"
    | p i where "trim l \<noteq> []" "persisted_from_str cdc l = Inr p" "persisted_integrity p = Some i"
  by (cases "persisted_from_str cdc l"; cases "trim l = []"; force)

lemma verify_started:
  "verify_lines cdc path (map Inr ls) n t v prev True = Inr r \<and> report_valid r \<longleftrightarrow>
     (\<exists>ps q. decode_lines cdc ls = Some ps \<and> sealed_chain cdc path prev ps q
        \<and> r = valid_report (t + length ps) (v + length ps) q)"
proof (induction ls arbitrary: n t v prev)
  case Nil
  then show ?case by auto
next
  case (Cons l ls)
  show ?case
  proof (cases rule: journal_line_cases [where l = l and cdc = cdc])
    case blank
    then show ?thesis using Cons.IH by (simp add: verify_blank_line)
  next
    case garbled
    then show ?thesis by (simp add: verify_garbled_line)
  next
    case old
    then show ?thesis using verify_legacy_line [OF old] by (auto simp: sealed_chain_Cons)
  next
    case sealed
    then show ?thesis
      using verify_sealed_line [OF sealed] by (auto simp: Cons.IH sealed_chain_Cons)
  qed
qed

text \<open>The protected part of a journal starts at its first sealed event.\<close>

definition protected_part :: "persisted_audit_event list \<Rightarrow> persisted_audit_event list" where
  "protected_part ps = dropWhile legacy ps"

lemma verify_fresh:
  "verify_lines cdc path (map Inr ls) n t 0 None False = Inr r \<and> report_valid r \<longleftrightarrow>
     (\<exists>ps q. decode_lines cdc ls = Some ps \<and> sealed_chain cdc path None (protected_part ps) q
        \<and> r = valid_report (t + length ps) (length (protected_part ps)) q)"
proof (induction ls arbitrary: n t)
  case Nil
  then show ?case by (auto simp: protected_part_def)
next
  case (Cons l ls)
  show ?case
  proof (cases rule: journal_line_cases [where l = l and cdc = cdc])
    case blank
    then show ?thesis using Cons.IH by (simp add: verify_blank_line)
  next
    case garbled
    then show ?thesis by (simp add: verify_garbled_line)
  next
    case old
    then show ?thesis
      using verify_legacy_line [OF old] by (auto simp: Cons.IH protected_part_def legacy_def)
  next
    case sealed
    then show ?thesis
      using verify_sealed_line [OF sealed]
      by (auto simp: verify_started sealed_chain_Cons protected_part_def legacy_def)
  qed
qed

lemma verify_on_disk:
  "verify_jsonl_audit_journal cdc path (on_disk content) = Inr r \<and> report_valid r \<longleftrightarrow>
     (\<exists>ps q. decode_lines cdc (file_lines content) = Some ps
        \<and> sealed_chain cdc path None (protected_part ps) q
        \<and> r = valid_report (length ps) (length (protected_part ps)) q)"
  using verify_fresh [of cdc path "file_lines content" 1 0 r]
  by (simp add: verify_jsonl_audit_journal_def on_disk_def)

section \<open>Recording\<close>

definition in_sync :: "journal_codec \<Rightarrow> string \<times> jsonl_audit_sink \<Rightarrow> bool" where
  "in_sync cdc s \<longleftrightarrow> codec_laws cdc \<and> complete_journal (fst s)
     \<and> (\<exists>ps. decode_lines cdc (file_lines (fst s)) = Some ps
          \<and> sealed_chain cdc (sink_path (snd s)) None (protected_part ps)
              (sink_last_entry_hash (snd s)))"

lemma codec_line:
  assumes "codec_laws cdc" and "persisted_to_vec cdc p = Inr l"
  shows "persisted_from_str cdc l = Inr p" "newline \<notin> set l" "trim l \<noteq> []" "strip_cr l = l"
proof -
  have l: "persisted_from_str cdc l = Inr p" "newline \<notin> set l" "l \<noteq> []" "\<not> is_ws (hd l)"
      "\<not> is_ws (last l)"
    using assms unfolding codec_laws_def by blast+
  then show "persisted_from_str cdc l = Inr p" "newline \<notin> set l"
    by simp_all
  show "trim l \<noteq> []"
    using l(3,4) by (auto simp: trim_Nil_iff)
  have "last l \<noteq> CHR 13"
    using l(5) by (auto simp: is_ws_def)
  with l(3) show "strip_cr l = l"
    by (auto simp: strip_cr_def strip_suffix_def suffix_def)
qed

lemma protected_part_snoc:
  assumes "\<not> legacy p"
  shows "protected_part (ps @ [p]) = protected_part ps @ [p]"
  using assms by (induction ps) (auto simp: protected_part_def)

lemma jsonl_record_Inr:
  assumes "jsonl_record cdc io (content, sink) e = ((content', sink'), Inr ())"
  obtains h l where
    "compute_audit_event_entry_hash cdc (sink_path sink) e (sink_last_entry_hash sink) = Inr h"
    "persisted_to_vec cdc (event_with_integrity e (sink_last_entry_hash sink) h) = Inr l"
    "content' = content @ l @ [newline]" "sink' = sink\<lparr>sink_last_entry_hash := Some h\<rparr>"
  using assms
  by (auto simp: jsonl_record_def Let_def serialize_audit_event_line_def append_to_journal_def
      and_then_Inr split: if_splits sum.splits prod.splits write_outcome.splits option.splits)

lemma jsonl_record_step:
  assumes sync: "in_sync cdc (content, sink)"
    and rec: "jsonl_record cdc io (content, sink) e = ((content', sink'), Inr ())"
  shows "in_sync cdc (content', sink')"
    and "journal_events cdc content' = journal_events cdc content @ [e]"
    and "\<exists>ps p. decode_lines cdc (file_lines content) = Some ps \<and> \<not> legacy p
      \<and> decode_lines cdc (file_lines content') = Some (ps @ [p])"
proof -
  obtain ps where ps: "decode_lines cdc (file_lines content) = Some ps"
      "sealed_chain cdc (sink_path sink) None (protected_part ps) (sink_last_entry_hash sink)"
    and laws: "codec_laws cdc" and full: "complete_journal content"
    using sync by (auto simp: in_sync_def)
  obtain h l where h:
      "compute_audit_event_entry_hash cdc (sink_path sink) e (sink_last_entry_hash sink) = Inr h"
    and l: "persisted_to_vec cdc (event_with_integrity e (sink_last_entry_hash sink) h) = Inr l"
    and new: "content' = content @ l @ [newline]" "sink' = sink\<lparr>sink_last_entry_hash := Some h\<rparr>"
    by (rule jsonl_record_Inr [OF rec])
  let ?p = "event_with_integrity e (sink_last_entry_hash sink) h"
  have lines: "file_lines content' = file_lines content @ [l]"
    using full new(1) codec_line [OF laws l] by (simp add: file_lines_append_line)
  then have dec: "decode_lines cdc (file_lines content') = Some (ps @ [?p])"
    using ps(1) codec_line [OF laws l] by (simp add: decode_lines_append)
  have "sealed_chain cdc (sink_path sink) None (protected_part (ps @ [?p])) (Some h)"
    using ps(2) h by (auto simp: protected_part_snoc sealed_chain_append)
  with dec laws new show "in_sync cdc (content', sink')"
    by (simp add: in_sync_def)
  show "journal_events cdc content' = journal_events cdc content @ [e]"
    using dec ps(1) by (simp add: journal_events_def)
  show "\<exists>ps p. decode_lines cdc (file_lines content) = Some ps \<and> \<not> legacy p
      \<and> decode_lines cdc (file_lines content') = Some (ps @ [p])"
    using dec ps(1) by (intro exI [of _ ps] exI [of _ ?p]) simp
qed

interpretation jsonl_sink: lossless_audit_sink "jsonl_record cdc io"
    "\<lambda>s. journal_events cdc (fst s)" "in_sync cdc" for cdc io
  by unfold_locales (auto dest: jsonl_record_step)

lemma last_non_empty_line_decoded:
  "decode_lines cdc ls = Some ps \<Longrightarrow>
     if ps = [] then last_non_empty_line path (map Inr ls) acc = Inr acc
     else \<exists>l. last_non_empty_line path (map Inr ls) acc = Inr (Some l)
            \<and> persisted_from_str cdc l = Inr (last ps)"
proof (induction ls arbitrary: acc ps)
  case Nil
  then show ?case by simp
next
  case (Cons l ls)
  show ?case
  proof (cases "trim l = []")
    case True
    with Cons show ?thesis by simp
  next
    case False
    with Cons.prems obtain p qs where "persisted_from_str cdc l = Inr p"
        "decode_lines cdc ls = Some qs" "ps = p # qs"
      by (auto split: sum.splits)
    with False Cons.IH [of qs "Some l"] show ?thesis
      by (cases "qs = []") auto
  qed
qed

lemma sealed_chain_last:
  assumes "sealed_chain cdc path prev ps q" and "ps \<noteq> []"
  shows "\<exists>i m. persisted_integrity (last ps) = Some i \<and> q = Some (integrity_entry_hash i)
     \<and> integrity_entry_hash i = sha256_hex cdc m"
  using assms
proof (induction rule: sealed_chain.induct)
  case (sealed_Cons p i prev ps q)
  then show ?case
    by (cases "ps = []") (auto simp: compute_audit_event_entry_hash_def and_then_Inr intro: sym)
qed simp

lemma protected_part_last: "protected_part ps \<noteq> [] \<Longrightarrow> last (protected_part ps) = last ps"
  unfolding protected_part_def by (metis last_appendR takeWhile_dropWhile_id)

lemma protected_part_not_Nil: "ps \<noteq> [] \<Longrightarrow> \<not> legacy (last ps) \<Longrightarrow> protected_part ps \<noteq> []"
  by (auto simp: protected_part_def)

lemma load_last_hash:
  assumes laws: "codec_laws cdc" and ps: "decode_lines cdc (file_lines content) = Some ps"
    and chain: "sealed_chain cdc path None (protected_part ps) q"
  shows "load_last_audit_entry_hash cdc path (on_disk content) = Inr q"
proof (cases "ps = []")
  case True
  with chain have "q = None"
    by (simp add: protected_part_def)
  with True show ?thesis
    using last_non_empty_line_decoded [OF ps, of path None]
    by (simp add: load_last_audit_entry_hash_def on_disk_def)
next
  case False
  then obtain l where l: "last_non_empty_line path (map Inr (file_lines content)) None = Inr (Some l)"
      "persisted_from_str cdc l = Inr (last ps)"
    using last_non_empty_line_decoded [OF ps, of path None] by auto
  show ?thesis
  proof (cases "legacy (last ps)")
    case True
    have "protected_part ps = []"
    proof (rule ccontr)
      assume ne: "protected_part ps \<noteq> []"
      then have "last (protected_part ps) = last ps"
        by (rule protected_part_last)
      with ne True show False
        using sealed_chain_not_legacy [OF chain, of "last ps"] by (metis last_in_set)
    qed
    with chain True l show ?thesis
      by (simp add: load_last_audit_entry_hash_def on_disk_def legacy_def
          decode_persisted_audit_event_line_def)
  next
    case fresh: False
    then obtain i m where "persisted_integrity (last ps) = Some i"
        "q = Some (integrity_entry_hash i)" "integrity_entry_hash i = sha256_hex cdc m"
      using sealed_chain_last [OF chain] protected_part_not_Nil [OF False]
        by (auto simp: protected_part_last)
    moreover have "trim (sha256_hex cdc m) \<noteq> []"
      using laws by (simp add: codec_laws_def)
    ultimately show ?thesis
      using l by (simp add: load_last_audit_entry_hash_def on_disk_def
          decode_persisted_audit_event_line_def)
  qed
qed

lemma jsonl_new_in_sync:
  assumes laws: "codec_laws cdc" and full: "complete_journal content"
    and valid: "verify_jsonl_audit_journal cdc path (on_disk content) = Inr r" "report_valid r"
    and new: "jsonl_new cdc path io (on_disk content) = Inr sink"
  shows "in_sync cdc (content, sink) \<and> sink_path sink = path"
proof -
  obtain ps q where ps: "decode_lines cdc (file_lines content) = Some ps"
      "sealed_chain cdc path None (protected_part ps) q"
    using verify_on_disk [of cdc path content r] valid by auto
  from load_last_hash [OF laws ps] new
  have "sink = \<lparr>sink_path = path, sink_last_entry_hash = q, sink_journal_poisoned = False\<rparr>"
    by (auto simp: jsonl_new_def and_then_Inr)
  with ps laws full show ?thesis
    by (simp add: in_sync_def)
qed

end
