(* ===== verification/Audit_Repair.thy ===== *)
theory Audit_Repair
  imports Audit_Journal
begin

text \<open>
  What the journal of \<open>Audit_Journal\<close> guarantees: recording keeps a journal verifiable, repair and
  verification agree, a repaired journal verifies, and equal tail hashes mean equal histories up to
  a collision of the digest; and the two situations in which the cached tail hash of a sink breaks
  the chain.  A small codec at the end instantiates the laws.
\<close>

section \<open>Repair follows verification\<close>

lemma reseal_Inr:
  assumes "reseal cdc path st e = Inr st'"
  obtains h l where "compute_audit_event_entry_hash cdc path e (rebuilt_previous_hash st) = Inr h"
    "persisted_to_vec cdc (event_with_integrity e (rebuilt_previous_hash st) h) = Inr l"
    "st' = st\<lparr>repaired_lines := repaired_lines st @ [l @ [newline]],
        rebuilt_previous_hash := Some h, rs_repaired := rs_repaired st + 1\<rparr>"
  using assms by (auto simp: reseal_def and_then_Inr serialize_audit_event_line_def)

lemma repair_event_legacy:
  assumes "persisted_integrity p = None"
  shows "repair_event cdc path st n line p = Inr (Inr st') \<longleftrightarrow>
    \<not> protected_chain_started st \<and> reseal cdc path st (persisted_event p) = Inr st'"
    and "repair_event cdc path st n line p = Inr (Inl rep) \<longleftrightarrow>
    protected_chain_started st \<and> rep = repair_report st
      (Refused n ''missing integrity envelope after protected chain started'')"
  using assms by (auto simp: repair_event_def and_then_Inr)

text \<open>The sealed branch: what a continuation has checked, and what a refusal has found.\<close>

lemma repair_event_sealed:
  assumes "persisted_integrity p = Some i" and "repair_event cdc path st n line p = Inr (Inr st')"
  obtains "trim (integrity_algorithm i) = ''sha256''"
    "integrity_prev_hash i = source_previous_hash st"
    "compute_audit_event_entry_hash cdc path (persisted_event p) (source_previous_hash st)
      = Inr (integrity_entry_hash i)"
    "rs_repaired st = 0 \<and> source_previous_hash st = rebuilt_previous_hash st
       \<and> st' = st\<lparr>protected_chain_started := True,
             source_previous_hash := Some (integrity_entry_hash i),
             rebuilt_previous_hash := Some (integrity_entry_hash i),
             rs_already_valid := rs_already_valid st + 1,
             repaired_lines := repaired_lines st @ [line @ [newline]]\<rparr>
     \<or> \<not> (rs_repaired st = 0 \<and> source_previous_hash st = rebuilt_previous_hash st)
       \<and> reseal cdc path (st\<lparr>protected_chain_started := True,
             source_previous_hash := Some (integrity_entry_hash i)\<rparr>) (persisted_event p) = Inr st'"
  using assms
  by (cases "compute_audit_event_entry_hash cdc path (persisted_event p) (integrity_prev_hash i)")
    (auto simp: repair_event_def and_then_Inr Let_def split: if_splits)

lemma repair_event_refused:
  assumes "persisted_integrity p = Some i" and "repair_event cdc path st n line p = Inr (Inl rep)"
  obtains why where "rep = repair_report st (Refused n why)"
    "trim (integrity_algorithm i) \<noteq> ''sha256'' \<or> integrity_prev_hash i \<noteq> source_previous_hash st
     \<or> (\<exists>h. compute_audit_event_entry_hash cdc path (persisted_event p) (source_previous_hash st) = Inr h
          \<and> h \<noteq> integrity_entry_hash i)"
  using assms
  by (cases "compute_audit_event_entry_hash cdc path (persisted_event p) (integrity_prev_hash i)")
    (auto simp: repair_event_def and_then_Inr Let_def split: if_splits)

lemma repair_loop_blank:
  "trim l = [] \<Longrightarrow> repair_loop cdc path (Inr l # lrs) n st =
     repair_loop cdc path lrs (n + 1) (st\<lparr>repaired_lines := repaired_lines st @ [[newline]]\<rparr>)"
  by simp

lemma repair_loop_garbled:
  "trim l \<noteq> [] \<Longrightarrow> persisted_from_str cdc l = Inl e \<Longrightarrow>
     repair_loop cdc path (Inr l # lrs) n st \<noteq> Inr x"
  by (simp add: decode_persisted_audit_event_line_def)

lemma repair_loop_event:
  "trim l \<noteq> [] \<Longrightarrow> persisted_from_str cdc l = Inr p \<Longrightarrow>
     repair_loop cdc path (Inr l # lrs) n st = Inr x \<longleftrightarrow>
       (\<exists>rep. repair_event cdc path (st\<lparr>rs_total := rs_total st + 1\<rparr>) n l p = Inr (Inl rep)
          \<and> x = Inl rep)
       \<or> (\<exists>st'. repair_event cdc path (st\<lparr>rs_total := rs_total st + 1\<rparr>) n l p = Inr (Inr st')
          \<and> repair_loop cdc path lrs (n + 1) st' = Inr x)"
  by (cases "repair_event cdc path (st\<lparr>rs_total := rs_total st + 1\<rparr>) n l p")
    (auto simp: decode_persisted_audit_event_line_def split: sum.splits)

declare repair_loop.simps(2) [simp del]

lemma reseal_fields:
  assumes "reseal cdc path st e = Inr st'"
  shows "rs_total st' = rs_total st" "source_previous_hash st' = source_previous_hash st"
    "protected_chain_started st' = protected_chain_started st"
    "rs_repaired st' = Suc (rs_repaired st)" "rs_already_valid st' = rs_already_valid st"
  using assms by (auto elim!: reseal_Inr)

lemma repair_event_sealed_fields:
  assumes "persisted_integrity p = Some i" and "repair_event cdc path st n line p = Inr (Inr st')"
  shows "trim (integrity_algorithm i) = ''sha256''" "integrity_prev_hash i = source_previous_hash st"
    "compute_audit_event_entry_hash cdc path (persisted_event p) (source_previous_hash st)
      = Inr (integrity_entry_hash i)"
    "rs_total st' = rs_total st" "source_previous_hash st' = Some (integrity_entry_hash i)"
    "protected_chain_started st'"
  by (rule repair_event_sealed [OF assms]; auto dest: reseal_fields)+

text \<open>One line: repair continues to a state that mirrors the variables of the verifier.\<close>

lemma repair_event_mirrors:
  assumes "trim l \<noteq> []" "persisted_from_str cdc l = Inr p"
    and "repair_event cdc path (st\<lparr>rs_total := rs_total st + 1\<rparr>) n l p = Inr (Inr st')"
  shows "\<exists>v'. verify_lines cdc path (Inr l # lrs) n (rs_total st) v (source_previous_hash st)
        (protected_chain_started st)
      = verify_lines cdc path lrs (n + 1) (rs_total st') v' (source_previous_hash st')
        (protected_chain_started st')"
proof (cases "persisted_integrity p")
  case None
  with assms reseal_fields [of cdc path "st\<lparr>rs_total := rs_total st + 1\<rparr>"] show ?thesis
    by (auto simp: verify_lines.simps decode_persisted_audit_event_line_def repair_event_legacy)
next
  case (Some i)
  with assms(1,2) repair_event_sealed_fields [OF Some assms(3)] show ?thesis
    by (auto simp: verify_lines.simps decode_persisted_audit_event_line_def)
qed

lemma repair_event_refusal_mirrors:
  assumes "trim l \<noteq> []" "persisted_from_str cdc l = Inr p"
    and "repair_event cdc path (st\<lparr>rs_total := rs_total st + 1\<rparr>) n l p = Inr (Inl rep)"
  shows "\<exists>r why. verify_lines cdc path (Inr l # lrs) n (rs_total st) v (source_previous_hash st)
        (protected_chain_started st) = Inr r \<and> \<not> report_valid r \<and> first_invalid_line r = Some n
      \<and> repair_outcome rep = Refused n why \<and> total_events r = repair_total_events rep"
proof (cases "persisted_integrity p")
  case None
  with assms show ?thesis
    by (auto simp: verify_lines.simps decode_persisted_audit_event_line_def repair_event_legacy
        repair_report_def)
next
  case (Some i)
  show ?thesis
    by (rule repair_event_refused [OF Some assms(3)])
      (use assms(1,2) Some in \<open>auto simp: verify_lines.simps repair_report_def
        decode_persisted_audit_event_line_def\<close>)
qed

lemma repair_loop_mirrors:
  "repair_loop cdc path (map Inr ls) n st = Inr x \<Longrightarrow>
     \<exists>r. verify_lines cdc path (map Inr ls) n (rs_total st) v (source_previous_hash st)
           (protected_chain_started st) = Inr r
       \<and> (case x of
            Inl rep \<Rightarrow> \<not> report_valid r \<and> total_events r = repair_total_events rep
              \<and> (\<exists>k why. first_invalid_line r = Some k \<and> repair_outcome rep = Refused k why)
          | Inr st' \<Rightarrow> report_valid r)"
proof (induction ls arbitrary: n st v)
  case Nil
  then show ?case by auto
next
  case (Cons l ls)
  show ?case
  proof (cases "trim l = []")
    case True
    then show ?thesis
      using Cons.IH [of "n + 1" "st\<lparr>repaired_lines := repaired_lines st @ [[newline]]\<rparr>" v] Cons.prems
      by (simp add: verify_blank_line repair_loop_blank)
  next
    case False
    then obtain p where p: "persisted_from_str cdc l = Inr p"
      using Cons.prems repair_loop_garbled by (cases "persisted_from_str cdc l") auto
    from Cons.prems consider
      (stop) rep where "repair_event cdc path (st\<lparr>rs_total := rs_total st + 1\<rparr>) n l p = Inr (Inl rep)"
        "x = Inl rep"
    | (go) st' where "repair_event cdc path (st\<lparr>rs_total := rs_total st + 1\<rparr>) n l p = Inr (Inr st')"
        "repair_loop cdc path (map Inr ls) (n + 1) st' = Inr x"
      by (auto simp: repair_loop_event [OF False p])
    then show ?thesis
    proof cases
      case stop
      with repair_event_refusal_mirrors [OF False p stop(1), of "map Inr ls" v] show ?thesis by auto
    next
      case go
      obtain v' where "verify_lines cdc path (Inr l # map Inr ls) n (rs_total st) v
          (source_previous_hash st) (protected_chain_started st)
        = verify_lines cdc path (map Inr ls) (n + 1) (rs_total st') v' (source_previous_hash st')
          (protected_chain_started st')"
        using repair_event_mirrors [OF False p go(1)] by blast
      with Cons.IH [OF go(2), of v'] show ?thesis by simp
    qed
  qed
qed

section \<open>What repair rebuilds\<close>

text \<open>The lines written so far, read back: a sealed chain of the same events.\<close>

definition resealed ::
    "journal_codec \<Rightarrow> string \<Rightarrow> repair_state \<Rightarrow> persisted_audit_event list \<Rightarrow> bool" where
  "resealed cdc path st ps \<longleftrightarrow>
     (\<exists>ls qs. repaired_lines st = map (\<lambda>l. l @ [newline]) ls
        \<and> (\<forall>l \<in> set ls. newline \<notin> set l \<and> strip_cr l = l)
        \<and> decode_lines cdc ls = Some qs
        \<and> sealed_chain cdc path None qs (rebuilt_previous_hash st)
        \<and> map persisted_event qs = map persisted_event ps)"

definition repair_inv ::
    "journal_codec \<Rightarrow> string \<Rightarrow> repair_state \<Rightarrow> persisted_audit_event list \<Rightarrow> bool" where
  "repair_inv cdc path st ps \<longleftrightarrow>
     rs_total st = length ps
     \<and> sealed_chain cdc path None (protected_part ps) (source_previous_hash st)
     \<and> (protected_chain_started st \<longleftrightarrow> protected_part ps \<noteq> [])
     \<and> (rs_repaired st = 0 \<longrightarrow> protected_part ps = ps
          \<and> rebuilt_previous_hash st = source_previous_hash st)
     \<and> (rs_already_valid st \<noteq> 0 \<longrightarrow> rs_repaired st = 0 \<and> protected_chain_started st)
     \<and> (rs_already_valid st = 0 \<longrightarrow> resealed cdc path st ps)"

lemma repair_inv_init: "repair_inv cdc path repair_init []"
  by (simp add: repair_inv_def resealed_def repair_init_def protected_part_def)

lemma repair_inv_blank:
  assumes "repair_inv cdc path st ps"
  shows "repair_inv cdc path (st\<lparr>repaired_lines := repaired_lines st @ [[newline]]\<rparr>) ps"
proof -
  let ?st = "st\<lparr>repaired_lines := repaired_lines st @ [[newline]]\<rparr>"
  have "resealed cdc path ?st ps" if r: "resealed cdc path st ps"
  proof -
    obtain ls qs where "repaired_lines st = map (\<lambda>l. l @ [newline]) ls"
        "\<forall>l \<in> set ls. newline \<notin> set l \<and> strip_cr l = l" "decode_lines cdc ls = Some qs"
        "sealed_chain cdc path None qs (rebuilt_previous_hash st)"
        "map persisted_event qs = map persisted_event ps"
      using r by (auto simp: resealed_def)
    then show ?thesis
      unfolding resealed_def
      by (intro exI [of _ "ls @ [[]]"] exI [of _ qs])
        (simp add: decode_lines_append strip_cr_def strip_suffix_def)
  qed
  with assms show ?thesis
    by (auto simp: repair_inv_def)
qed

lemma reseal_resealed:
  assumes laws: "codec_laws cdc" and "reseal cdc path st (persisted_event p) = Inr st'"
    and old: "resealed cdc path st ps"
  shows "resealed cdc path st' (ps @ [p])"
proof -
  obtain h l where h: "compute_audit_event_entry_hash cdc path (persisted_event p)
        (rebuilt_previous_hash st) = Inr h"
    and l: "persisted_to_vec cdc (event_with_integrity (persisted_event p)
        (rebuilt_previous_hash st) h) = Inr l"
    and st': "st' = st\<lparr>repaired_lines := repaired_lines st @ [l @ [newline]],
        rebuilt_previous_hash := Some h, rs_repaired := rs_repaired st + 1\<rparr>"
    by (rule reseal_Inr [OF assms(2)])
  let ?q = "event_with_integrity (persisted_event p) (rebuilt_previous_hash st) h"
  obtain ls qs where "repaired_lines st = map (\<lambda>l. l @ [newline]) ls"
      "\<forall>l \<in> set ls. newline \<notin> set l \<and> strip_cr l = l" "decode_lines cdc ls = Some qs"
      "sealed_chain cdc path None qs (rebuilt_previous_hash st)"
      "map persisted_event qs = map persisted_event ps"
    using old by (auto simp: resealed_def)
  with codec_line [OF laws l] h st' show ?thesis
    unfolding resealed_def
    by (intro exI [of _ "ls @ [l]"] exI [of _ "qs @ [?q]"])
      (auto simp: decode_lines_append sealed_chain_append)
qed

lemma protected_part_snoc_legacy:
  "protected_part ps = [] \<Longrightarrow> legacy p \<Longrightarrow> protected_part (ps @ [p]) = []"
  by (simp add: protected_part_def)

lemma repair_inv_legacy:
  assumes laws: "codec_laws cdc" and inv: "repair_inv cdc path st ps"
    and p: "persisted_integrity p = None" and fresh: "\<not> protected_chain_started st"
    and st': "reseal cdc path (st\<lparr>rs_total := rs_total st + 1\<rparr>) (persisted_event p) = Inr st'"
  shows "repair_inv cdc path st' (ps @ [p])"
proof -
  have "resealed cdc path (st\<lparr>rs_total := rs_total st + 1\<rparr>) ps"
    using inv fresh by (auto simp: repair_inv_def resealed_def)
  from reseal_resealed [OF laws st' this] inv fresh p reseal_fields [OF st'] show ?thesis
    by (auto simp: repair_inv_def protected_part_snoc_legacy legacy_def)
qed

lemma repair_inv_sealed:
  assumes laws: "codec_laws cdc" and inv: "repair_inv cdc path st ps"
    and p: "persisted_integrity p = Some i"
    and ev: "repair_event cdc path (st\<lparr>rs_total := rs_total st + 1\<rparr>) n l p = Inr (Inr st')"
  shows "repair_inv cdc path st' (ps @ [p])"
proof (rule repair_event_sealed [OF p ev])
  let ?st = "st\<lparr>rs_total := rs_total st + 1\<rparr>"
  let ?st1 = "?st\<lparr>protected_chain_started := True, source_previous_hash := Some (integrity_entry_hash i)\<rparr>"
  note fields = repair_event_sealed_fields [OF p ev]
  have new: "protected_part (ps @ [p]) = protected_part ps @ [p]"
    using p by (simp add: protected_part_snoc legacy_def)
  have chain: "sealed_chain cdc path None (protected_part (ps @ [p])) (Some (integrity_entry_hash i))"
    using inv fields(1-3) p
    by (auto simp: repair_inv_def new sealed_chain_append sealed_chain_Cons)
  assume "rs_repaired ?st = 0 \<and> source_previous_hash ?st = rebuilt_previous_hash ?st
       \<and> st' = ?st\<lparr>protected_chain_started := True,
             source_previous_hash := Some (integrity_entry_hash i),
             rebuilt_previous_hash := Some (integrity_entry_hash i),
             rs_already_valid := rs_already_valid ?st + 1,
             repaired_lines := repaired_lines ?st @ [l @ [newline]]\<rparr>
     \<or> \<not> (rs_repaired ?st = 0 \<and> source_previous_hash ?st = rebuilt_previous_hash ?st)
       \<and> reseal cdc path ?st1 (persisted_event p) = Inr st'" (is "?kept \<or> ?resealed")
  then show ?thesis
  proof
    assume ?kept
    with inv chain new show ?thesis
      by (auto simp: repair_inv_def)
  next
    assume r: ?resealed
    then have "rs_already_valid st = 0"
      using inv by (auto simp: repair_inv_def)
    then have "resealed cdc path ?st1 ps"
      using inv by (auto simp: repair_inv_def resealed_def)
    with r laws have "resealed cdc path st' (ps @ [p])"
      by (blast intro: reseal_resealed)
    with r inv chain new fields \<open>rs_already_valid st = 0\<close> show ?thesis
      by (auto simp: repair_inv_def dest: reseal_fields)
  qed
qed

lemma repair_loop_inv:
  assumes laws: "codec_laws cdc"
  shows "repair_loop cdc path (map Inr ls) n st = Inr (Inr st') \<Longrightarrow> repair_inv cdc path st ps \<Longrightarrow>
     \<exists>qs. decode_lines cdc ls = Some qs \<and> repair_inv cdc path st' (ps @ qs)"
proof (induction ls arbitrary: n st ps)
  case Nil
  then show ?case by simp
next
  case (Cons l ls)
  show ?case
  proof (cases rule: journal_line_cases [where l = l and cdc = cdc])
    case blank
    then show ?thesis
      using Cons.IH [OF _ repair_inv_blank [OF Cons.prems(2)]] Cons.prems(1)
      by (simp add: repair_loop_blank)
  next
    case garbled
    then show ?thesis using Cons.prems by (simp add: repair_loop_garbled)
  next
    case (old p)
    then obtain st1 where "\<not> protected_chain_started st"
        "reseal cdc path (st\<lparr>rs_total := rs_total st + 1\<rparr>) (persisted_event p) = Inr st1"
        "repair_loop cdc path (map Inr ls) (n + 1) st1 = Inr (Inr st')"
      using Cons.prems(1) by (auto simp: repair_loop_event repair_event_legacy)
    with Cons.IH repair_inv_legacy [OF laws Cons.prems(2) old(3)] old show ?thesis
      by fastforce
  next
    case (sealed p i)
    then obtain st1 where "repair_event cdc path (st\<lparr>rs_total := rs_total st + 1\<rparr>) n l p = Inr (Inr st1)"
        "repair_loop cdc path (map Inr ls) (n + 1) st1 = Inr (Inr st')"
      using Cons.prems(1) by (auto simp: repair_loop_event)
    with Cons.IH repair_inv_sealed [OF laws Cons.prems(2) sealed(3)] sealed show ?thesis
      by fastforce
  qed
qed

lemma file_lines_concat:
  "\<forall>l \<in> set ls. newline \<notin> set l \<and> strip_cr l = l \<Longrightarrow>
     file_lines (concat (map (\<lambda>l. l @ [newline]) ls)) = ls
     \<and> complete_journal (concat (map (\<lambda>l. l @ [newline]) ls))"
proof (induction ls rule: rev_induct)
  case Nil
  then show ?case by simp
next
  case (snoc l ls)
  then show ?case
    using file_lines_append_line [of "concat (map (\<lambda>l. l @ [newline]) ls)" l] by simp
qed

lemma repair_loop_unfold:
  assumes "repair_jsonl_audit_journal cdc path tmp io (on_disk content) = Inr (rep, new)"
  shows "(repair_loop cdc path (map Inr (file_lines content)) 1 repair_init = Inr (Inl rep)
            \<and> new = None)
     \<or> (\<exists>st. repair_loop cdc path (map Inr (file_lines content)) 1 repair_init = Inr (Inr st)
            \<and> (if rs_repaired st = 0 then rep = repair_report st Healthy \<and> new = None
               else rep = repair_report st Repaired \<and> new = Some (concat (repaired_lines st))))"
proof -
  obtain x where x: "repair_loop cdc path (map Inr (file_lines content)) 1 repair_init = Inr x"
    using assms by (auto simp: repair_jsonl_audit_journal_def on_disk_def and_then_Inr
        split: option.splits)
  with assms show ?thesis
    by (cases x) (auto simp: repair_jsonl_audit_journal_def on_disk_def and_then_Inr
        split: option.splits if_splits)
qed

lemma repair_init_simps [simp]:
  "rs_total repair_init = 0" "source_previous_hash repair_init = None"
  "\<not> protected_chain_started repair_init"
  by (simp_all add: repair_init_def)

lemma jsonl_record_path:
  "jsonl_record cdc io s e = (s', r) \<Longrightarrow> sink_path (snd s') = sink_path (snd s)"
  by (auto simp: jsonl_record_def Let_def split: if_splits sum.splits prod.splits)

lemma record_all_path:
  "record_all (jsonl_record cdc io) s es = (s', r) \<Longrightarrow> sink_path (snd s') = sink_path (snd s)"
proof (induction es arbitrary: s)
  case (Cons e es)
  then show ?case
    by (cases "jsonl_record cdc io s e"; cases "snd (jsonl_record cdc io s e)")
      (auto dest: jsonl_record_path)
qed simp

text \<open>Recording appends sealed events and touches nothing else.\<close>

lemma record_all_decoded:
  "record_all (jsonl_record cdc io) s es = (s', Inr ()) \<Longrightarrow> in_sync cdc s \<Longrightarrow>
     decode_lines cdc (file_lines (fst s)) = Some ps \<Longrightarrow>
     \<exists>qs. decode_lines cdc (file_lines (fst s')) = Some (ps @ qs) \<and> length qs = length es
        \<and> protected_part (ps @ qs) = protected_part ps @ qs"
proof (induction es arbitrary: s ps)
  case Nil
  then show ?case by simp
next
  case (Cons e es)
  then obtain s1 where s1: "jsonl_record cdc io s e = (s1, Inr ())"
      "record_all (jsonl_record cdc io) s1 es = (s', Inr ())"
    by (auto elim: try_bind_InrE)
  then obtain p where p: "decode_lines cdc (file_lines (fst s1)) = Some (ps @ [p])" "\<not> legacy p"
    using jsonl_record_step(3) [of cdc "fst s" "snd s" io e "fst s1" "snd s1"] Cons.prems(2,3) by auto
  have "in_sync cdc s1"
    by (rule jsonl_sink.record_inv [OF Cons.prems(2) s1(1)])
  from Cons.IH [OF s1(2) this p(1)] p(2) show ?case
    by (force simp: protected_part_snoc)
qed

section \<open>A concrete codec\<close>

text \<open>
  A codec for three sample events, to instantiate the laws.  It serialises an event only when the
  line parses back, as the laws ask.
\<close>

definition mini_line :: "persisted_audit_event \<Rightarrow> string" where
  "mini_line p = join ''|'' [''{'' @ event_id (persisted_event p),
     (case persisted_integrity p of
        None \<Rightarrow> ''-''
      | Some i \<Rightarrow> (case integrity_prev_hash i of None \<Rightarrow> ''~'' | Some h \<Rightarrow> h)),
     (case persisted_integrity p of None \<Rightarrow> ''-'' | Some i \<Rightarrow> integrity_entry_hash i), ''}'']"

definition mini_parse :: "string \<Rightarrow> string + persisted_audit_event" where
  "mini_parse l =
     (case split_on (CHR ''|'') l of
        [eid, prev, h, close] \<Rightarrow>
          (case find (\<lambda>e. ''{'' @ event_id e = eid) [sample_event 1, sample_event 2, sample_event 3] of
             None \<Rightarrow> Inl ''unknown event''
           | Some e \<Rightarrow> Inr \<lparr>persisted_event = e, persisted_integrity =
               (if prev = ''-'' then None
                else Some \<lparr>integrity_algorithm = ''sha256'',
                  integrity_prev_hash = (if prev = ''~'' then None else Some prev),
                  integrity_entry_hash = h\<rparr>)\<rparr>)
      | _ \<Rightarrow> Inl ''syntax error'')"

definition mini_codec :: journal_codec where
  "mini_codec =
     \<lparr>material_to_vec = (\<lambda>e prev. Inr (event_id e @ ''/'' @ (case prev of None \<Rightarrow> ''~'' | Some h \<Rightarrow> h))),
      sha256_hex = (\<lambda>m. ''h'' @ m),
      persisted_to_vec = (\<lambda>p. let l = mini_line p in
        if mini_parse l = Inr p \<and> newline \<notin> set l \<and> l \<noteq> [] \<and> \<not> is_ws (hd l) \<and> \<not> is_ws (last l)
        then Inr l else Inl ''not representable''),
      persisted_from_str = mini_parse\<rparr>"

lemma mini_codec_laws: "codec_laws mini_codec"
proof -
  have "\<not> is_ws (CHR ''h'')"
    by (simp add: is_ws_def)
  then show ?thesis
    by (auto simp: codec_laws_def mini_codec_def Let_def trim_Nil_iff split: if_splits)
qed

lemma sample_event_id [simp]: "event_id (sample_event n) = ''evt-'' @ show_nat n"
  by (simp add: sample_event_def)

lemma mini_codec_simps [simp]:
  "material_to_vec mini_codec e prev
     = Inr (event_id e @ ''/'' @ (case prev of None \<Rightarrow> ''~'' | Some h \<Rightarrow> h))"
  "sha256_hex mini_codec m = ''h'' @ m" "persisted_from_str mini_codec = mini_parse"
  by (simp_all add: mini_codec_def)

lemma mini_records:
  "record_all (jsonl_record mini_codec healthy_io)
     ([], \<lparr>sink_path = ''j'', sink_last_entry_hash = None, sink_journal_poisoned = False\<rparr>)
     [sample_event 1, sample_event 2] =
   ((''{evt-1|~|hevt-1/~|}'' @ [newline] @ ''{evt-2|hevt-1/~|hevt-2/hevt-1/~|}'' @ [newline],
     \<lparr>sink_path = ''j'', sink_last_entry_hash = Some ''hevt-2/hevt-1/~'',
      sink_journal_poisoned = False\<rparr>), Inr ())"
  by code_simp

definition mini_io :: journal_open_io where
  "mini_io = \<lparr>open_parent = None, open_mkdir_error = None, open_error = None\<rparr>"

section \<open>Properties\<close>

text \<open>
  C21: what verification means.  A journal on disk verifies exactly when every non-blank line
  decodes and the events from the first sealed one on form a hash chain from the empty history;
  the report then counts all events, the sealed ones, and ends in the hash of the last one.
\<close>

theorem verification_means_sealed_chain:
  "(verify_jsonl_audit_journal cdc path (on_disk content) = Inr r \<and> report_valid r) =
     (\<exists>ps q. decode_lines cdc (file_lines content) = Some ps
        \<and> sealed_chain cdc path None (protected_part ps) q
        \<and> r = valid_report (length ps) (length (protected_part ps)) q)"
  by (rule verify_on_disk)

text \<open>
  C2: recording keeps a journal verifiable.  A sink opened on a journal that verifies and is empty or
  ends in a newline, after any sequence of records that it accepts, leaves a journal that verifies,
  with one more verified event for each record and the old events followed by the new ones.
\<close>

theorem recorded_journal_verifies:
  assumes laws: "codec_laws cdc" and full: "complete_journal content"
    and valid: "verify_jsonl_audit_journal cdc path (on_disk content) = Inr r" "report_valid r"
    and new: "jsonl_new cdc path oio (on_disk content) = Inr sink"
    and recs: "record_all (jsonl_record cdc io) (content, sink) es = ((content', sink'), Inr ())"
  shows "\<exists>r'. verify_jsonl_audit_journal cdc path (on_disk content') = Inr r' \<and> report_valid r'
     \<and> total_events r' = total_events r + length es
     \<and> verified_events r' = verified_events r + length es
     \<and> journal_events cdc content' = journal_events cdc content @ es"
proof -
  have sync: "in_sync cdc (content, sink)" "sink_path sink = path"
    using jsonl_new_in_sync [OF laws full valid new] by auto
  have "in_sync cdc (content', sink')"
    using jsonl_sink.record_all_inv [OF recs sync(1)] .
  moreover have path: "sink_path sink' = path"
    using record_all_path [OF recs] sync(2) by simp
  moreover obtain ps q where ps: "decode_lines cdc (file_lines content) = Some ps"
      "r = valid_report (length ps) (length (protected_part ps)) q"
    using verify_on_disk [of cdc path content r] valid by auto
  moreover obtain qs where qs: "decode_lines cdc (file_lines content') = Some (ps @ qs)"
      "length qs = length es" "protected_part (ps @ qs) = protected_part ps @ qs"
    using record_all_decoded [OF recs sync(1)] ps(1) by auto
  ultimately have "verify_jsonl_audit_journal cdc path (on_disk content') = Inr (valid_report
      (length (ps @ qs)) (length (protected_part (ps @ qs))) (sink_last_entry_hash sink'))"
    using verify_on_disk [of cdc path content' "valid_report (length (ps @ qs))
      (length (protected_part (ps @ qs))) (sink_last_entry_hash sink')"] by (auto simp: in_sync_def)
  with ps qs jsonl_sink.record_all_appends [OF recs sync(1)] show ?thesis by auto
qed

theorem recorded_journal_verifies_witness:
  "\<exists>content' sink' r'.
     record_all (jsonl_record mini_codec healthy_io)
       ([], \<lparr>sink_path = ''j'', sink_last_entry_hash = None, sink_journal_poisoned = False\<rparr>)
       [sample_event 1, sample_event 2] = ((content', sink'), Inr ())
     \<and> verify_jsonl_audit_journal mini_codec ''j'' (on_disk content') = Inr r' \<and> report_valid r'
     \<and> total_events r' = 2"
proof -
  let ?sink = "\<lparr>sink_path = ''j'', sink_last_entry_hash = None, sink_journal_poisoned = False\<rparr>"
  have valid: "verify_jsonl_audit_journal mini_codec ''j'' (on_disk []) = Inr (valid_report 0 0 None)"
    by (simp add: verify_jsonl_audit_journal_def on_disk_def)
  have new: "jsonl_new mini_codec ''j'' mini_io (on_disk []) = Inr ?sink"
    by (simp add: jsonl_new_def mini_io_def open_jsonl_audit_journal_def on_disk_def
        prepare_audit_journal_parent_def load_last_audit_entry_hash_def)
  obtain content' sink' where recs: "record_all (jsonl_record mini_codec healthy_io) ([], ?sink)
      [sample_event 1, sample_event 2] = ((content', sink'), Inr ())"
    using mini_records by fastforce
  from recorded_journal_verifies [OF mini_codec_laws complete_Nil valid _ new recs] recs
  show ?thesis by auto
qed

text \<open>
  C20: a successful repair leaves a fully sealed journal.  When repair reports \<open>Healthy\<close> or
  \<open>Repaired\<close>, the journal on disk afterwards verifies, every event of it is verified, and it holds
  the same events in the same order as before.
\<close>

theorem repair_seals_every_event:
  assumes laws: "codec_laws cdc"
    and rep: "repair_jsonl_audit_journal cdc path tmp io (on_disk content) = Inr (rep, new)"
    and ok: "repair_outcome rep = Healthy \<or> repair_outcome rep = Repaired"
  shows "\<exists>r. verify_jsonl_audit_journal cdc path
           (on_disk (case new of None \<Rightarrow> content | Some c \<Rightarrow> c)) = Inr r
     \<and> report_valid r \<and> verified_events r = total_events r
     \<and> total_events r = repair_total_events rep
     \<and> journal_events cdc (case new of None \<Rightarrow> content | Some c \<Rightarrow> c) = journal_events cdc content"
proof -
  obtain st where st: "repair_loop cdc path (map Inr (file_lines content)) 1 repair_init = Inr (Inr st)"
    and out: "if rs_repaired st = 0 then rep = repair_report st Healthy \<and> new = None
      else rep = repair_report st Repaired \<and> new = Some (concat (repaired_lines st))"
    using repair_loop_unfold [OF rep] repair_loop_mirrors [of cdc path _ 1 repair_init] ok by fastforce
  obtain ps where ps: "decode_lines cdc (file_lines content) = Some ps"
    and inv: "repair_inv cdc path st ps"
    using repair_loop_inv [OF laws st repair_inv_init] by auto
  show ?thesis
  proof (cases "rs_repaired st = 0")
    case True
    then have "protected_part ps = ps" "sealed_chain cdc path None ps (source_previous_hash st)"
      using inv by (auto simp: repair_inv_def)
    with True out ps inv verify_on_disk [of cdc path content
        "valid_report (length ps) (length ps) (source_previous_hash st)"] show ?thesis
      by (auto simp: repair_inv_def repair_report_def)
  next
    case False
    then have "resealed cdc path st ps"
      using inv by (auto simp: repair_inv_def)
    then obtain ls qs where ls: "repaired_lines st = map (\<lambda>l. l @ [newline]) ls"
        "\<forall>l \<in> set ls. newline \<notin> set l \<and> strip_cr l = l" "decode_lines cdc ls = Some qs"
        "sealed_chain cdc path None qs (rebuilt_previous_hash st)"
        "map persisted_event qs = map persisted_event ps"
      by (auto simp: resealed_def)
    have "protected_part qs = qs"
      using sealed_chain_not_legacy [OF ls(4)] by (cases qs) (auto simp: protected_part_def)
    moreover have "length qs = length ps"
      using ls(5) map_eq_imp_length_eq by blast
    ultimately show ?thesis
      using False out ps inv ls file_lines_concat [OF ls(2)] verify_on_disk [of cdc path
        "concat (repaired_lines st)" "valid_report (length qs) (length qs) (rebuilt_previous_hash st)"]
      by (auto simp: repair_inv_def repair_report_def journal_events_def)
  qed
qed

definition no_repair_errors :: repair_io where
  "no_repair_errors = \<lparr>metadata_error = None, create_error = None, permissions_error = None,
     write_error = None, flush_error = None, sync_error = None, rename_error = None\<rparr>"

text \<open>Two legacy lines with a blank one between them, and what repair makes of them.\<close>

definition mini_legacy :: string where
  "mini_legacy = ''{evt-1|-|-|}'' @ [newline, newline] @ ''{evt-2|-|-|}'' @ [newline]"

definition mini_repaired :: string where
  "mini_repaired = ''{evt-1|~|hevt-1/~|}'' @ [newline, newline]
     @ ''{evt-2|hevt-1/~|hevt-2/hevt-1/~|}'' @ [newline]"

lemma mini_repair:
  "repair_jsonl_audit_journal mini_codec ''j'' ''t'' no_repair_errors (on_disk mini_legacy) =
     Inr (\<lparr>repair_total_events = 2, repaired_events = 2, already_valid_events = 0,
            repair_outcome = Repaired\<rparr>, Some mini_repaired)"
  by code_simp

theorem repair_seals_every_event_witness:
  "\<exists>r. verify_jsonl_audit_journal mini_codec ''j'' (on_disk mini_repaired) = Inr r
     \<and> report_valid r \<and> verified_events r = 2 \<and> total_events r = 2
     \<and> journal_events mini_codec mini_repaired = journal_events mini_codec mini_legacy"
  using repair_seals_every_event [OF mini_codec_laws mini_repair] by auto

text \<open>
  C12: repair refuses exactly what verification rejects.  When repair completes, it refuses the
  journal iff verification finds it invalid; both name the same line and have counted the same
  number of events, and a refused journal is not replaced.
\<close>

theorem repair_refuses_exactly_invalid:
  assumes "repair_jsonl_audit_journal cdc path tmp io (on_disk content) = Inr (rep, new)"
  shows "\<exists>r. verify_jsonl_audit_journal cdc path (on_disk content) = Inr r
     \<and> (if report_valid r then repair_outcome rep = Healthy \<or> repair_outcome rep = Repaired
        else new = None \<and> total_events r = repair_total_events rep
          \<and> (\<exists>n why. first_invalid_line r = Some n \<and> repair_outcome rep = Refused n why))"
proof -
  consider (refused) "repair_loop cdc path (map Inr (file_lines content)) 1 repair_init = Inr (Inl rep)"
      "new = None"
    | (completed) st where
        "repair_loop cdc path (map Inr (file_lines content)) 1 repair_init = Inr (Inr st)"
        "repair_outcome rep = Healthy \<or> repair_outcome rep = Repaired"
    using repair_loop_unfold [OF assms] by (auto simp: repair_report_def split: if_splits)
  then show ?thesis
  proof cases
    case refused
    then show ?thesis
      using repair_loop_mirrors [OF refused(1), of 0]
      by (auto simp: verify_jsonl_audit_journal_def on_disk_def)
  next
    case completed
    then show ?thesis
      using repair_loop_mirrors [OF completed(1), of 0]
      by (auto simp: verify_jsonl_audit_journal_def on_disk_def)
  qed
qed

text \<open>A journal whose second entry does not name the hash of the first.\<close>

definition mini_tampered :: string where
  "mini_tampered = ''{evt-1|~|hevt-1/~|}'' @ [newline] @ ''{evt-2|~|hevt-2/~|}'' @ [newline]"

lemma mini_refusal:
  "repair_jsonl_audit_journal mini_codec ''j'' ''t'' no_repair_errors (on_disk mini_tampered) =
     Inr (\<lparr>repair_total_events = 2, repaired_events = 0, already_valid_events = 1,
            repair_outcome = Refused 2 ''prev_hash mismatch in source chain''\<rparr>, None)"
  by code_simp

theorem repair_refuses_exactly_invalid_witness:
  "\<exists>r. verify_jsonl_audit_journal mini_codec ''j'' (on_disk mini_tampered) = Inr r
     \<and> \<not> report_valid r \<and> first_invalid_line r = Some 2 \<and> total_events r = 2"
  using repair_refuses_exactly_invalid [OF mini_refusal] by (auto split: if_splits)

text \<open>
  Two sealed lines collide when they carry the same hash, each correctly computed, for different
  pairs of an event and a predecessor hash.
\<close>

definition seals :: "journal_codec \<Rightarrow> string \<Rightarrow> persisted_audit_event \<Rightarrow> string option \<Rightarrow> string \<Rightarrow> bool" where
  "seals cdc path p prev h \<longleftrightarrow>
     map_option integrity_prev_hash (persisted_integrity p) = Some prev
     \<and> map_option integrity_entry_hash (persisted_integrity p) = Some h
     \<and> compute_audit_event_entry_hash cdc path (persisted_event p) prev = Inr h"

definition lines_collide ::
    "journal_codec \<Rightarrow> string \<Rightarrow> persisted_audit_event list \<Rightarrow> persisted_audit_event list \<Rightarrow> bool" where
  "lines_collide cdc path ps qs \<longleftrightarrow>
     (\<exists>p m q m' h. p \<in> set ps \<and> q \<in> set qs \<and> seals cdc path p m h \<and> seals cdc path q m' h
        \<and> (persisted_event p, m) \<noteq> (persisted_event q, m'))"

lemma lines_collide_mono:
  "lines_collide cdc path ps qs \<Longrightarrow> set ps \<subseteq> set ps' \<Longrightarrow> set qs \<subseteq> set qs' \<Longrightarrow>
     lines_collide cdc path ps' qs'"
  unfolding lines_collide_def by blast

lemma sealed_chain_snoc:
  assumes "sealed_chain cdc path prev (ps @ [p]) q"
  obtains m h where "sealed_chain cdc path prev ps m" "q = Some h" "seals cdc path p m h"
  using assms by (auto simp: sealed_chain_append sealed_chain_Cons seals_def)

lemma sealed_chains_agree:
  "sealed_chain cdc path None ps q \<Longrightarrow> sealed_chain cdc path None ps' q \<Longrightarrow>
     map persisted_event ps = map persisted_event ps' \<or> lines_collide cdc path ps ps'"
proof (induction ps arbitrary: ps' q rule: rev_induct)
  case Nil
  then have "ps' = []"
    using sealed_chain_last [of cdc path None ps' None] by auto
  then show ?case by simp
next
  case (snoc p ps)
  note IH = snoc.IH
  obtain m h where p: "sealed_chain cdc path None ps m" "q = Some h" "seals cdc path p m h"
    by (rule sealed_chain_snoc [OF snoc.prems(1)])
  with snoc.prems(2) obtain ps1 p1 where ps': "ps' = ps1 @ [p1]"
    by (cases ps' rule: rev_cases) auto
  obtain m1 h1 where p1: "sealed_chain cdc path None ps1 m1" "q = Some h1" "seals cdc path p1 m1 h1"
    using snoc.prems(2) unfolding ps' by (rule sealed_chain_snoc)
  show ?case
  proof (cases "(persisted_event p, m) = (persisted_event p1, m1)")
    case True
    then have "map persisted_event ps = map persisted_event ps1 \<or> lines_collide cdc path ps ps1"
      using IH [OF p(1), of ps1] p1(1) by simp
    with True ps' lines_collide_mono [of cdc path ps ps1 "ps @ [p]" "ps1 @ [p1]"] show ?thesis
      by auto
  next
    case False
    with p p1 ps' have "lines_collide cdc path (ps @ [p]) ps'"
      unfolding lines_collide_def by (metis in_set_conv_decomp option.inject)
    then show ?thesis ..
  qed
qed

definition protected_lines :: "journal_codec \<Rightarrow> string \<Rightarrow> persisted_audit_event list" where
  "protected_lines cdc content =
     (case decode_lines cdc (file_lines content) of None \<Rightarrow> [] | Some ps \<Rightarrow> protected_part ps)"

text \<open>
  C22: the tail hash commits to the history.  Two journals that verify and end in the same hash
  hold the same sequence of sealed events, unless the journals themselves exhibit a collision: a
  sealed line of the one and a sealed line of the other that carry the same hash for different
  pairs of an event and a predecessor hash.
\<close>

theorem equal_tail_hash_equal_history:
  assumes "verify_jsonl_audit_journal cdc path (on_disk a) = Inr r" "report_valid r"
    and "verify_jsonl_audit_journal cdc path (on_disk b) = Inr s" "report_valid s"
    and "report_last_entry_hash r = report_last_entry_hash s"
  shows "map persisted_event (protected_lines cdc a) = map persisted_event (protected_lines cdc b)
     \<or> lines_collide cdc path (protected_lines cdc a) (protected_lines cdc b)"
proof -
  obtain ps q where ps: "decode_lines cdc (file_lines a) = Some ps"
      "sealed_chain cdc path None (protected_part ps) q" "report_last_entry_hash r = q"
    using verify_on_disk [of cdc path a r] assms(1,2) by auto
  obtain ps' q' where ps': "decode_lines cdc (file_lines b) = Some ps'"
      "sealed_chain cdc path None (protected_part ps') q'" "report_last_entry_hash s = q'"
    using verify_on_disk [of cdc path b s] assms(3,4) by auto
  from sealed_chains_agree [OF ps(2), of "protected_part ps'"] ps ps' assms(5) show ?thesis
    by (simp add: protected_lines_def)
qed

text \<open>A journal with a legacy line in front and the same sealed events has the same tail hash.\<close>

theorem equal_tail_hash_equal_history_witness:
  "\<exists>r s. verify_jsonl_audit_journal mini_codec ''j'' (on_disk mini_repaired) = Inr r \<and> report_valid r
     \<and> verify_jsonl_audit_journal mini_codec ''j''
         (on_disk (''{evt-3|-|-|}'' @ [newline] @ mini_repaired)) = Inr s \<and> report_valid s
     \<and> (let ps = protected_lines mini_codec mini_repaired;
            qs = protected_lines mini_codec (''{evt-3|-|-|}'' @ [newline] @ mini_repaired) in
        map persisted_event ps = map persisted_event qs \<or> lines_collide mini_codec ''j'' ps qs)"
proof -
  have a: "verify_jsonl_audit_journal mini_codec ''j'' (on_disk mini_repaired)
      = Inr (valid_report 2 2 (Some ''hevt-2/hevt-1/~''))"
    by code_simp
  have b: "verify_jsonl_audit_journal mini_codec ''j''
      (on_disk (''{evt-3|-|-|}'' @ [newline] @ mini_repaired))
      = Inr (valid_report 3 2 (Some ''hevt-2/hevt-1/~''))"
    by code_simp
  let ?v = "\<lambda>t. valid_report t 2 (Some ''hevt-2/hevt-1/~'')"
  have v: "report_valid (?v 2)" "report_valid (?v 3)"
      "report_last_entry_hash (?v 2) = report_last_entry_hash (?v 3)"
    by simp_all
  from equal_tail_hash_equal_history [OF a v(1) b v(2,3)] a b v(1,2) show ?thesis
    unfolding Let_def by blast
qed

text \<open>After lines that verify, the loop goes on with the counts and the hash of their report.\<close>

lemma verify_lines_append:
  "verify_lines cdc path (map Inr xs) n t v prev started = Inr r \<Longrightarrow> report_valid r \<Longrightarrow>
     \<exists>started'. \<forall>ys. verify_lines cdc path (map Inr xs @ ys) n t v prev started
       = verify_lines cdc path ys (n + length xs) (total_events r) (verified_events r)
           (report_last_entry_hash r) started'"
proof (induction xs arbitrary: n t v prev started)
  case Nil
  then show ?case by auto
next
  case (Cons l ls)
  note prems = conjI [OF Cons.prems, simplified list.map]
  have "\<exists>t' v' prev' started'.
      verify_lines cdc path (map Inr ls) (n + 1) t' v' prev' started' = Inr r
      \<and> (\<forall>ys. verify_lines cdc path (Inr l # ys) n t v prev started
          = verify_lines cdc path ys (n + 1) t' v' prev' started')"
  proof (cases rule: journal_line_cases [where l = l and cdc = cdc])
    case blank
    with prems show ?thesis by (auto simp: verify_blank_line)
  next
    case garbled
    with prems show ?thesis by (simp add: verify_garbled_line)
  next
    case (old p)
    with verify_legacy_line [OF old, THEN iffD1, OF prems] show ?thesis
      by (intro exI [of _ "t + 1"] exI [of _ v] exI [of _ prev] exI [of _ False])
        (simp add: verify_lines.simps decode_persisted_audit_event_line_def)
  next
    case (sealed p i)
    with verify_sealed_line [OF sealed, THEN iffD1, OF prems] show ?thesis
      by (intro exI [of _ "t + 1"] exI [of _ "v + 1"] exI [of _ "Some (integrity_entry_hash i)"]
          exI [of _ True]) (simp add: verify_lines.simps decode_persisted_audit_event_line_def)
  qed
  then obtain t' v' prev' started' where
    rest: "verify_lines cdc path (map Inr ls) (n + 1) t' v' prev' started' = Inr r"
    and step: "\<And>ys. verify_lines cdc path (Inr l # ys) n t v prev started
        = verify_lines cdc path ys (n + 1) t' v' prev' started'"
    by blast
  from Cons.IH [OF rest Cons.prems(2)] show ?case by (simp add: step)
qed

lemma verify_mismatched_line:
  assumes "trim l \<noteq> []" and "persisted_from_str cdc l = Inr (event_with_integrity e prev h)"
    and "prev \<noteq> tail_hash"
  shows "verify_lines cdc path [Inr l] n t v tail_hash started =
     Inr (invalid_report (t + 1) v tail_hash n ''prev_hash mismatch'')"
proof -
  have "trim ''sha256'' = ''sha256''"
    by (rule trim_no_ws) (simp add: is_ws_def)
  with assms show ?thesis
    by (simp add: verify_lines.simps decode_persisted_audit_event_line_def event_with_integrity_def)
qed

text \<open>
  C34: two writers break the chain.  When two sinks are open on the same journal, one that verifies
  and is empty or ends in a newline, and each accepts one event, both report success, but the
  journal no longer verifies: the second new line does not name the hash of the first.  (The
  hypothesis that the first record changes the tail hash excludes an event whose SHA-256 entry hash
  equals the predecessor hash it covers.)
\<close>

theorem two_writers_break_chain:
  assumes laws: "codec_laws cdc" and full: "complete_journal content0"
    and valid: "verify_jsonl_audit_journal cdc path (on_disk content0) = Inr r" "report_valid r"
    and a: "jsonl_new cdc path oio (on_disk content0) = Inr sink_a"
    and b: "jsonl_new cdc path oio' (on_disk content0) = Inr sink_b"
    and rec_a: "jsonl_record cdc io (content0, sink_a) e = ((content, sink_a'), Inr ())"
    and rec_b: "jsonl_record cdc io' (content, sink_b) e' = ((content', sink_b'), Inr ())"
    and moved: "sink_last_entry_hash sink_a' \<noteq> sink_last_entry_hash sink_a"
  shows "\<exists>r'. verify_jsonl_audit_journal cdc path (on_disk content') = Inr r' \<and> \<not> report_valid r'
     \<and> first_invalid_line r' = Some (length (file_lines content0) + 2)
     \<and> report_reason r' = Some ''prev_hash mismatch''"
proof -
  have sync: "in_sync cdc (content0, sink_a)" "sink_path sink_a = path"
    using jsonl_new_in_sync [OF laws full valid a] by auto
  have same: "sink_path sink_b = path" "sink_last_entry_hash sink_b = sink_last_entry_hash sink_a"
    using a b by (auto simp: jsonl_new_def and_then_Inr)
  obtain h l where h: "compute_audit_event_entry_hash cdc path e (sink_last_entry_hash sink_a) = Inr h"
      "persisted_to_vec cdc (event_with_integrity e (sink_last_entry_hash sink_a) h) = Inr l"
      "content = content0 @ l @ [newline]" "sink_last_entry_hash sink_a' = Some h" "sink_path sink_a' = path"
    by (rule jsonl_record_Inr [OF rec_a]) (use sync in simp)
  obtain h' l' where h': "persisted_to_vec cdc (event_with_integrity e' (sink_last_entry_hash sink_a) h') = Inr l'"
      "content' = content @ l' @ [newline]"
    by (rule jsonl_record_Inr [OF rec_b]) (use same in simp)
  have sync': "in_sync cdc (content, sink_a')"
    by (rule jsonl_record_step(1) [OF sync(1) rec_a])
  then obtain ps where ps: "decode_lines cdc (file_lines content) = Some ps"
      "sealed_chain cdc path None (protected_part ps) (Some h)"
    using h(4,5) by (auto simp: in_sync_def)
  let ?r = "valid_report (length ps) (length (protected_part ps)) (Some h)"
  have "verify_lines cdc path (map Inr (file_lines content)) 1 0 0 None False = Inr ?r"
    using verify_fresh [of cdc path "file_lines content" 1 0 ?r] ps by fastforce
  then obtain started where go: "\<And>ys. verify_lines cdc path (map Inr (file_lines content) @ ys) 1 0 0 None False
      = verify_lines cdc path ys (1 + length (file_lines content)) (length ps)
          (length (protected_part ps)) (Some h) started"
    using verify_lines_append [of cdc path "file_lines content" 1 0 0 None False ?r] by auto
  note l = codec_line [OF laws h(2)] and l' = codec_line [OF laws h'(1)]
  have "file_lines content = file_lines content0 @ [l]"
    using file_lines_append_line [OF full l(2)] h(3) l(4) by simp
  moreover have "file_lines content' = file_lines content @ [l']"
    using file_lines_append_line [of content l'] sync' h'(2) l'(2,4) by (simp add: in_sync_def)
  ultimately have "verify_jsonl_audit_journal cdc path (on_disk content') = Inr (invalid_report
      (length ps + 1) (length (protected_part ps)) (Some h) (length (file_lines content0) + 2)
      ''prev_hash mismatch'')"
    using go [of "[Inr l']"] verify_mismatched_line [OF l'(3,1)] moved h(4)
    by (simp add: verify_jsonl_audit_journal_def on_disk_def)
  then show ?thesis by (simp add: invalid_report_def)
qed

theorem two_writers_break_chain_witness:
  "\<exists>content sink_a' content' sink_b' r.
     jsonl_record mini_codec healthy_io
       ([], \<lparr>sink_path = ''j'', sink_last_entry_hash = None, sink_journal_poisoned = False\<rparr>)
       (sample_event 1) = ((content, sink_a'), Inr ())
     \<and> jsonl_record mini_codec healthy_io
       (content, \<lparr>sink_path = ''j'', sink_last_entry_hash = None, sink_journal_poisoned = False\<rparr>)
       (sample_event 2) = ((content', sink_b'), Inr ())
     \<and> verify_jsonl_audit_journal mini_codec ''j'' (on_disk content') = Inr r \<and> \<not> report_valid r"
proof -
  let ?sink = "\<lparr>sink_path = ''j'', sink_last_entry_hash = None, sink_journal_poisoned = False\<rparr>"
  have new: "jsonl_new mini_codec ''j'' mini_io (on_disk []) = Inr ?sink"
    by code_simp
  have a: "jsonl_record mini_codec healthy_io ([], ?sink) (sample_event 1)
      = ((''{evt-1|~|hevt-1/~|}'' @ [newline], ?sink\<lparr>sink_last_entry_hash := Some ''hevt-1/~''\<rparr>), Inr ())"
    by code_simp
  have b: "jsonl_record mini_codec healthy_io (''{evt-1|~|hevt-1/~|}'' @ [newline], ?sink) (sample_event 2)
      = ((mini_tampered, ?sink\<lparr>sink_last_entry_hash := Some ''hevt-2/~''\<rparr>), Inr ())"
    by code_simp
  have valid: "verify_jsonl_audit_journal mini_codec ''j'' (on_disk []) = Inr (valid_report 0 0 None)"
    by (simp add: verify_jsonl_audit_journal_def on_disk_def)
  from two_writers_break_chain [OF mini_codec_laws complete_Nil valid report_simps(1) new new a b] a b
  show ?thesis by auto
qed

section \<open>A journal without a final newline\<close>

text \<open>
  \<open>serde_json::from_str\<close> accepts one document and reports trailing characters as an error, so a line
  that decodes, followed by another serialised event, does not decode.
\<close>

definition rejects_trailing :: "journal_codec \<Rightarrow> bool" where
  "rejects_trailing cdc \<longleftrightarrow>
     (\<forall>x p q l. persisted_from_str cdc x = Inr p \<longrightarrow> persisted_to_vec cdc q = Inr l \<longrightarrow>
        (\<exists>e. persisted_from_str cdc (x @ l) = Inl e))"

lemma file_lines_glued:
  assumes "\<not> complete_journal s" and "newline \<notin> set l" and "strip_cr (last (file_lines s) @ l) = last (file_lines s) @ l"
  shows "file_lines (s @ l @ [newline]) = butlast (file_lines s) @ [last (file_lines s) @ l]"
  using assms split_on_append_sep [of newline "s @ l" "[]"]
  by (simp add: file_lines_def Let_def complete_journal_def split_on_append_plain butlast_append)

lemma strip_cr_append: "l \<noteq> [] \<Longrightarrow> strip_cr l = l \<Longrightarrow> strip_cr (x @ l) = x @ l"
  by (cases l rule: rev_cases) (auto simp: strip_cr_def strip_suffix_def suffix_def split: if_splits)

lemma last_non_empty_line_snoc:
  "trim l \<noteq> [] \<Longrightarrow> last_non_empty_line path (map Inr (ls @ [l])) acc = Inr (Some l)"
  by (induction ls arbitrary: acc) simp_all

lemma decode_lines_garbled:
  "trim l \<noteq> [] \<Longrightarrow> persisted_from_str cdc l = Inl e \<Longrightarrow> decode_lines cdc (ls @ [l]) = None"
  by (simp add: decode_lines_append split: option.split)

text \<open>
  C35: a journal without a final newline swallows the next record.  When a journal verifies but
  its last line, not blank, is not terminated (the state that a write cut short just before the
  newline leaves), the next record that a sink accepts is glued to the last line: afterwards the
  journal does not verify and no sink can be opened on it.
\<close>

theorem unterminated_journal_swallows_record:
  assumes laws: "codec_laws cdc" "rejects_trailing cdc" and open_end: "\<not> complete_journal content"
    and line: "trim (last (file_lines content)) \<noteq> []"
    and valid: "verify_jsonl_audit_journal cdc path (on_disk content) = Inr r" "report_valid r"
    and rec: "jsonl_record cdc io (content, sink) e = ((content', sink'), Inr ())"
  shows "\<not> (\<exists>r'. verify_jsonl_audit_journal cdc path (on_disk content') = Inr r' \<and> report_valid r')
     \<and> (\<exists>err. jsonl_new cdc path oio (on_disk content') = Inl err)"
proof -
  obtain q l where l: "persisted_to_vec cdc q = Inr l" "content' = content @ l @ [newline]"
    by (rule jsonl_record_Inr [OF rec])
  note cl = codec_line [OF laws(1) l(1)]
  let ?x = "last (file_lines content)"
  have ne: "l \<noteq> []" using cl(3) by auto
  have lines: "file_lines content' = butlast (file_lines content) @ [?x @ l]"
    using file_lines_glued [OF open_end cl(2) strip_cr_append [OF ne cl(4)]] l(2) by simp
  have "file_lines content = butlast (file_lines content) @ [?x]"
    using open_end by (intro append_butlast_last_id [symmetric])
      (simp add: file_lines_def Let_def complete_journal_def)
  moreover have "\<exists>ps. decode_lines cdc (file_lines content) = Some ps"
    using verify_on_disk [of cdc path content r] valid by auto
  ultimately have "\<exists>ps. decode_lines cdc (butlast (file_lines content) @ [?x]) = Some ps"
    by simp
  then obtain p where "persisted_from_str cdc ?x = Inr p"
    using decode_lines_garbled [OF line, of cdc] by (cases "persisted_from_str cdc ?x") auto
  then obtain err where glued: "persisted_from_str cdc (?x @ l) = Inl err"
    using laws(2) l(1) unfolding rejects_trailing_def by blast
  have solid: "trim (?x @ l) \<noteq> []"
    using line by (auto simp: trim_Nil_iff)
  have "decode_lines cdc (file_lines content') = None"
    unfolding lines by (rule decode_lines_garbled [OF solid glued])
  moreover have "\<exists>err. load_last_audit_entry_hash cdc path (on_disk content') = Inl err"
    using last_non_empty_line_snoc [OF solid, of path "butlast (file_lines content)" None] glued
    by (simp add: load_last_audit_entry_hash_def on_disk_def lines decode_persisted_audit_event_line_def)
  ultimately show ?thesis
    using verify_on_disk [of cdc path content'] by (auto simp: jsonl_new_def and_then_def split: sum.split)
qed

lemma length_split_on: "length (split_on c s) = Suc (count_list s c)"
  by (induction s) (auto split: list.split)

lemma mini_parse_bars: "mini_parse l = Inr p \<Longrightarrow> count_list l (CHR ''|'') = 3"
  using length_split_on [of "CHR ''|''" l] by (auto simp: mini_parse_def split: list.splits)

lemma mini_codec_trailing: "rejects_trailing mini_codec"
proof -
  have "\<exists>e. mini_parse (x @ l) = Inl e" if "mini_parse x = Inr p" and "mini_parse l = Inr q" for x l p q
    using mini_parse_bars [OF that(1)] mini_parse_bars [OF that(2)] mini_parse_bars [of "x @ l"]
    by (cases "mini_parse (x @ l)") auto
  then show ?thesis
    by (auto simp: rejects_trailing_def mini_codec_def Let_def split: if_splits)
qed

theorem unterminated_journal_swallows_record_witness:
  "\<exists>content' sink' err.
     jsonl_record mini_codec healthy_io (''{evt-1|~|hevt-1/~|}'',
       \<lparr>sink_path = ''j'', sink_last_entry_hash = Some ''hevt-1/~'', sink_journal_poisoned = False\<rparr>)
       (sample_event 2) = ((content', sink'), Inr ())
     \<and> jsonl_new mini_codec ''j'' mini_io (on_disk content') = Inl err"
proof -
  let ?c = "''{evt-1|~|hevt-1/~|}''"
  let ?sink = "\<lparr>sink_path = ''j'', sink_last_entry_hash = Some ''hevt-1/~'', sink_journal_poisoned = False\<rparr>"
  have valid: "verify_jsonl_audit_journal mini_codec ''j'' (on_disk ?c)
      = Inr (valid_report 1 1 (Some ''hevt-1/~''))"
    by code_simp
  have open_end: "\<not> complete_journal ?c" and line: "trim (last (file_lines ?c)) \<noteq> []"
    by code_simp+
  have rec: "jsonl_record mini_codec healthy_io (?c, ?sink) (sample_event 2)
      = ((?c @ ''{evt-2|hevt-1/~|hevt-2/hevt-1/~|}'' @ [newline],
          ?sink\<lparr>sink_last_entry_hash := Some ''hevt-2/hevt-1/~''\<rparr>), Inr ())"
    by code_simp
  from unterminated_journal_swallows_record [OF mini_codec_laws mini_codec_trailing open_end line
      valid report_simps(1) rec] rec show ?thesis
    by blast
qed

end
