(* ===== verification/Adapter_Planes.thy ===== *)
theory Adapter_Planes
  imports Btree_Map Contract_Errors
begin

text \<open>
  The execution planes of the kernel: the harness broker (\<open>harness.rs\<close>) and the tool, runtime,
  memory and connector planes (\<open>tool.rs\<close>, \<open>runtime.rs\<close>, \<open>memory.rs\<close>, \<open>connector.rs\<close> under
  \<open>crates/kernel/src\<close>).  An adapter is a trait object that acts on the outside world: a function from
  a world (of type \<open>'w\<close>) and a request to a world and a result, where a result may also be a panic
  that unwinds into the caller.  The four planes have one shape, so their operations share the
  \<open>plane_\<close> definitions; the locale \<open>adapter_registry\<close> states the contract of the registry and is
  interpreted on each of them.
\<close>

section \<open>Adapters\<close>

record ('w, 'q, 'o, 'e) core_adapter =
  core_adapter_name :: string
  core_adapter_run :: "'w \<Rightarrow> 'q \<Rightarrow> 'w \<times> ('e failure + 'o)"

text \<open>An extension runs with the core adapter that the plane hands to it.\<close>

record ('w, 'q, 'o, 'xq, 'xo, 'e) extension_adapter =
  extension_adapter_name :: string
  extension_adapter_run ::
    "'w \<Rightarrow> 'xq \<Rightarrow> ('w, 'q, 'o, 'e) core_adapter \<Rightarrow> 'w \<times> ('e failure + 'xo)"

record ('c, 'x) adapter_plane =
  core_adapters :: "(string, 'c) btree_map"
  extension_adapters :: "(string, 'x) btree_map"
  default_core_adapter :: "string option"

type_synonym 'w tool_plane = "(('w, tool_core_request, plane_outcome, tool_plane_error) core_adapter,
  ('w, tool_core_request, plane_outcome, tool_extension_request, plane_outcome, tool_plane_error)
    extension_adapter) adapter_plane"

type_synonym 'w runtime_plane = "(('w, runtime_request, plane_outcome, runtime_plane_error) core_adapter,
  ('w, runtime_request, plane_outcome, runtime_request, plane_outcome, runtime_plane_error)
    extension_adapter) adapter_plane"

type_synonym 'w memory_plane = "(('w, memory_request, plane_outcome, memory_plane_error) core_adapter,
  ('w, memory_request, plane_outcome, memory_request, plane_outcome, memory_plane_error)
    extension_adapter) adapter_plane"

type_synonym 'w connector_plane =
  "(('w, connector_command, connector_outcome, connector_error) core_adapter,
    ('w, connector_command, connector_outcome, connector_command, connector_outcome, connector_error)
      extension_adapter) adapter_plane"

section \<open>Operations that the planes share\<close>

definition plane_new :: "('c, 'x) adapter_plane" where
  "plane_new = \<lparr>core_adapters = bt_empty, extension_adapters = bt_empty,
     default_core_adapter = None\<rparr>"

definition plane_register_core ::
    "('w, 'q, 'o, 'e) core_adapter \<Rightarrow> (('w, 'q, 'o, 'e) core_adapter, 'x) adapter_plane
       \<Rightarrow> (('w, 'q, 'o, 'e) core_adapter, 'x) adapter_plane" where
  "plane_register_core adapter p =
     (let name = core_adapter_name adapter;
          p' = (if default_core_adapter p = None then p\<lparr>default_core_adapter := Some name\<rparr> else p)
      in p'\<lparr>core_adapters := bt_insert name adapter (core_adapters p')\<rparr>)"

definition plane_register_extension ::
    "('w, 'q, 'o, 'xq, 'xo, 'e) extension_adapter
       \<Rightarrow> ('c, ('w, 'q, 'o, 'xq, 'xo, 'e) extension_adapter) adapter_plane
       \<Rightarrow> ('c, ('w, 'q, 'o, 'xq, 'xo, 'e) extension_adapter) adapter_plane" where
  "plane_register_extension adapter p =
     p\<lparr>extension_adapters := bt_insert (extension_adapter_name adapter) adapter (extension_adapters p)\<rparr>"

definition plane_set_default ::
    "(string \<Rightarrow> 'e) \<Rightarrow> string \<Rightarrow> ('c, 'x) adapter_plane \<Rightarrow> ('c, 'x) adapter_plane \<times> ('e + unit)" where
  "plane_set_default not_found name p =
     (if \<not> bt_contains_key (core_adapters p) name then (p, Inl (not_found name))
      else (p\<lparr>default_core_adapter := Some name\<rparr>, Inr ()))"

text \<open>The name that a call resolves to and the adapter under it.\<close>

definition resolve_core ::
    "'e \<Rightarrow> (string \<Rightarrow> 'e) \<Rightarrow> ('c, 'x) adapter_plane \<Rightarrow> string option \<Rightarrow> 'e + (string \<times> 'c)" where
  "resolve_core no_default not_found p core_name =
     and_then (case core_name of
                 Some name \<Rightarrow> Inr name
               | None \<Rightarrow> ok_or no_default (default_core_adapter p)) (\<lambda>resolved.
     and_then (ok_or (not_found resolved) (bt_get (core_adapters p) resolved)) (\<lambda>adapter.
       Inr (resolved, adapter)))"

definition plane_execute_core ::
    "'e \<Rightarrow> (string \<Rightarrow> 'e) \<Rightarrow> (('w, 'q, 'o, 'e) core_adapter, 'x) adapter_plane \<Rightarrow> 'w
       \<Rightarrow> string option \<Rightarrow> 'q \<Rightarrow> 'w \<times> ('e failure + 'o)" where
  "plane_execute_core no_default not_found p w core_name request =
     (case resolve_core no_default not_found p core_name of
        Inl e \<Rightarrow> (w, Inl (Error e))
      | Inr (_, adapter) \<Rightarrow> core_adapter_run adapter w request)"

definition plane_execute_extension ::
    "(string \<Rightarrow> 'e) \<Rightarrow> 'e \<Rightarrow> (string \<Rightarrow> 'e)
       \<Rightarrow> (('w, 'q, 'o, 'e) core_adapter, ('w, 'q, 'o, 'xq, 'xo, 'e) extension_adapter) adapter_plane
       \<Rightarrow> 'w \<Rightarrow> string \<Rightarrow> string option \<Rightarrow> 'xq \<Rightarrow> 'w \<times> ('e failure + 'xo)" where
  "plane_execute_extension ext_not_found no_default not_found p w extension_name core_name request =
     (case bt_get (extension_adapters p) extension_name of
        None \<Rightarrow> (w, Inl (Error (ext_not_found extension_name)))
      | Some extension \<Rightarrow>
          (case resolve_core no_default not_found p core_name of
             Inl e \<Rightarrow> (w, Inl (Error e))
           | Inr (_, core) \<Rightarrow> extension_adapter_run extension w request core))"

section \<open>The tool plane\<close>

datatype tool_concurrency_class = ReadOnly | Mutating | UnknownClass

fun concurrency_as_str :: "tool_concurrency_class \<Rightarrow> string" where
  "concurrency_as_str ReadOnly = ''read_only''"
| "concurrency_as_str Mutating = ''mutating''"
| "concurrency_as_str UnknownClass = ''unknown''"

definition requires_serial_execution :: "tool_concurrency_class \<Rightarrow> bool" where
  "requires_serial_execution c \<longleftrightarrow> c \<noteq> ReadOnly"

definition tool_set_default :: "string \<Rightarrow> 'w tool_plane \<Rightarrow> 'w tool_plane \<times> (tool_plane_error + unit)" where
  "tool_set_default = plane_set_default ToolCoreAdapterNotFound"

definition tool_execute_core ::
    "'w tool_plane \<Rightarrow> 'w \<Rightarrow> string option \<Rightarrow> tool_core_request
       \<Rightarrow> 'w \<times> (tool_plane_error failure + plane_outcome)" where
  "tool_execute_core = plane_execute_core ToolNoDefaultCoreAdapter ToolCoreAdapterNotFound"

definition tool_execute_extension ::
    "'w tool_plane \<Rightarrow> 'w \<Rightarrow> string \<Rightarrow> string option \<Rightarrow> tool_extension_request
       \<Rightarrow> 'w \<times> (tool_plane_error failure + plane_outcome)" where
  "tool_execute_extension = plane_execute_extension ToolExtensionNotFound
     ToolNoDefaultCoreAdapter ToolCoreAdapterNotFound"

section \<open>The runtime plane\<close>

definition runtime_set_default ::
    "string \<Rightarrow> 'w runtime_plane \<Rightarrow> 'w runtime_plane \<times> (runtime_plane_error + unit)" where
  "runtime_set_default = plane_set_default RuntimeCoreAdapterNotFound"

definition runtime_execute_core ::
    "'w runtime_plane \<Rightarrow> 'w \<Rightarrow> string option \<Rightarrow> runtime_request
       \<Rightarrow> 'w \<times> (runtime_plane_error failure + plane_outcome)" where
  "runtime_execute_core = plane_execute_core RuntimeNoDefaultCoreAdapter RuntimeCoreAdapterNotFound"

definition runtime_execute_extension ::
    "'w runtime_plane \<Rightarrow> 'w \<Rightarrow> string \<Rightarrow> string option \<Rightarrow> runtime_request
       \<Rightarrow> 'w \<times> (runtime_plane_error failure + plane_outcome)" where
  "runtime_execute_extension = plane_execute_extension RuntimeExtensionNotFound
     RuntimeNoDefaultCoreAdapter RuntimeCoreAdapterNotFound"

section \<open>The memory plane\<close>

definition memory_set_default ::
    "string \<Rightarrow> 'w memory_plane \<Rightarrow> 'w memory_plane \<times> (memory_plane_error + unit)" where
  "memory_set_default = plane_set_default MemoryCoreAdapterNotFound"

definition memory_execute_core ::
    "'w memory_plane \<Rightarrow> 'w \<Rightarrow> string option \<Rightarrow> memory_request
       \<Rightarrow> 'w \<times> (memory_plane_error failure + plane_outcome)" where
  "memory_execute_core = plane_execute_core MemoryNoDefaultCoreAdapter MemoryCoreAdapterNotFound"

definition memory_execute_extension ::
    "'w memory_plane \<Rightarrow> 'w \<Rightarrow> string \<Rightarrow> string option \<Rightarrow> memory_request
       \<Rightarrow> 'w \<times> (memory_plane_error failure + plane_outcome)" where
  "memory_execute_extension = plane_execute_extension MemoryExtensionNotFound
     MemoryNoDefaultCoreAdapter MemoryCoreAdapterNotFound"

section \<open>The connector plane\<close>

datatype connector_tier = ConnectorCore | ConnectorExtension

fun as_error_scope :: "connector_tier \<Rightarrow> string" where
  "as_error_scope ConnectorCore = ''connector core adapter''"
| "as_error_scope ConnectorExtension = ''connector extension adapter''"

fun extract_connector_panic_message :: "panic_payload \<Rightarrow> string option" where
  "extract_connector_panic_message (PanicString message) = Some message"
| "extract_connector_panic_message PanicOpaque = None"

definition format_connector_invocation_panic ::
    "string \<Rightarrow> connector_tier \<Rightarrow> panic_payload \<Rightarrow> string" where
  "format_connector_invocation_panic adapter_name tier payload =
     (case extract_connector_panic_message payload of
        Some message \<Rightarrow> as_error_scope tier @ '' `'' @ adapter_name @ ''` panicked: '' @ message
      | None \<Rightarrow> as_error_scope tier @ '' `'' @ adapter_name @ ''` panicked'')"

text \<open>\<open>catch_unwind\<close> around an invocation: a panic becomes an execution error.\<close>

definition execute_connector_invocation ::
    "string \<Rightarrow> connector_tier \<Rightarrow> 'w \<times> (connector_error failure + connector_outcome)
       \<Rightarrow> 'w \<times> (connector_error failure + connector_outcome)" where
  "execute_connector_invocation adapter_name tier invocation =
     (case invocation of
        (w, Inl (Panicked payload)) \<Rightarrow> (w, Inl (Error (ConnectorExecution
          (format_connector_invocation_panic adapter_name tier payload))))
      | (w, r) \<Rightarrow> (w, r))"

definition panic_isolated_core ::
    "string \<Rightarrow> ('w, connector_command, connector_outcome, connector_error) core_adapter
       \<Rightarrow> ('w, connector_command, connector_outcome, connector_error) core_adapter" where
  "panic_isolated_core adapter_name adapter =
     \<lparr>core_adapter_name = adapter_name,
      core_adapter_run = (\<lambda>w command. execute_connector_invocation adapter_name ConnectorCore
        (core_adapter_run adapter w command))\<rparr>"

definition connector_set_default ::
    "string \<Rightarrow> 'w connector_plane \<Rightarrow> 'w connector_plane \<times> (connector_error + unit)" where
  "connector_set_default = plane_set_default ConnectorCoreAdapterNotFound"

definition connector_invoke_core ::
    "'w connector_plane \<Rightarrow> 'w \<Rightarrow> string option \<Rightarrow> connector_command
       \<Rightarrow> 'w \<times> (connector_error failure + connector_outcome)" where
  "connector_invoke_core p w core_name command =
     (case resolve_core ConnectorNoDefaultCoreAdapter ConnectorCoreAdapterNotFound p core_name of
        Inl e \<Rightarrow> (w, Inl (Error e))
      | Inr (resolved, core) \<Rightarrow>
          execute_connector_invocation resolved ConnectorCore (core_adapter_run core w command))"

definition connector_invoke_extension ::
    "'w connector_plane \<Rightarrow> 'w \<Rightarrow> string \<Rightarrow> string option \<Rightarrow> connector_command
       \<Rightarrow> 'w \<times> (connector_error failure + connector_outcome)" where
  "connector_invoke_extension p w extension_name core_name command =
     (case bt_get (extension_adapters p) extension_name of
        None \<Rightarrow> (w, Inl (Error (ConnectorExtensionNotFound extension_name)))
      | Some extension \<Rightarrow>
          (case resolve_core ConnectorNoDefaultCoreAdapter ConnectorCoreAdapterNotFound p core_name of
             Inl e \<Rightarrow> (w, Inl (Error e))
           | Inr (resolved, core) \<Rightarrow>
               execute_connector_invocation extension_name ConnectorExtension
                 (extension_adapter_run extension w command (panic_isolated_core resolved core))))"

section \<open>The harness broker\<close>

record 'w harness_adapter =
  harness_adapter_name :: string
  harness_adapter_kind :: harness_kind
  harness_adapter_run :: "'w \<Rightarrow> harness_request \<Rightarrow> 'w \<times> (harness_error failure + harness_outcome)"

type_synonym 'w harness_broker = "(string, 'w harness_adapter) btree_map"

definition harness_register :: "'w harness_adapter \<Rightarrow> 'w harness_broker \<Rightarrow> 'w harness_broker" where
  "harness_register adapter b = bt_insert (harness_adapter_name adapter) adapter b"

definition harness_execute ::
    "'w harness_broker \<Rightarrow> 'w \<Rightarrow> execution_route \<Rightarrow> harness_request
       \<Rightarrow> 'w \<times> (harness_error failure + harness_outcome)" where
  "harness_execute b w route request =
     (case (case route_adapter route of
              Some adapter_name \<Rightarrow> ok_or (AdapterNotFound adapter_name) (bt_get b adapter_name)
            | None \<Rightarrow> ok_or (AdapterNotFound (''kind::'' @ harness_kind_debug (route_harness_kind route)))
                (find (\<lambda>a. harness_adapter_kind a = route_harness_kind route) (bt_values b))) of
        Inl e \<Rightarrow> (w, Inl (Error e))
      | Inr adapter \<Rightarrow>
          if harness_adapter_kind adapter \<noteq> route_harness_kind route then
            (w, Inl (Error (AdapterKindMismatch (harness_adapter_name adapter)
              (route_harness_kind route) (harness_adapter_kind adapter))))
          else harness_adapter_run adapter w request)"

section \<open>The contract of a registry\<close>

locale adapter_registry =
  fixes new :: "'p"
    and register_core :: "'c \<Rightarrow> 'p \<Rightarrow> 'p"
    and register_extension :: "'x \<Rightarrow> 'p \<Rightarrow> 'p"
    and set_default :: "string \<Rightarrow> 'p \<Rightarrow> 'p \<times> ('e + unit)"
    and default_name :: "'p \<Rightarrow> string option"
    and core :: "'p \<Rightarrow> string \<Rightarrow> 'c option"
    and name_of :: "'c \<Rightarrow> string"
    and ok :: "'p \<Rightarrow> bool"
  assumes ok_new: "ok new"
    and ok_register_core: "ok p \<Longrightarrow> ok (register_core a p)"
    and ok_register_extension: "ok p \<Longrightarrow> ok (register_extension x p)"
    and ok_set_default: "ok p \<Longrightarrow> ok (fst (set_default n p))"
    and core_new: "core new n = None" and default_new: "default_name new = None"
    and core_register: "ok p \<Longrightarrow> core (register_core a p) = (core p)(name_of a \<mapsto> a)"
    and core_register_extension: "core (register_extension x p) = core p"
    and core_set_default: "core (fst (set_default n p)) = core p"
    and default_register: "default_name (register_core a p) =
      (case default_name p of None \<Rightarrow> Some (name_of a) | Some n \<Rightarrow> Some n)"
    and default_register_extension: "default_name (register_extension x p) = default_name p"
    and default_set: "default_name (fst (set_default n p)) =
      (if core p n = None then default_name p else Some n)"
begin

text \<open>The planes that a sequence of operations builds.\<close>

inductive built :: "'p \<Rightarrow> bool" where
  built_new: "built new"
| built_core: "built p \<Longrightarrow> built (register_core a p)"
| built_extension: "built p \<Longrightarrow> built (register_extension x p)"
| built_default: "built p \<Longrightarrow> built (fst (set_default n p))"

lemma built_ok: "built p \<Longrightarrow> ok p"
  by (induction rule: built.induct)
    (auto intro: ok_new ok_register_core ok_register_extension ok_set_default)

lemma default_is_registered:
  "built p \<Longrightarrow> (case default_name p of None \<Rightarrow> \<forall>n. core p n = None | Some n \<Rightarrow> core p n \<noteq> None)"
proof (induction rule: built.induct)
  case built_new
  then show ?case by (simp add: core_new default_new)
next
  case (built_core p a)
  then show ?case
    by (auto simp: default_register core_register built_ok split: option.splits)
next
  case (built_extension p x)
  then show ?case
    by (simp add: default_register_extension core_register_extension split: option.splits)
next
  case (built_default p n)
  then show ?case by (auto simp: default_set core_set_default split: option.splits)
qed

end

definition plane_ok :: "('c, 'x) adapter_plane \<Rightarrow> bool" where
  "plane_ok p \<longleftrightarrow> bt_ok (core_adapters p) \<and> bt_ok (extension_adapters p)"

definition plane_core :: "('c, 'x) adapter_plane \<Rightarrow> string \<Rightarrow> 'c option" where
  "plane_core p = bt_get (core_adapters p)"

lemmas plane_defs = plane_ok_def plane_core_def plane_new_def plane_register_core_def Let_def
  plane_register_extension_def plane_set_default_def bt_contains_key_def

lemma plane_registry:
  "adapter_registry plane_new plane_register_core plane_register_extension
     (plane_set_default not_found) default_core_adapter plane_core core_adapter_name plane_ok"
  by unfold_locales (auto simp: plane_defs split: option.splits)

interpretation tool_registry: adapter_registry "plane_new :: 'w tool_plane" plane_register_core
    plane_register_extension tool_set_default default_core_adapter plane_core core_adapter_name plane_ok
  unfolding tool_set_default_def by (rule plane_registry)

interpretation runtime_registry: adapter_registry "plane_new :: 'w runtime_plane" plane_register_core
    plane_register_extension runtime_set_default default_core_adapter plane_core core_adapter_name plane_ok
  unfolding runtime_set_default_def by (rule plane_registry)

interpretation memory_registry: adapter_registry "plane_new :: 'w memory_plane" plane_register_core
    plane_register_extension memory_set_default default_core_adapter plane_core core_adapter_name plane_ok
  unfolding memory_set_default_def by (rule plane_registry)

interpretation connector_registry: adapter_registry "plane_new :: 'w connector_plane"
    plane_register_core plane_register_extension connector_set_default default_core_adapter
    plane_core core_adapter_name plane_ok
  unfolding connector_set_default_def by (rule plane_registry)

section \<open>Properties\<close>

lemma resolve_core_default:
  assumes "case default_core_adapter p of
      None \<Rightarrow> \<forall>n. plane_core p n = None | Some n \<Rightarrow> plane_core p n \<noteq> None"
  shows "resolve_core no_default not_found p None =
     (case default_core_adapter p of
        None \<Rightarrow> Inl no_default
      | Some n \<Rightarrow> Inr (n, the (plane_core p n)))"
  using assms by (auto simp: resolve_core_def plane_core_def split: option.splits)

text \<open>
  The default core adapter always exists.  On a tool, runtime, memory or connector plane built
  by any sequence of registrations and changes of the default, a call that names no core adapter is
  refused only when no default was ever set, and otherwise runs the registered default adapter: it
  never fails because the default is missing.
\<close>

theorem default_core_adapter_runs:
  assumes "tool_registry.built tp" "runtime_registry.built rp" "memory_registry.built mp"
    and "connector_registry.built cp"
  shows "tool_execute_core tp w None tq =
      (case default_core_adapter tp of
         None \<Rightarrow> (w, Inl (Error ToolNoDefaultCoreAdapter))
       | Some n \<Rightarrow> core_adapter_run (the (plane_core tp n)) w tq)
   \<and> runtime_execute_core rp w None rq =
      (case default_core_adapter rp of
         None \<Rightarrow> (w, Inl (Error RuntimeNoDefaultCoreAdapter))
       | Some n \<Rightarrow> core_adapter_run (the (plane_core rp n)) w rq)
   \<and> memory_execute_core mp w None mq =
      (case default_core_adapter mp of
         None \<Rightarrow> (w, Inl (Error MemoryNoDefaultCoreAdapter))
       | Some n \<Rightarrow> core_adapter_run (the (plane_core mp n)) w mq)
   \<and> connector_invoke_core cp w None cq =
      (case default_core_adapter cp of
         None \<Rightarrow> (w, Inl (Error ConnectorNoDefaultCoreAdapter))
       | Some n \<Rightarrow> execute_connector_invocation n ConnectorCore
           (core_adapter_run (the (plane_core cp n)) w cq))"
proof -
  note reg = resolve_core_default [OF tool_registry.default_is_registered [OF assms(1)]]
    resolve_core_default [OF runtime_registry.default_is_registered [OF assms(2)]]
    resolve_core_default [OF memory_registry.default_is_registered [OF assms(3)]]
    resolve_core_default [OF connector_registry.default_is_registered [OF assms(4)]]
  show ?thesis
    by (simp add: reg tool_execute_core_def runtime_execute_core_def memory_execute_core_def
        connector_invoke_core_def plane_execute_core_def split: option.split)
qed

text \<open>Adapters that count their calls, for concrete planes.\<close>

definition counting_core :: "string \<Rightarrow> 'o \<Rightarrow> (nat, 'q, 'o, 'e) core_adapter" where
  "counting_core name out = \<lparr>core_adapter_name = name, core_adapter_run = (\<lambda>w _. (Suc w, Inr out))\<rparr>"

theorem default_core_adapter_runs_witness:
  "tool_execute_core (plane_register_core (counting_core ''local'' \<lparr>out_status = ''ok'', out_payload = JNull\<rparr>)
       plane_new) 0 None \<lparr>tool_name = ''t'', tool_payload = JNull\<rparr>
     = (Suc 0, Inr \<lparr>out_status = ''ok'', out_payload = JNull\<rparr>)"
proof -
  let ?o = "\<lparr>out_status = ''ok'', out_payload = JNull\<rparr>"
  have built: "tool_registry.built (plane_register_core (counting_core ''local'' ?o) plane_new)"
      "runtime_registry.built plane_new" "memory_registry.built plane_new"
      "connector_registry.built plane_new"
    by (rule tool_registry.built_core tool_registry.built_new runtime_registry.built_new
        memory_registry.built_new connector_registry.built_new)+
  show ?thesis
    using default_core_adapter_runs [OF built, THEN conjunct1]
    by (simp add: plane_register_core_def plane_new_def plane_core_def counting_core_def Let_def
        bt_empty_ok)
qed

lemma invocation_no_panic [simp]:
  "snd (execute_connector_invocation n t r) \<noteq> Inl (Panicked payload)"
  by (auto simp: execute_connector_invocation_def split: prod.splits sum.splits failure.splits)

text \<open>
  A panic of a connector never leaves the connector plane.  Invoking a core adapter or an
  extension returns an outcome or a connector error, whatever the adapters do; and the core that an
  extension is handed does not panic either.
\<close>

theorem connector_panics_contained:
  "snd (connector_invoke_core p w core_name command) \<noteq> Inl (Panicked payload)
   \<and> snd (connector_invoke_extension p w extension_name core_name command) \<noteq> Inl (Panicked payload)
   \<and> snd (core_adapter_run (panic_isolated_core name core) w command) \<noteq> Inl (Panicked payload)"
  by (auto simp: connector_invoke_core_def connector_invoke_extension_def panic_isolated_core_def
      split: sum.splits option.splits)

lemma find_filter: "find P xs = (case filter P xs of [] \<Rightarrow> None | x # _ \<Rightarrow> Some x)"
  by (induction xs) auto

text \<open>
  The broker runs only an adapter of the kind that the route asks for.  A named adapter of
  another kind is refused before it runs; without a name the broker picks the first adapter of the
  right kind in the order of the names, so that the mismatch error cannot arise there.
\<close>

theorem harness_runs_matching_kind:
  "harness_execute b w route request =
     (case route_adapter route of
        Some n \<Rightarrow>
          (case bt_get b n of
             None \<Rightarrow> (w, Inl (Error (AdapterNotFound n)))
           | Some a \<Rightarrow>
               if harness_adapter_kind a = route_harness_kind route then harness_adapter_run a w request
               else (w, Inl (Error (AdapterKindMismatch (harness_adapter_name a)
                 (route_harness_kind route) (harness_adapter_kind a)))))
      | None \<Rightarrow>
          (case filter (\<lambda>a. harness_adapter_kind a = route_harness_kind route) (bt_values b) of
             [] \<Rightarrow> (w, Inl (Error (AdapterNotFound
               (''kind::'' @ harness_kind_debug (route_harness_kind route)))))
           | a # _ \<Rightarrow> harness_adapter_run a w request))"
proof (cases "route_adapter route")
  case None
  let ?right = "\<lambda>a. harness_adapter_kind a = route_harness_kind route"
  show ?thesis
  proof (cases "filter ?right (bt_values b)")
    case Nil
    then have "find ?right (bt_values b) = None"
      by (simp add: find_filter)
    with None Nil show ?thesis
      by (simp add: harness_execute_def)
  next
    case (Cons a as)
    then have "find ?right (bt_values b) = Some a"
      by (simp add: find_filter)
    moreover have "?right a"
      using arg_cong [OF Cons, of set] by auto
    ultimately show ?thesis
      using None Cons by (simp add: harness_execute_def)
  qed
qed (simp add: harness_execute_def split: option.split)

end
