(* ===== verification/Kernel_Core.thy ===== *)
theory Kernel_Core
  imports Policy_Extension Adapter_Planes Audit_Sink
begin

text \<open>
  \<open>LoongKernel\<close> of \<open>crates/kernel/src/kernel.rs\<close>.  The record \<open>loong_kernel\<close> has the fields of the
  struct; the policy engine and the audit sink are trait objects, each a record or function of
  operations with a state of its own (types \<open>'p\<close> and \<open>'a\<close>), and \<open>world\<close> is everything that the
  adapters act on and the clock and the extensions read.  Every operation takes a kernel and returns
  a kernel with a result, so that what a refused call leaves behind can be stated.
\<close>

section \<open>The kernel\<close>

record ('p, 'a, 'w) loong_kernel =
  engine :: "'p policy_engine"
  policy :: 'p
  packs :: "(string, vertical_pack_manifest) btree_map"
  namespaces :: "(string, namespace) btree_map"
  harness :: "'w harness_broker"
  connector_plane :: "'w connector_plane"
  runtime_plane :: "'w runtime_plane"
  tool_plane :: "'w tool_plane"
  memory_plane :: "'w memory_plane"
  policy_extensions :: "'w policy_extension_chain"
  clock :: "'w \<Rightarrow> u64"
  sink :: "'a \<Rightarrow> audit_event \<Rightarrow> 'a \<times> sink_result"
  audit :: 'a
  event_seq :: u64
  world :: 'w

type_synonym ('p, 'a, 'w, 'r) kernel_result =
  "('p, 'a, 'w) loong_kernel \<times> (kernel_error failure + 'r)"

record kernel_dispatch =
  adapter_route :: execution_route
  dispatch_outcome :: harness_outcome

record connector_dispatch =
  dispatch_connector_name :: string
  connector_dispatch_outcome :: connector_outcome

record plane_invocation_record =
  inv_timestamp :: u64
  inv_agent_id :: string
  inv_pack_id :: string
  inv_plane :: execution_plane
  inv_tier :: plane_tier
  inv_primary_adapter :: string
  inv_delegated_core_adapter :: "string option"
  inv_operation :: string
  inv_required_capabilities :: "capability set"

definition with_runtime ::
    "'p policy_engine \<Rightarrow> 'p \<Rightarrow> ('w \<Rightarrow> u64) \<Rightarrow> ('a \<Rightarrow> audit_event \<Rightarrow> 'a \<times> sink_result) \<Rightarrow> 'a \<Rightarrow> 'w
       \<Rightarrow> ('p, 'a, 'w) loong_kernel" where
  "with_runtime pe p clk snk a w =
     \<lparr>engine = pe, policy = p, packs = bt_empty, namespaces = bt_empty, harness = bt_empty,
      connector_plane = plane_new, runtime_plane = plane_new, tool_plane = plane_new,
      memory_plane = plane_new, policy_extensions = chain_new, clock = clk, sink = snk, audit = a,
      event_seq = 0, world = w\<rparr>"

definition new_with_in_memory_audit ::
    "'p policy_engine \<Rightarrow> 'p \<Rightarrow> ('w \<Rightarrow> u64) \<Rightarrow> 'w \<Rightarrow> ('p, in_memory_audit_sink, 'w) loong_kernel" where
  "new_with_in_memory_audit pe p clk w =
     with_runtime pe p clk in_memory_record in_memory_default w"

definition new_without_audit ::
    "'p policy_engine \<Rightarrow> 'p \<Rightarrow> ('w \<Rightarrow> u64) \<Rightarrow> 'w \<Rightarrow> ('p, unit, 'w) loong_kernel" where
  "new_without_audit pe p clk w = with_runtime pe p clk noop_record () w"

section \<open>Registration\<close>

definition register_pack ::
    "(string \<Rightarrow> bool) \<Rightarrow> vertical_pack_manifest \<Rightarrow> ('p, 'a, 'w) loong_kernel
       \<Rightarrow> ('p, 'a, 'w, unit) kernel_result" where
  "register_pack semver_ok pack k =
     (case pack_validate semver_ok pack of
        Inl e \<Rightarrow> (k, Inl (Error (KPack e)))
      | Inr _ \<Rightarrow>
          if bt_contains_key (packs k) (pack_id pack) then
            (k, Inl (Error (DuplicatePack (pack_id pack))))
          else
            let ns = \<lparr>ns_pack_id = pack_id pack, ns_domain = pack_domain pack,
                      ns_membrane = pack_id pack, ns_default_route = default_route pack,
                      ns_granted_capabilities = granted_capabilities pack\<rparr>
            in (k\<lparr>namespaces := bt_insert (pack_id pack) ns (namespaces k),
                  packs := bt_insert (pack_id pack) pack (packs k)\<rparr>, Inr ()))"

definition get_namespace :: "('p, 'a, 'w) loong_kernel \<Rightarrow> string \<Rightarrow> namespace option" where
  "get_namespace k pid = bt_get (namespaces k) pid"

definition register_policy_extension ::
    "'w policy_extension \<Rightarrow> ('p, 'a, 'w) loong_kernel \<Rightarrow> ('p, 'a, 'w) loong_kernel" where
  "register_policy_extension ext k =
     k\<lparr>policy_extensions := chain_register (policy_extensions k) ext\<rparr>"

definition register_harness_adapter ::
    "'w harness_adapter \<Rightarrow> ('p, 'a, 'w) loong_kernel \<Rightarrow> ('p, 'a, 'w) loong_kernel" where
  "register_harness_adapter a k = k\<lparr>harness := harness_register a (harness k)\<rparr>"

text \<open>
  The registrations of the planes hand the adapter to the plane; a change of the default reports
  the error of the plane as a kernel error.
\<close>

definition with_plane_result ::
    "('q \<Rightarrow> 'k) \<Rightarrow> ('e \<Rightarrow> kernel_error) \<Rightarrow> 'q \<times> ('e + unit) \<Rightarrow> 'k \<times> (kernel_error failure + unit)" where
  "with_plane_result put wrap r = (case r of (p, res) \<Rightarrow> (put p, map_err (\<lambda>e. Error (wrap e)) res))"

definition register_core_connector_adapter where
  "register_core_connector_adapter a (k :: ('p, 'a, 'w) loong_kernel) =
     k\<lparr>connector_plane := plane_register_core a (connector_plane k)\<rparr>"

definition register_connector_extension_adapter where
  "register_connector_extension_adapter a (k :: ('p, 'a, 'w) loong_kernel) =
     k\<lparr>connector_plane := plane_register_extension a (connector_plane k)\<rparr>"

definition set_default_core_connector_adapter ::
    "string \<Rightarrow> ('p, 'a, 'w) loong_kernel \<Rightarrow> ('p, 'a, 'w, unit) kernel_result" where
  "set_default_core_connector_adapter name k =
     with_plane_result (\<lambda>p. k\<lparr>connector_plane := p\<rparr>) KConnector
       (connector_set_default name (connector_plane k))"

definition register_core_runtime_adapter where
  "register_core_runtime_adapter a (k :: ('p, 'a, 'w) loong_kernel) =
     k\<lparr>runtime_plane := plane_register_core a (runtime_plane k)\<rparr>"

definition register_runtime_extension_adapter where
  "register_runtime_extension_adapter a (k :: ('p, 'a, 'w) loong_kernel) =
     k\<lparr>runtime_plane := plane_register_extension a (runtime_plane k)\<rparr>"

definition set_default_core_runtime_adapter ::
    "string \<Rightarrow> ('p, 'a, 'w) loong_kernel \<Rightarrow> ('p, 'a, 'w, unit) kernel_result" where
  "set_default_core_runtime_adapter name k =
     with_plane_result (\<lambda>p. k\<lparr>runtime_plane := p\<rparr>) KRuntimePlane
       (runtime_set_default name (runtime_plane k))"

definition register_core_tool_adapter where
  "register_core_tool_adapter a (k :: ('p, 'a, 'w) loong_kernel) =
     k\<lparr>tool_plane := plane_register_core a (tool_plane k)\<rparr>"

definition register_tool_extension_adapter where
  "register_tool_extension_adapter a (k :: ('p, 'a, 'w) loong_kernel) =
     k\<lparr>tool_plane := plane_register_extension a (tool_plane k)\<rparr>"

definition set_default_core_tool_adapter ::
    "string \<Rightarrow> ('p, 'a, 'w) loong_kernel \<Rightarrow> ('p, 'a, 'w, unit) kernel_result" where
  "set_default_core_tool_adapter name k =
     with_plane_result (\<lambda>p. k\<lparr>tool_plane := p\<rparr>) KToolPlane (tool_set_default name (tool_plane k))"

definition register_core_memory_adapter where
  "register_core_memory_adapter a (k :: ('p, 'a, 'w) loong_kernel) =
     k\<lparr>memory_plane := plane_register_core a (memory_plane k)\<rparr>"

definition register_memory_extension_adapter where
  "register_memory_extension_adapter a (k :: ('p, 'a, 'w) loong_kernel) =
     k\<lparr>memory_plane := plane_register_extension a (memory_plane k)\<rparr>"

definition set_default_core_memory_adapter ::
    "string \<Rightarrow> ('p, 'a, 'w) loong_kernel \<Rightarrow> ('p, 'a, 'w, unit) kernel_result" where
  "set_default_core_memory_adapter name k =
     with_plane_result (\<lambda>p. k\<lparr>memory_plane := p\<rparr>) KMemoryPlane
       (memory_set_default name (memory_plane k))"

section \<open>Audit\<close>

definition new_event ::
    "u64 \<Rightarrow> string option \<Rightarrow> audit_event_kind \<Rightarrow> ('p, 'a, 'w) loong_kernel
       \<Rightarrow> ('p, 'a, 'w) loong_kernel \<times> audit_event" where
  "new_event now agent kind k =
     (let s = event_seq k in
      (k\<lparr>event_seq := s + 1\<rparr>,
       \<lparr>event_id = ''evt-'' @ hex16 (s + 1), timestamp_epoch_s = now, event_agent_id = agent,
        event_kind = kind\<rparr>))"

fun audit_failure :: "audit_error failure \<Rightarrow> kernel_error failure" where
  "audit_failure (Error e) = Error (KAudit e)"
| "audit_failure (Panicked payload) = Panicked payload"

text \<open>\<open>self.audit.record(self.new_event(...))?\<close>, as every operation calls it.\<close>

definition emit ::
    "u64 \<Rightarrow> string option \<Rightarrow> audit_event_kind \<Rightarrow> ('p, 'a, 'w) loong_kernel
       \<Rightarrow> ('p, 'a, 'w, unit) kernel_result" where
  "emit now agent kind k =
     (case new_event now agent kind k of (k', ev) \<Rightarrow>
      (case sink k' (audit k') ev of (a', r) \<Rightarrow> (k'\<lparr>audit := a'\<rparr>, map_err audit_failure r)))"

definition record_audit_event ::
    "string option \<Rightarrow> audit_event_kind \<Rightarrow> ('p, 'a, 'w) loong_kernel
       \<Rightarrow> ('p, 'a, 'w, unit) kernel_result" where
  "record_audit_event agent kind k = emit (clock k (world k)) agent kind k"

definition record_plane_invocation ::
    "plane_invocation_record \<Rightarrow> ('p, 'a, 'w) loong_kernel \<Rightarrow> ('p, 'a, 'w, unit) kernel_result" where
  "record_plane_invocation r k =
     emit (inv_timestamp r) (Some (inv_agent_id r))
       (PlaneInvoked (inv_pack_id r) (inv_plane r) (inv_tier r) (inv_primary_adapter r)
         (inv_delegated_core_adapter r) (inv_operation r)
         (caps_iter (inv_required_capabilities r))) k"

section \<open>Authorization\<close>

definition get_pack ::
    "string \<Rightarrow> ('p, 'a, 'w) loong_kernel \<Rightarrow> ('p, 'a, 'w, vertical_pack_manifest) kernel_result" where
  "get_pack pid k = (k, ok_or (Error (PackNotFound pid)) (bt_get (packs k) pid))"

definition assert_pack_grants ::
    "vertical_pack_manifest \<Rightarrow> capability set \<Rightarrow> kernel_error failure + unit" where
  "assert_pack_grants pack required =
     (case find (\<lambda>c. \<not> pack_grants pack c) (caps_iter required) of
        Some c \<Rightarrow> Inl (Error (PackCapabilityBoundary (pack_id pack) c))
      | None \<Rightarrow> Inr ())"

definition assert_connector_allowed ::
    "vertical_pack_manifest \<Rightarrow> string \<Rightarrow> kernel_error failure + unit" where
  "assert_connector_allowed pack connector_name =
     (if \<not> allows_connector pack connector_name then
        Inl (Error (ConnectorNotAllowed connector_name (pack_id pack)))
      else Inr ())"

definition audit_denial ::
    "vertical_pack_manifest \<Rightarrow> capability_token \<Rightarrow> u64 \<Rightarrow> policy_error \<Rightarrow> ('p, 'a, 'w) loong_kernel
       \<Rightarrow> ('p, 'a, 'w, 'r) kernel_result" where
  "audit_denial pack token now e k =
     try_bind (emit now (Some (token_agent_id token))
         (AuthorizationDenied (pack_id pack) (token_id token) (policy_error_display e)) k) (\<lambda>k' _.
       (k', Inl (Error (KPolicy e))))"

definition authorize_or_audit_denial ::
    "vertical_pack_manifest \<Rightarrow> capability_token \<Rightarrow> u64 \<Rightarrow> capability set \<Rightarrow> json option
       \<Rightarrow> ('p, 'a, 'w) loong_kernel \<Rightarrow> ('p, 'a, 'w, unit) kernel_result" where
  "authorize_or_audit_denial pack token now required params k =
     (case pe_authorize (engine k) (policy k) token (pack_id pack) now required of
        Inl e \<Rightarrow> audit_denial pack token now e k
      | Inr _ \<Rightarrow>
          (case chain_authorize (world k) (policy_extensions k)
              \<lparr>ctx_pack = pack, ctx_token = token, ctx_now_epoch_s = now,
               ctx_required_capabilities = required, ctx_request_parameters = params\<rparr> of
             Inl e \<Rightarrow> audit_denial pack token now e k
           | Inr _ \<Rightarrow> (k, Inr ())))"

definition authorize_pack_operation ::
    "vertical_pack_manifest \<Rightarrow> capability_token \<Rightarrow> capability set \<Rightarrow> json option
       \<Rightarrow> ('p, 'a, 'w) loong_kernel \<Rightarrow> ('p, 'a, 'w, u64) kernel_result" where
  "authorize_pack_operation pack token required params k =
     try_bind (k, assert_pack_grants pack required) (\<lambda>k _.
     let now = clock k (world k) in
     try_bind (authorize_or_audit_denial pack token now required params k) (\<lambda>k _.
       (k, Inr now)))"

section \<open>Tokens\<close>

fun policy_failure :: "policy_error + 'r \<Rightarrow> kernel_error failure + 'r" where
  "policy_failure (Inl e) = Inl (Error (KPolicy e))"
| "policy_failure (Inr r) = Inr r"

definition issue_pack_token ::
    "vertical_pack_manifest \<Rightarrow> string \<Rightarrow> u64 \<Rightarrow> ('p, 'a, 'w) loong_kernel
       \<Rightarrow> ('p, 'a, 'w, capability_token) kernel_result" where
  "issue_pack_token pack agent ttl k =
     (let now = clock k (world k) in
      case pe_issue_token (engine k) (policy k) pack agent now ttl of (p', r) \<Rightarrow>
      try_bind (k\<lparr>policy := p'\<rparr>, policy_failure r) (\<lambda>k token.
      try_bind (emit now (Some agent) (TokenIssued token) k) (\<lambda>k _. (k, Inr token))))"

definition kernel_issue_token ::
    "string \<Rightarrow> string \<Rightarrow> u64 \<Rightarrow> ('p, 'a, 'w) loong_kernel
       \<Rightarrow> ('p, 'a, 'w, capability_token) kernel_result" where
  "kernel_issue_token pid agent ttl k =
     try_bind (get_pack pid k) (\<lambda>k pack. issue_pack_token pack agent ttl k)"

definition issue_scoped_token ::
    "string \<Rightarrow> string \<Rightarrow> capability set \<Rightarrow> u64 \<Rightarrow> ('p, 'a, 'w) loong_kernel
       \<Rightarrow> ('p, 'a, 'w, capability_token) kernel_result" where
  "issue_scoped_token pid agent allowed ttl k =
     try_bind (get_pack pid k) (\<lambda>k pack.
     try_bind (k, assert_pack_grants pack allowed) (\<lambda>k _.
       issue_pack_token (pack\<lparr>granted_capabilities := allowed\<rparr>) agent ttl k))"

definition kernel_revoke_token ::
    "string \<Rightarrow> string option \<Rightarrow> ('p, 'a, 'w) loong_kernel \<Rightarrow> ('p, 'a, 'w, unit) kernel_result" where
  "kernel_revoke_token tid actor k =
     (case pe_revoke_token (engine k) (policy k) tid of (p', r) \<Rightarrow>
      try_bind (k\<lparr>policy := p'\<rparr>, policy_failure r) (\<lambda>k _.
        emit (clock k (world k)) actor (TokenRevoked tid) k))"

definition kernel_revoke_generation ::
    "u64 \<Rightarrow> ('p, 'a, 'w) loong_kernel \<Rightarrow> ('p, 'a, 'w) loong_kernel" where
  "kernel_revoke_generation below k =
     k\<lparr>policy := pe_revoke_generation (engine k) (policy k) below\<rparr>"

section \<open>Governed execution\<close>

fun lift_failure :: "('e \<Rightarrow> kernel_error) \<Rightarrow> 'e failure \<Rightarrow> kernel_error failure" where
  "lift_failure wrap (Error e) = Error (wrap e)"
| "lift_failure wrap (Panicked payload) = Panicked payload"

text \<open>An adapter call: the world it leaves, and its error as a kernel error.\<close>

definition run_adapter ::
    "('e \<Rightarrow> kernel_error) \<Rightarrow> ('p, 'a, 'w) loong_kernel \<Rightarrow> 'w \<times> ('e failure + 'r)
       \<Rightarrow> ('p, 'a, 'w, 'r) kernel_result" where
  "run_adapter wrap k wr = (case wr of (w, r) \<Rightarrow> (k\<lparr>world := w\<rparr>, map_err (lift_failure wrap) r))"

definition resolved_core_adapter :: "string option \<Rightarrow> string option \<Rightarrow> string" where
  "resolved_core_adapter core_name default_name =
     (case core_name of
        Some n \<Rightarrow> n
      | None \<Rightarrow> (case default_name of Some n \<Rightarrow> n | None \<Rightarrow> ''default''))"

definition authorize_operation ::
    "string \<Rightarrow> capability_token \<Rightarrow> execution_plane \<Rightarrow> plane_tier \<Rightarrow> string \<Rightarrow> string option \<Rightarrow> string
       \<Rightarrow> capability set \<Rightarrow> ('p, 'a, 'w) loong_kernel \<Rightarrow> ('p, 'a, 'w, unit) kernel_result" where
  "authorize_operation pid token plane tier primary delegated operation required k =
     try_bind (get_pack pid k) (\<lambda>k pack.
     try_bind (authorize_pack_operation pack token required None k) (\<lambda>k now.
     record_plane_invocation
       \<lparr>inv_timestamp = now, inv_agent_id = token_agent_id token, inv_pack_id = pack_id pack,
        inv_plane = plane, inv_tier = tier, inv_primary_adapter = primary,
        inv_delegated_core_adapter = delegated, inv_operation = operation,
        inv_required_capabilities = required\<rparr> k))"

definition execute_task ::
    "string \<Rightarrow> capability_token \<Rightarrow> task_intent \<Rightarrow> ('p, 'a, 'w) loong_kernel
       \<Rightarrow> ('p, 'a, 'w, kernel_dispatch) kernel_result" where
  "execute_task pid token task k =
     try_bind (get_pack pid k) (\<lambda>k pack.
     try_bind (authorize_pack_operation pack token (intent_required_capabilities task) None k) (\<lambda>k now.
     let request = \<lparr>hreq_token_id = token_id token, hreq_pack_id = pack_id pack,
           hreq_agent_id = token_agent_id token, hreq_task_id = intent_task_id task,
           hreq_objective = intent_objective task, hreq_payload = intent_payload task\<rparr>;
         route = default_route pack in
     try_bind (run_adapter KHarness k (harness_execute (harness k) (world k) route request)) (\<lambda>k outcome.
     try_bind (emit now (Some (token_agent_id token))
         (TaskDispatched (pack_id pack) (intent_task_id task) route
           (caps_iter (intent_required_capabilities task))) k) (\<lambda>k _.
       (k, Inr \<lparr>adapter_route = route, dispatch_outcome = outcome\<rparr>)))))"

definition execute_connector_core ::
    "string \<Rightarrow> capability_token \<Rightarrow> string option \<Rightarrow> connector_command \<Rightarrow> ('p, 'a, 'w) loong_kernel
       \<Rightarrow> ('p, 'a, 'w, connector_dispatch) kernel_result" where
  "execute_connector_core pid token core_name command k =
     try_bind (get_pack pid k) (\<lambda>k pack.
     try_bind (k, assert_connector_allowed pack (cmd_connector_name command)) (\<lambda>k _.
     try_bind (authorize_pack_operation pack token (cmd_required_capabilities command) None k) (\<lambda>k now.
     let resolved = resolved_core_adapter core_name (default_core_adapter (connector_plane k)) in
     try_bind (run_adapter KConnector k
         (connector_invoke_core (connector_plane k) (world k) core_name command)) (\<lambda>k outcome.
     try_bind (emit now (Some (token_agent_id token))
         (ConnectorInvoked (pack_id pack) (cmd_connector_name command) (cmd_operation command)
           (caps_iter (cmd_required_capabilities command))) k) (\<lambda>k _.
     try_bind (record_plane_invocation
         \<lparr>inv_timestamp = now, inv_agent_id = token_agent_id token, inv_pack_id = pack_id pack,
          inv_plane = PlaneConnector, inv_tier = TierCore, inv_primary_adapter = resolved,
          inv_delegated_core_adapter = None, inv_operation = cmd_operation command,
          inv_required_capabilities = cmd_required_capabilities command\<rparr> k) (\<lambda>k _.
       (k, Inr \<lparr>dispatch_connector_name = cmd_connector_name command,
                connector_dispatch_outcome = outcome\<rparr>)))))))"

definition execute_connector_extension ::
    "string \<Rightarrow> capability_token \<Rightarrow> string \<Rightarrow> string option \<Rightarrow> connector_command
       \<Rightarrow> ('p, 'a, 'w) loong_kernel \<Rightarrow> ('p, 'a, 'w, connector_dispatch) kernel_result" where
  "execute_connector_extension pid token extension_name core_name command k =
     try_bind (get_pack pid k) (\<lambda>k pack.
     try_bind (k, assert_connector_allowed pack (cmd_connector_name command)) (\<lambda>k _.
     try_bind (authorize_pack_operation pack token (cmd_required_capabilities command) None k) (\<lambda>k now.
     let resolved = resolved_core_adapter core_name (default_core_adapter (connector_plane k)) in
     try_bind (run_adapter KConnector k
         (connector_invoke_extension (connector_plane k) (world k) extension_name core_name command))
       (\<lambda>k outcome.
     try_bind (emit now (Some (token_agent_id token))
         (ConnectorInvoked (pack_id pack) (cmd_connector_name command) (cmd_operation command)
           (caps_iter (cmd_required_capabilities command))) k) (\<lambda>k _.
     try_bind (record_plane_invocation
         \<lparr>inv_timestamp = now, inv_agent_id = token_agent_id token, inv_pack_id = pack_id pack,
          inv_plane = PlaneConnector, inv_tier = TierExtension, inv_primary_adapter = extension_name,
          inv_delegated_core_adapter = Some resolved, inv_operation = cmd_operation command,
          inv_required_capabilities = cmd_required_capabilities command\<rparr> k) (\<lambda>k _.
       (k, Inr \<lparr>dispatch_connector_name = cmd_connector_name command,
                connector_dispatch_outcome = outcome\<rparr>)))))))"

definition execute_runtime_core ::
    "string \<Rightarrow> capability_token \<Rightarrow> capability set \<Rightarrow> string option \<Rightarrow> runtime_request
       \<Rightarrow> ('p, 'a, 'w) loong_kernel \<Rightarrow> ('p, 'a, 'w, plane_outcome) kernel_result" where
  "execute_runtime_core pid token required core_name request k =
     try_bind (get_pack pid k) (\<lambda>k pack.
     try_bind (authorize_pack_operation pack token required None k) (\<lambda>k now.
     let resolved = resolved_core_adapter core_name (default_core_adapter (runtime_plane k)) in
     try_bind (run_adapter KRuntimePlane k
         (runtime_execute_core (runtime_plane k) (world k) core_name request)) (\<lambda>k outcome.
     try_bind (record_plane_invocation
         \<lparr>inv_timestamp = now, inv_agent_id = token_agent_id token, inv_pack_id = pack_id pack,
          inv_plane = PlaneRuntime, inv_tier = TierCore, inv_primary_adapter = resolved,
          inv_delegated_core_adapter = None, inv_operation = runtime_action request,
          inv_required_capabilities = required\<rparr> k) (\<lambda>k _.
       (k, Inr outcome)))))"

definition execute_runtime_extension ::
    "string \<Rightarrow> capability_token \<Rightarrow> capability set \<Rightarrow> string \<Rightarrow> string option \<Rightarrow> runtime_request
       \<Rightarrow> ('p, 'a, 'w) loong_kernel \<Rightarrow> ('p, 'a, 'w, plane_outcome) kernel_result" where
  "execute_runtime_extension pid token required extension_name core_name request k =
     try_bind (get_pack pid k) (\<lambda>k pack.
     try_bind (authorize_pack_operation pack token required None k) (\<lambda>k now.
     let resolved = resolved_core_adapter core_name (default_core_adapter (runtime_plane k)) in
     try_bind (run_adapter KRuntimePlane k
         (runtime_execute_extension (runtime_plane k) (world k) extension_name core_name request))
       (\<lambda>k outcome.
     try_bind (record_plane_invocation
         \<lparr>inv_timestamp = now, inv_agent_id = token_agent_id token, inv_pack_id = pack_id pack,
          inv_plane = PlaneRuntime, inv_tier = TierExtension, inv_primary_adapter = extension_name,
          inv_delegated_core_adapter = Some resolved, inv_operation = runtime_action request,
          inv_required_capabilities = required\<rparr> k) (\<lambda>k _.
       (k, Inr outcome)))))"

text \<open>The parameters that the tool operations show to the policy extensions.\<close>

definition tool_policy_params :: "string \<Rightarrow> json \<Rightarrow> json" where
  "tool_policy_params name payload = JObject [(''payload'', payload), (''tool_name'', JString name)]"

definition execute_tool_core ::
    "string \<Rightarrow> capability_token \<Rightarrow> capability set \<Rightarrow> string option \<Rightarrow> tool_core_request
       \<Rightarrow> ('p, 'a, 'w) loong_kernel \<Rightarrow> ('p, 'a, 'w, plane_outcome) kernel_result" where
  "execute_tool_core pid token required core_name request k =
     try_bind (get_pack pid k) (\<lambda>k pack.
     let params = tool_policy_params (tool_name request) (tool_payload request) in
     try_bind (authorize_pack_operation pack token required (Some params) k) (\<lambda>k now.
     let resolved = resolved_core_adapter core_name (default_core_adapter (tool_plane k)) in
     try_bind (run_adapter KToolPlane k
         (tool_execute_core (tool_plane k) (world k) core_name request)) (\<lambda>k outcome.
     try_bind (record_plane_invocation
         \<lparr>inv_timestamp = now, inv_agent_id = token_agent_id token, inv_pack_id = pack_id pack,
          inv_plane = PlaneTool, inv_tier = TierCore, inv_primary_adapter = resolved,
          inv_delegated_core_adapter = None, inv_operation = tool_name request,
          inv_required_capabilities = required\<rparr> k) (\<lambda>k _.
       (k, Inr outcome)))))"

definition execute_tool_extension ::
    "string \<Rightarrow> capability_token \<Rightarrow> capability set \<Rightarrow> string \<Rightarrow> string option \<Rightarrow> tool_extension_request
       \<Rightarrow> ('p, 'a, 'w) loong_kernel \<Rightarrow> ('p, 'a, 'w, plane_outcome) kernel_result" where
  "execute_tool_extension pid token required extension_name core_name request k =
     try_bind (get_pack pid k) (\<lambda>k pack.
     let params = tool_policy_params (extension_action request) (tool_ext_payload request) in
     try_bind (authorize_pack_operation pack token required (Some params) k) (\<lambda>k now.
     let resolved = resolved_core_adapter core_name (default_core_adapter (tool_plane k)) in
     try_bind (run_adapter KToolPlane k
         (tool_execute_extension (tool_plane k) (world k) extension_name core_name request))
       (\<lambda>k outcome.
     try_bind (record_plane_invocation
         \<lparr>inv_timestamp = now, inv_agent_id = token_agent_id token, inv_pack_id = pack_id pack,
          inv_plane = PlaneTool, inv_tier = TierExtension, inv_primary_adapter = extension_name,
          inv_delegated_core_adapter = Some resolved, inv_operation = extension_action request,
          inv_required_capabilities = required\<rparr> k) (\<lambda>k _.
       (k, Inr outcome)))))"

definition execute_memory_core ::
    "string \<Rightarrow> capability_token \<Rightarrow> capability set \<Rightarrow> string option \<Rightarrow> memory_request
       \<Rightarrow> ('p, 'a, 'w) loong_kernel \<Rightarrow> ('p, 'a, 'w, plane_outcome) kernel_result" where
  "execute_memory_core pid token required core_name request k =
     try_bind (get_pack pid k) (\<lambda>k pack.
     try_bind (authorize_pack_operation pack token required None k) (\<lambda>k now.
     let resolved = resolved_core_adapter core_name (default_core_adapter (memory_plane k)) in
     try_bind (run_adapter KMemoryPlane k
         (memory_execute_core (memory_plane k) (world k) core_name request)) (\<lambda>k outcome.
     try_bind (record_plane_invocation
         \<lparr>inv_timestamp = now, inv_agent_id = token_agent_id token, inv_pack_id = pack_id pack,
          inv_plane = PlaneMemory, inv_tier = TierCore, inv_primary_adapter = resolved,
          inv_delegated_core_adapter = None, inv_operation = memory_operation request,
          inv_required_capabilities = required\<rparr> k) (\<lambda>k _.
       (k, Inr outcome)))))"

definition execute_memory_extension ::
    "string \<Rightarrow> capability_token \<Rightarrow> capability set \<Rightarrow> string \<Rightarrow> string option \<Rightarrow> memory_request
       \<Rightarrow> ('p, 'a, 'w) loong_kernel \<Rightarrow> ('p, 'a, 'w, plane_outcome) kernel_result" where
  "execute_memory_extension pid token required extension_name core_name request k =
     try_bind (get_pack pid k) (\<lambda>k pack.
     try_bind (authorize_pack_operation pack token required None k) (\<lambda>k now.
     let resolved = resolved_core_adapter core_name (default_core_adapter (memory_plane k)) in
     try_bind (run_adapter KMemoryPlane k
         (memory_execute_extension (memory_plane k) (world k) extension_name core_name request))
       (\<lambda>k outcome.
     try_bind (record_plane_invocation
         \<lparr>inv_timestamp = now, inv_agent_id = token_agent_id token, inv_pack_id = pack_id pack,
          inv_plane = PlaneMemory, inv_tier = TierExtension, inv_primary_adapter = extension_name,
          inv_delegated_core_adapter = Some resolved, inv_operation = memory_operation request,
          inv_required_capabilities = required\<rparr> k) (\<lambda>k _.
       (k, Inr outcome)))))"

section \<open>The frozen handle\<close>

text \<open>
  \<open>Kernel<P>\<close> offers the executing operations of the kernel and no registration.  A call names one
  of them with its arguments; its result is the outcome of that operation.
\<close>

datatype kernel_call =
    CallTask task_intent
  | CallConnectorCore "string option" connector_command
  | CallConnectorExtension string "string option" connector_command
  | CallRuntimeCore "capability set" "string option" runtime_request
  | CallRuntimeExtension "capability set" string "string option" runtime_request
  | CallToolCore "capability set" "string option" tool_core_request
  | CallToolExtension "capability set" string "string option" tool_extension_request
  | CallMemoryCore "capability set" "string option" memory_request
  | CallMemoryExtension "capability set" string "string option" memory_request

datatype call_result =
    TaskResult kernel_dispatch
  | ConnectorResult connector_dispatch
  | PlaneResult plane_outcome

definition returning ::
    "('r \<Rightarrow> call_result) \<Rightarrow> ('p, 'a, 'w, 'r) kernel_result \<Rightarrow> ('p, 'a, 'w, call_result) kernel_result" where
  "returning f r = try_bind r (\<lambda>k x. (k, Inr (f x)))"

fun run_call ::
    "string \<Rightarrow> capability_token \<Rightarrow> kernel_call \<Rightarrow> ('p, 'a, 'w) loong_kernel
       \<Rightarrow> ('p, 'a, 'w, call_result) kernel_result" where
  "run_call pid token (CallTask task) k = returning TaskResult (execute_task pid token task k)"
| "run_call pid token (CallConnectorCore core command) k =
     returning ConnectorResult (execute_connector_core pid token core command k)"
| "run_call pid token (CallConnectorExtension ext core command) k =
     returning ConnectorResult (execute_connector_extension pid token ext core command k)"
| "run_call pid token (CallRuntimeCore required core request) k =
     returning PlaneResult (execute_runtime_core pid token required core request k)"
| "run_call pid token (CallRuntimeExtension required ext core request) k =
     returning PlaneResult (execute_runtime_extension pid token required ext core request k)"
| "run_call pid token (CallToolCore required core request) k =
     returning PlaneResult (execute_tool_core pid token required core request k)"
| "run_call pid token (CallToolExtension required ext core request) k =
     returning PlaneResult (execute_tool_extension pid token required ext core request k)"
| "run_call pid token (CallMemoryCore required core request) k =
     returning PlaneResult (execute_memory_core pid token required core request k)"
| "run_call pid token (CallMemoryExtension required ext core request) k =
     returning PlaneResult (execute_memory_extension pid token required ext core request k)"

end
