(* ===== verification/Kernel_Guarantees.thy ===== *)
theory Kernel_Guarantees
  imports Kernel_Core
begin

text \<open>
  What the kernel guarantees about every governed call: mediation (the world changes only behind a
  full authorization), the audit trail of granted and denied calls, the confinement of scoped
  tokens, the finality of revocation over arbitrary runs, and the numbering of audit events.  The
  nine executing operations have one shape; \<open>governed\<close> is that shape, and \<open>run_call_governed\<close> shows
  that each of them has it.
\<close>

section \<open>The common shape of a call\<close>

fun call_required :: "kernel_call \<Rightarrow> capability set" where
  "call_required (CallTask task) = intent_required_capabilities task"
| "call_required (CallConnectorCore _ command) = cmd_required_capabilities command"
| "call_required (CallConnectorExtension _ _ command) = cmd_required_capabilities command"
| "call_required (CallRuntimeCore required _ _) = required"
| "call_required (CallRuntimeExtension required _ _ _) = required"
| "call_required (CallToolCore required _ _) = required"
| "call_required (CallToolExtension required _ _ _) = required"
| "call_required (CallMemoryCore required _ _) = required"
| "call_required (CallMemoryExtension required _ _ _) = required"

fun call_params :: "kernel_call \<Rightarrow> json option" where
  "call_params (CallToolCore _ _ q) = Some (tool_policy_params (tool_name q) (tool_payload q))"
| "call_params (CallToolExtension _ _ _ q) =
     Some (tool_policy_params (extension_action q) (tool_ext_payload q))"
| "call_params _ = None"

fun call_connector :: "kernel_call \<Rightarrow> string option" where
  "call_connector (CallConnectorCore _ command) = Some (cmd_connector_name command)"
| "call_connector (CallConnectorExtension _ _ command) = Some (cmd_connector_name command)"
| "call_connector _ = None"

definition connector_check ::
    "vertical_pack_manifest \<Rightarrow> kernel_call \<Rightarrow> kernel_error failure + unit" where
  "connector_check pack c =
     (case call_connector c of
        Some n \<Rightarrow> assert_connector_allowed pack n
      | None \<Rightarrow> Inr ())"

text \<open>The adapter that a call runs, on a kernel.\<close>

fun call_effect ::
    "vertical_pack_manifest \<Rightarrow> capability_token \<Rightarrow> kernel_call \<Rightarrow> ('p, 'a, 'w) loong_kernel
       \<Rightarrow> ('p, 'a, 'w, call_result) kernel_result" where
  "call_effect pack token (CallTask task) k =
     try_bind (run_adapter KHarness k (harness_execute (harness k) (world k) (default_route pack)
       \<lparr>hreq_token_id = token_id token, hreq_pack_id = pack_id pack,
        hreq_agent_id = token_agent_id token, hreq_task_id = intent_task_id task,
        hreq_objective = intent_objective task, hreq_payload = intent_payload task\<rparr>)) (\<lambda>k out.
     (k, Inr (TaskResult \<lparr>adapter_route = default_route pack, dispatch_outcome = out\<rparr>)))"
| "call_effect pack token (CallConnectorCore core command) k =
     try_bind (run_adapter KConnector k
       (connector_invoke_core (connector_plane k) (world k) core command)) (\<lambda>k out.
     (k, Inr (ConnectorResult \<lparr>dispatch_connector_name = cmd_connector_name command,
       connector_dispatch_outcome = out\<rparr>)))"
| "call_effect pack token (CallConnectorExtension ext core command) k =
     try_bind (run_adapter KConnector k
       (connector_invoke_extension (connector_plane k) (world k) ext core command)) (\<lambda>k out.
     (k, Inr (ConnectorResult \<lparr>dispatch_connector_name = cmd_connector_name command,
       connector_dispatch_outcome = out\<rparr>)))"
| "call_effect pack token (CallRuntimeCore required core q) k =
     returning PlaneResult (run_adapter KRuntimePlane k
       (runtime_execute_core (runtime_plane k) (world k) core q))"
| "call_effect pack token (CallRuntimeExtension required ext core q) k =
     returning PlaneResult (run_adapter KRuntimePlane k
       (runtime_execute_extension (runtime_plane k) (world k) ext core q))"
| "call_effect pack token (CallToolCore required core q) k =
     returning PlaneResult (run_adapter KToolPlane k
       (tool_execute_core (tool_plane k) (world k) core q))"
| "call_effect pack token (CallToolExtension required ext core q) k =
     returning PlaneResult (run_adapter KToolPlane k
       (tool_execute_extension (tool_plane k) (world k) ext core q))"
| "call_effect pack token (CallMemoryCore required core q) k =
     returning PlaneResult (run_adapter KMemoryPlane k
       (memory_execute_core (memory_plane k) (world k) core q))"
| "call_effect pack token (CallMemoryExtension required ext core q) k =
     returning PlaneResult (run_adapter KMemoryPlane k
       (memory_execute_extension (memory_plane k) (world k) ext core q))"

text \<open>The events that a completed call leaves.\<close>

fun call_trail ::
    "vertical_pack_manifest \<Rightarrow> kernel_call \<Rightarrow> ('p, 'a, 'w) loong_kernel \<Rightarrow> audit_event_kind list" where
  "call_trail pack (CallTask task) k =
     [TaskDispatched (pack_id pack) (intent_task_id task) (default_route pack)
       (caps_iter (intent_required_capabilities task))]"
| "call_trail pack (CallConnectorCore core command) k =
     [ConnectorInvoked (pack_id pack) (cmd_connector_name command) (cmd_operation command)
        (caps_iter (cmd_required_capabilities command)),
      PlaneInvoked (pack_id pack) PlaneConnector TierCore
        (resolved_core_adapter core (default_core_adapter (connector_plane k))) None
        (cmd_operation command) (caps_iter (cmd_required_capabilities command))]"
| "call_trail pack (CallConnectorExtension ext core command) k =
     [ConnectorInvoked (pack_id pack) (cmd_connector_name command) (cmd_operation command)
        (caps_iter (cmd_required_capabilities command)),
      PlaneInvoked (pack_id pack) PlaneConnector TierExtension ext
        (Some (resolved_core_adapter core (default_core_adapter (connector_plane k))))
        (cmd_operation command) (caps_iter (cmd_required_capabilities command))]"
| "call_trail pack (CallRuntimeCore required core q) k =
     [PlaneInvoked (pack_id pack) PlaneRuntime TierCore
        (resolved_core_adapter core (default_core_adapter (runtime_plane k))) None
        (runtime_action q) (caps_iter required)]"
| "call_trail pack (CallRuntimeExtension required ext core q) k =
     [PlaneInvoked (pack_id pack) PlaneRuntime TierExtension ext
        (Some (resolved_core_adapter core (default_core_adapter (runtime_plane k))))
        (runtime_action q) (caps_iter required)]"
| "call_trail pack (CallToolCore required core q) k =
     [PlaneInvoked (pack_id pack) PlaneTool TierCore
        (resolved_core_adapter core (default_core_adapter (tool_plane k))) None
        (tool_name q) (caps_iter required)]"
| "call_trail pack (CallToolExtension required ext core q) k =
     [PlaneInvoked (pack_id pack) PlaneTool TierExtension ext
        (Some (resolved_core_adapter core (default_core_adapter (tool_plane k))))
        (extension_action q) (caps_iter required)]"
| "call_trail pack (CallMemoryCore required core q) k =
     [PlaneInvoked (pack_id pack) PlaneMemory TierCore
        (resolved_core_adapter core (default_core_adapter (memory_plane k))) None
        (memory_operation q) (caps_iter required)]"
| "call_trail pack (CallMemoryExtension required ext core q) k =
     [PlaneInvoked (pack_id pack) PlaneMemory TierExtension ext
        (Some (resolved_core_adapter core (default_core_adapter (memory_plane k))))
        (memory_operation q) (caps_iter required)]"

fun emit_all ::
    "u64 \<Rightarrow> string option \<Rightarrow> audit_event_kind list \<Rightarrow> ('p, 'a, 'w) loong_kernel
       \<Rightarrow> ('p, 'a, 'w, unit) kernel_result" where
  "emit_all now agent [] k = (k, Inr ())"
| "emit_all now agent (kind # kinds) k =
     try_bind (emit now agent kind k) (\<lambda>k _. emit_all now agent kinds k)"

definition governed ::
    "string \<Rightarrow> capability_token \<Rightarrow> kernel_call \<Rightarrow> ('p, 'a, 'w) loong_kernel
       \<Rightarrow> ('p, 'a, 'w, call_result) kernel_result" where
  "governed pid token c k =
     try_bind (get_pack pid k) (\<lambda>k pack.
     try_bind (k, connector_check pack c) (\<lambda>k _.
     try_bind (authorize_pack_operation pack token (call_required c) (call_params c) k) (\<lambda>k now.
     try_bind (call_effect pack token c k) (\<lambda>k' r.
     try_bind (emit_all now (Some (token_agent_id token)) (call_trail pack c k) k') (\<lambda>k _.
       (k, Inr r))))))"

lemma try_bind_unit [simp]: "try_bind m (\<lambda>s u. (s, Inr ())) = m"
  by (cases m; cases "snd m") (auto simp: try_bind_def)

lemma run_adapter_planes [simp]:
  assumes "run_adapter wrap k wr = (k', r)"
  shows "connector_plane k' = connector_plane k" "runtime_plane k' = runtime_plane k"
    "tool_plane k' = tool_plane k" "memory_plane k' = memory_plane k"
  using assms by (auto simp: run_adapter_def split: prod.splits)

lemma run_call_governed: "run_call pid token c k = governed pid token c k"
  by (cases c)
    (simp_all add: governed_def returning_def try_bind_assoc connector_check_def Let_def
      execute_task_def execute_connector_core_def execute_connector_extension_def
      execute_runtime_core_def execute_runtime_extension_def execute_tool_core_def
      execute_tool_extension_def execute_memory_core_def execute_memory_extension_def
      record_plane_invocation_def)

section \<open>Authorization\<close>

definition call_context ::
    "('p, 'a, 'w) loong_kernel \<Rightarrow> vertical_pack_manifest \<Rightarrow> capability_token \<Rightarrow> kernel_call
       \<Rightarrow> policy_extension_context" where
  "call_context k pack token c =
     \<lparr>ctx_pack = pack, ctx_token = token, ctx_now_epoch_s = clock k (world k),
      ctx_required_capabilities = call_required c, ctx_request_parameters = call_params c\<rparr>"

text \<open>
  What the kernel must have checked before an adapter runs: the pack exists, it lists the connector,
  it grants the required capabilities, the engine accepts the token for them now, and every policy
  extension accepts the call.
\<close>

definition within_pack :: "vertical_pack_manifest \<Rightarrow> kernel_call \<Rightarrow> bool" where
  "within_pack pack c \<longleftrightarrow> call_required c \<subseteq> granted_capabilities pack
     \<and> (case call_connector c of None \<Rightarrow> True | Some n \<Rightarrow> n \<in> allowed_connectors pack)"

definition permits ::
    "('p, 'a, 'w) loong_kernel \<Rightarrow> string \<Rightarrow> capability_token \<Rightarrow> kernel_call \<Rightarrow> bool" where
  "permits k pid token c \<longleftrightarrow>
     (case bt_get (packs k) pid of
        None \<Rightarrow> False
      | Some pack \<Rightarrow>
          within_pack pack c
          \<and> pe_authorize (engine k) (policy k) token (pack_id pack) (clock k (world k))
              (call_required c) = Inr ()
          \<and> (\<forall>ext \<in> set (policy_extensions k).
               authorize_extension ext (world k) (call_context k pack token c) = Inr ()))"

lemma assert_pack_grants_Inr:
  "assert_pack_grants pack required = Inr u \<longleftrightarrow> required \<subseteq> granted_capabilities pack"
  using find_caps_iter_None [of "\<lambda>c. \<not> pack_grants pack c" required]
  by (auto simp: assert_pack_grants_def pack_grants_def split: option.splits)

lemma connector_check_Inr:
  "connector_check pack c = Inr u \<longleftrightarrow>
     (case call_connector c of None \<Rightarrow> True | Some n \<Rightarrow> n \<in> allowed_connectors pack)"
  by (auto simp: connector_check_def assert_connector_allowed_def allows_connector_def
      split: option.splits)

lemma emit_eq:
  "emit now agent kind k =
     (case sink k (audit k) \<lparr>event_id = ''evt-'' @ hex16 (event_seq k + 1), timestamp_epoch_s = now,
        event_agent_id = agent, event_kind = kind\<rparr> of
        (a', r) \<Rightarrow> (k\<lparr>event_seq := event_seq k + 1, audit := a'\<rparr>, map_err audit_failure r))"
  by (simp add: emit_def new_event_def Let_def)

text \<open>What an operation that only audits leaves alone.\<close>

definition same_but_audit :: "('p, 'a, 'w) loong_kernel \<Rightarrow> ('p, 'a, 'w) loong_kernel \<Rightarrow> bool" where
  "same_but_audit k k' \<longleftrightarrow> k' = k\<lparr>event_seq := event_seq k', audit := audit k'\<rparr>"

lemma same_but_audit_refl [simp]: "same_but_audit k k"
  by (simp add: same_but_audit_def)

lemma same_but_audit_trans: "same_but_audit k k1 \<Longrightarrow> same_but_audit k1 k2 \<Longrightarrow> same_but_audit k k2"
  by (cases k; cases k1; cases k2) (simp add: same_but_audit_def)

lemma same_but_audit_fields:
  assumes "same_but_audit k k'"
  shows "engine k' = engine k" "policy k' = policy k" "packs k' = packs k"
    "namespaces k' = namespaces k" "sink k' = sink k" "world k' = world k" "clock k' = clock k"
    "policy_extensions k' = policy_extensions k"
  using assms by (cases k; cases k'; simp add: same_but_audit_def)+

lemma emit_same: "emit now agent kind k = (k', r) \<Longrightarrow> same_but_audit k k'"
  by (auto simp: emit_eq same_but_audit_def split: prod.splits)

lemma emit_all_same: "emit_all now agent kinds k = (k', r) \<Longrightarrow> same_but_audit k k'"
proof (induction kinds arbitrary: k)
  case (Cons kind kinds)
  then show ?case
    by (cases "emit now agent kind k"; cases "snd (emit now agent kind k)")
      (auto dest: emit_same intro: same_but_audit_trans)
qed simp

lemma audit_denial_same:
  "audit_denial pack token now e k = (k', r) \<Longrightarrow> same_but_audit k k' \<and> isl r"
  by (cases "emit now (Some (token_agent_id token))
        (AuthorizationDenied (pack_id pack) (token_id token) (policy_error_display e)) k";
      cases "snd (emit now (Some (token_agent_id token))
        (AuthorizationDenied (pack_id pack) (token_id token) (policy_error_display e)) k)")
    (auto simp: audit_denial_def dest: emit_same)

lemma audit_denial_bind [simp]:
  "try_bind (audit_denial pack token now e k) f = audit_denial pack token now e k"
  by (simp add: audit_denial_def try_bind_assoc)

lemma authorize_pack_operation_cases:
  "authorize_pack_operation pack token required params k =
     (if \<not> required \<subseteq> granted_capabilities pack
      then (k, map_sum id (\<lambda>_. 0) (assert_pack_grants pack required))
      else case pe_authorize (engine k) (policy k) token (pack_id pack) (clock k (world k)) required of
        Inl e \<Rightarrow> audit_denial pack token (clock k (world k)) e k
      | Inr _ \<Rightarrow>
          (case chain_authorize (world k) (policy_extensions k)
              \<lparr>ctx_pack = pack, ctx_token = token, ctx_now_epoch_s = clock k (world k),
               ctx_required_capabilities = required, ctx_request_parameters = params\<rparr> of
             Inl e \<Rightarrow> audit_denial pack token (clock k (world k)) e k
           | Inr _ \<Rightarrow> (k, Inr (clock k (world k)))))"
proof (cases "assert_pack_grants pack required")
  case (Inl f)
  then have "\<not> required \<subseteq> granted_capabilities pack"
    using assert_pack_grants_Inr [of pack required] by auto
  with Inl show ?thesis
    by (simp add: authorize_pack_operation_def)
next
  case (Inr u)
  then have "required \<subseteq> granted_capabilities pack"
    by (simp add: assert_pack_grants_Inr)
  with Inr show ?thesis
    by (simp add: authorize_pack_operation_def authorize_or_audit_denial_def Let_def
        split: sum.split)
qed

text \<open>The three ways a call can go.\<close>

lemma governed_unpermitted_pack:
  assumes "case bt_get (packs k) pid of None \<Rightarrow> True | Some pack \<Rightarrow> \<not> within_pack pack c"
  shows "\<exists>f. governed pid token c k = (k, Inl f)"
proof (cases "bt_get (packs k) pid")
  case None
  then show ?thesis by (simp add: governed_def get_pack_def)
next
  case (Some pack)
  show ?thesis
  proof (cases "connector_check pack c")
    case (Inl f)
    with Some show ?thesis by (simp add: governed_def get_pack_def)
  next
    case (Inr u)
    with assms Some have "\<not> call_required c \<subseteq> granted_capabilities pack"
      using connector_check_Inr [of pack c u] by (simp add: within_pack_def)
    then obtain f where "assert_pack_grants pack (call_required c) = Inl f"
      using assert_pack_grants_Inr [of pack "call_required c"]
      by (cases "assert_pack_grants pack (call_required c)") auto
    with Some Inr show ?thesis
      by (simp add: governed_def get_pack_def authorize_pack_operation_def)
  qed
qed

lemma governed_within_pack:
  assumes "bt_get (packs k) pid = Some pack" and "within_pack pack c"
  shows "governed pid token c k =
     (case pe_authorize (engine k) (policy k) token (pack_id pack) (clock k (world k)) (call_required c) of
        Inl e \<Rightarrow> audit_denial pack token (clock k (world k)) e k
      | Inr _ \<Rightarrow>
          (case chain_authorize (world k) (policy_extensions k) (call_context k pack token c) of
             Inl e \<Rightarrow> audit_denial pack token (clock k (world k)) e k
           | Inr _ \<Rightarrow>
               try_bind (call_effect pack token c k) (\<lambda>k' r.
               try_bind (emit_all (clock k (world k)) (Some (token_agent_id token))
                   (call_trail pack c k) k') (\<lambda>k _. (k, Inr r)))))"
proof -
  have "connector_check pack c = Inr ()" "call_required c \<subseteq> granted_capabilities pack"
    using assms(2) by (simp_all add: connector_check_Inr within_pack_def)
  with assms(1) show ?thesis
    by (simp add: governed_def get_pack_def authorize_pack_operation_cases call_context_def
        split: sum.split)
qed

lemma governed_permitted:
  assumes "permits k pid token c" and "bt_get (packs k) pid = Some pack"
  shows "governed pid token c k =
     try_bind (call_effect pack token c k) (\<lambda>k' r.
     try_bind (emit_all (clock k (world k)) (Some (token_agent_id token))
         (call_trail pack c k) k') (\<lambda>k _. (k, Inr r)))"
  using assms governed_within_pack [OF assms(2)]
  by (simp add: permits_def chain_authorize_Inr [where u = "()", symmetric])

lemma governed_denied:
  assumes "\<not> permits k pid token c" and "governed pid token c k = (k', r)"
  shows "same_but_audit k k' \<and> isl r"
proof (cases "case bt_get (packs k) pid of None \<Rightarrow> True | Some pack \<Rightarrow> \<not> within_pack pack c")
  case True
  from governed_unpermitted_pack [OF this, of token] assms(2) show ?thesis by auto
next
  case False
  then obtain pack where pack: "bt_get (packs k) pid = Some pack" "within_pack pack c"
    by (auto split: option.splits)
  with assms(1) have "pe_authorize (engine k) (policy k) token (pack_id pack) (clock k (world k))
        (call_required c) \<noteq> Inr ()
      \<or> chain_authorize (world k) (policy_extensions k) (call_context k pack token c) \<noteq> Inr ()"
    by (auto simp: permits_def chain_authorize_Inr)
  with assms(2) governed_within_pack [OF pack, of token] show ?thesis
    by (auto split: sum.splits dest: audit_denial_same)
qed

section \<open>Properties of calls\<close>

text \<open>
  C1: complete mediation.  Every one of the nine executing operations either has been permitted in
  full (pack, connector, capabilities, engine, every extension), or it fails and changes nothing but
  the audit trail: the world, the policy state and the registries are as before.
\<close>

theorem every_call_is_mediated:
  "permits k pid token c
   \<or> same_but_audit k (fst (run_call pid token c k)) \<and> isl (snd (run_call pid token c k))"
  using governed_denied [of k pid token c] by (cases "governed pid token c k") (auto simp: run_call_governed)

text \<open>
  C19: a denial by the policy is audited.  When the engine or an extension refuses a call that stays
  within the pack, the kernel records exactly one event, the denial with the pack, the token, its
  agent and the reason; the caller gets the policy error if the sink accepts the event and the
  error of the sink otherwise; nothing else changes.
\<close>

theorem policy_denial_is_audited:
  assumes "bt_get (packs k) pid = Some pack" and "within_pack pack c"
    and "pe_authorize (engine k) (policy k) token (pack_id pack) (clock k (world k)) (call_required c) = Inl e
       \<or> pe_authorize (engine k) (policy k) token (pack_id pack) (clock k (world k)) (call_required c) = Inr ()
         \<and> chain_authorize (world k) (policy_extensions k) (call_context k pack token c) = Inl e"
  shows "run_call pid token c k =
     (case sink k (audit k) \<lparr>event_id = ''evt-'' @ hex16 (event_seq k + 1),
          timestamp_epoch_s = clock k (world k), event_agent_id = Some (token_agent_id token),
          event_kind = AuthorizationDenied (pack_id pack) (token_id token) (policy_error_display e)\<rparr> of
        (a', r) \<Rightarrow> (k\<lparr>event_seq := event_seq k + 1, audit := a'\<rparr>,
          Inl (case r of Inl f \<Rightarrow> audit_failure f | Inr _ \<Rightarrow> Error (KPolicy e))))"
proof -
  have "run_call pid token c k = audit_denial pack token (clock k (world k)) e k"
    using assms governed_within_pack [OF assms(1,2), of token] by (auto simp: run_call_governed)
  then show ?thesis
    by (simp add: audit_denial_def emit_eq split: prod.split sum.split)
qed

text \<open>A kernel with one pack, the static engine, an in-memory sink and one tool adapter.\<close>

definition sample_outcome :: plane_outcome where
  "sample_outcome = \<lparr>out_status = ''ok'', out_payload = JNull\<rparr>"

definition sample_kernel :: "(static_policy_engine, in_memory_audit_sink, nat) loong_kernel" where
  "sample_kernel = (new_with_in_memory_audit static_engine static_default (\<lambda>_. 10) 0)
     \<lparr>packs := [(''sales'', sample_pack)],
      tool_plane := plane_register_core (counting_core ''local'' sample_outcome) plane_new\<rparr>"

definition sample_token :: "u64 \<Rightarrow> capability_token" where
  "sample_token expiry = \<lparr>token_id = ''tok-1'', token_pack_id = ''sales'', token_agent_id = ''agent'',
     allowed_capabilities = {InvokeTool}, issued_at_epoch_s = 0, expires_at_epoch_s = expiry,
     token_generation = 1\<rparr>"

definition sample_call :: kernel_call where
  "sample_call = CallToolCore {InvokeTool} None \<lparr>tool_name = ''t'', tool_payload = JNull\<rparr>"

lemma sample_kernel_simps [simp]:
  "bt_get (packs sample_kernel) ''sales'' = Some sample_pack" "engine sample_kernel = static_engine"
  "policy sample_kernel = static_default" "world sample_kernel = 0" "clock sample_kernel w = 10"
  "policy_extensions sample_kernel = []" "sink sample_kernel = in_memory_record"
  "audit sample_kernel = in_memory_default" "event_seq sample_kernel = 0"
  "pack_id sample_pack = ''sales''" "within_pack sample_pack sample_call"
  "call_required sample_call = {InvokeTool}"
  by (simp_all add: sample_kernel_def new_with_in_memory_audit_def with_runtime_def bt_get_def
      sample_pack_def within_pack_def sample_call_def chain_new_def)

lemma sample_authorize:
  "authorize static_default (sample_token 5) ''sales'' 10 {InvokeTool} = Inl (ExpiredToken ''tok-1'' 5)"
  "authorize static_default (sample_token 20) ''sales'' 10 {InvokeTool} = Inr ()"
  by (simp_all add: authorize_def sample_token_def static_default_def caps_iter_def all_capabilities_def)

theorem policy_denial_is_audited_witness:
  "snd (run_call ''sales'' (sample_token 5) sample_call sample_kernel) =
     Inl (Error (KPolicy (ExpiredToken ''tok-1'' 5)))
   \<and> map event_kind (snapshot (audit (fst (run_call ''sales'' (sample_token 5) sample_call sample_kernel)))) =
     [AuthorizationDenied ''sales'' ''tok-1'' (policy_error_display (ExpiredToken ''tok-1'' 5))]"
proof -
  have "run_call ''sales'' (sample_token 5) sample_call sample_kernel =
     (case sink sample_kernel (audit sample_kernel) \<lparr>event_id = ''evt-'' @ hex16 (event_seq sample_kernel + 1),
          timestamp_epoch_s = clock sample_kernel (world sample_kernel),
          event_agent_id = Some (token_agent_id (sample_token 5)),
          event_kind = AuthorizationDenied (pack_id sample_pack) (token_id (sample_token 5))
            (policy_error_display (ExpiredToken ''tok-1'' 5))\<rparr> of
        (a', r) \<Rightarrow> (sample_kernel\<lparr>event_seq := event_seq sample_kernel + 1, audit := a'\<rparr>,
          Inl (case r of Inl f \<Rightarrow> audit_failure f
               | Inr _ \<Rightarrow> Error (KPolicy (ExpiredToken ''tok-1'' 5)))))"
    by (rule policy_denial_is_audited) (simp_all add: sample_authorize)
  then show ?thesis
    by (simp add: in_memory_record_def in_memory_default_def with_capacity_def snapshot_def
        default_in_memory_audit_capacity_def) (simp add: sample_token_def)
qed

text \<open>The events of a trail, numbered from the counter of the kernel.\<close>

fun numbered_events :: "u64 \<Rightarrow> u64 \<Rightarrow> string option \<Rightarrow> audit_event_kind list \<Rightarrow> audit_event list" where
  "numbered_events s now agent [] = []"
| "numbered_events s now agent (kind # kinds) =
     \<lparr>event_id = ''evt-'' @ hex16 (s + 1), timestamp_epoch_s = now, event_agent_id = agent,
      event_kind = kind\<rparr> # numbered_events (s + 1) now agent kinds"

lemma map_err_unit_Inr: "map_err f r = Inr () \<longleftrightarrow> r = Inr ()"
  by (cases r) auto

lemma emit_all_Inr:
  "emit_all now agent kinds k = (k', Inr ()) \<Longrightarrow>
     record_all (sink k) (audit k) (numbered_events (event_seq k) now agent kinds) = (audit k', Inr ())
     \<and> k' = k\<lparr>event_seq := event_seq k + of_nat (length kinds), audit := audit k'\<rparr>"
proof (induction kinds arbitrary: k)
  case Nil
  then show ?case by simp
next
  case (Cons kind kinds)
  then obtain k1 where k1: "emit now agent kind k = (k1, Inr ())"
      "emit_all now agent kinds k1 = (k', Inr ())"
    by (auto elim: try_bind_InrE)
  then obtain a1 where "sink k (audit k) \<lparr>event_id = ''evt-'' @ hex16 (event_seq k + 1),
        timestamp_epoch_s = now, event_agent_id = agent, event_kind = kind\<rparr> = (a1, Inr ())"
      "k1 = k\<lparr>event_seq := event_seq k + 1, audit := a1\<rparr>"
    by (auto simp: emit_eq split: prod.splits)
  with Cons.IH [OF k1(2)] show ?case
    by (auto simp: add.assoc)
qed

lemma run_adapter_world: "run_adapter wrap k wr = (k', r) \<Longrightarrow> k' = k\<lparr>world := world k'\<rparr>"
  by (auto simp: run_adapter_def split: prod.splits)

lemma run_adapter_bind_world:
  "try_bind (run_adapter wrap k wr) (\<lambda>k x. (k, Inr (f x))) = (k', r) \<Longrightarrow> k' = k\<lparr>world := world k'\<rparr>"
  by (cases "run_adapter wrap k wr"; cases "snd (run_adapter wrap k wr)")
    (auto dest: run_adapter_world)

lemma call_effect_world: "call_effect pack token c k = (k', r) \<Longrightarrow> k' = k\<lparr>world := world k'\<rparr>"
  by (cases c) (simp_all only: call_effect.simps returning_def run_adapter_bind_world)

text \<open>
  C18: a completed call leaves its trail.  When an operation returns an outcome, the sink has
  accepted exactly the events of that operation, in order, numbered from the counter, stamped with
  the time of the authorization and the agent of the token; besides them and the world nothing of
  the kernel has changed.
\<close>

theorem completed_call_leaves_trail:
  assumes "run_call pid token c k = (k', Inr r)"
  shows "\<exists>pack. bt_get (packs k) pid = Some pack
     \<and> record_all (sink k) (audit k) (numbered_events (event_seq k) (clock k (world k))
         (Some (token_agent_id token)) (call_trail pack c k)) = (audit k', Inr ())
     \<and> k' = k\<lparr>event_seq := event_seq k + of_nat (length (call_trail pack c k)),
           audit := audit k', world := world k'\<rparr>"
proof -
  have "permits k pid token c"
    using assms governed_denied [of k pid token c] by (force simp: run_call_governed)
  moreover from this obtain pack where pack: "bt_get (packs k) pid = Some pack"
    by (auto simp: permits_def split: option.splits)
  ultimately obtain k1 where k1: "call_effect pack token c k = (k1, Inr r)"
      "emit_all (clock k (world k)) (Some (token_agent_id token)) (call_trail pack c k) k1 = (k', Inr ())"
    using assms by (auto simp: run_call_governed governed_permitted elim!: try_bind_InrE)
  have w: "k1 = k\<lparr>world := world k1\<rparr>"
    by (rule call_effect_world [OF k1(1)])
  have "sink k1 = sink k" "audit k1 = audit k" "event_seq k1 = event_seq k"
    by (subst w, simp)+
  moreover have "k' = k\<lparr>event_seq := event_seq k1 + of_nat (length (call_trail pack c k)),
      audit := audit k', world := world k'\<rparr>"
    using emit_all_Inr [OF k1(2)] by (subst (asm) w) (cases k', auto)
  ultimately show ?thesis
    using emit_all_Inr [OF k1(2)] pack by simp
qed

lemma sample_permits: "permits sample_kernel ''sales'' (sample_token 20) sample_call"
  by (simp add: permits_def sample_authorize)

lemma sample_effect:
  "\<exists>k'. call_effect sample_pack token sample_call sample_kernel = (k', Inr (PlaneResult sample_outcome))
     \<and> k' = sample_kernel\<lparr>world := 1\<rparr>"
proof -
  have "tool_plane sample_kernel = plane_register_core (counting_core ''local'' sample_outcome) plane_new"
    by (simp add: sample_kernel_def)
  then show ?thesis
    by (simp add: sample_call_def returning_def run_adapter_def tool_execute_core_def
        plane_execute_core_def resolve_core_def plane_register_core_def plane_new_def Let_def
        counting_core_def bt_empty_ok)
qed

lemma sample_trail_accepted:
  "\<exists>k'. emit_all now agent (call_trail sample_pack sample_call sample_kernel)
     (sample_kernel\<lparr>world := w\<rparr>) = (k', Inr ()) \<and> world k' = w"
  by (simp add: sample_call_def emit_eq in_memory_record_def in_memory_default_def with_capacity_def
      default_in_memory_audit_capacity_def)

lemma sample_run_permitted:
  assumes "permits sample_kernel ''sales'' token sample_call"
  shows "\<exists>k'. run_call ''sales'' token sample_call sample_kernel = (k', Inr (PlaneResult sample_outcome))
     \<and> world k' = 1"
  using sample_effect [of token] sample_trail_accepted [of 10 "Some (token_agent_id token)" 1]
  by (auto simp: run_call_governed governed_permitted [OF assms])

lemma sample_run:
  "\<exists>k'. run_call ''sales'' (sample_token 20) sample_call sample_kernel = (k', Inr (PlaneResult sample_outcome))
     \<and> world k' = 1"
  by (rule sample_run_permitted [OF sample_permits])

theorem completed_call_leaves_trail_witness:
  "\<exists>k'. run_call ''sales'' (sample_token 20) sample_call sample_kernel = (k', Inr (PlaneResult sample_outcome))
     \<and> record_all in_memory_record in_memory_default (numbered_events 0 10 (Some ''agent'')
         (call_trail sample_pack sample_call sample_kernel)) = (audit k', Inr ())"
proof -
  obtain k' where k': "run_call ''sales'' (sample_token 20) sample_call sample_kernel
      = (k', Inr (PlaneResult sample_outcome))"
    using sample_run by blast
  from completed_call_leaves_trail [OF k'] k' show ?thesis
    by (simp add: sample_token_def)
qed

text \<open>
  C39: leaving the pack is refused without a trace.  A call for a capability that the pack does not
  grant, or for a connector that it does not list, fails before the clock, the engine and the
  extensions are consulted, and it leaves the kernel as it was: no event is recorded.
\<close>

theorem boundary_refusal_leaves_no_event:
  assumes "bt_get (packs k) pid = Some pack" and "\<not> within_pack pack c"
  shows "run_call pid token c k =
     (k, Inl (Error
        (case call_connector c of
           Some n \<Rightarrow>
             if n \<notin> allowed_connectors pack then ConnectorNotAllowed n (pack_id pack)
             else PackCapabilityBoundary (pack_id pack) (Min (call_required c - granted_capabilities pack))
         | None \<Rightarrow>
             PackCapabilityBoundary (pack_id pack) (Min (call_required c - granted_capabilities pack)))))"
proof -
  have grants: "assert_pack_grants pack required =
      Inl (Error (PackCapabilityBoundary (pack_id pack) (Min (required - granted_capabilities pack))))"
    if "\<not> required \<subseteq> granted_capabilities pack" for required
    using that find_caps_iter_None [of "\<lambda>c. \<not> pack_grants pack c" required]
      find_caps_iter_Some [of "\<lambda>c. \<not> pack_grants pack c" required]
    by (auto simp: assert_pack_grants_def pack_grants_def split: option.split intro!: Min_eqI [symmetric])
  show ?thesis
  proof (cases "connector_check pack c")
    case (Inl f)
    with assms(1) show ?thesis
      by (auto simp: run_call_governed governed_def get_pack_def connector_check_def
          assert_connector_allowed_def allows_connector_def split: option.splits if_splits)
  next
    case (Inr u)
    then have listed: "case call_connector c of None \<Rightarrow> True | Some n \<Rightarrow> n \<in> allowed_connectors pack"
      by (simp add: connector_check_Inr)
    with assms(2) have "\<not> call_required c \<subseteq> granted_capabilities pack"
      by (simp add: within_pack_def)
    with Inr assms(1) listed show ?thesis
      by (cases "call_connector c") (simp_all add: run_call_governed governed_def get_pack_def
          authorize_pack_operation_def grants)
  qed
qed

theorem boundary_refusal_leaves_no_event_witness:
  "run_call ''sales'' (sample_token 20)
     (CallToolCore {MemoryRead} None \<lparr>tool_name = ''t'', tool_payload = JNull\<rparr>) sample_kernel
   = (sample_kernel, Inl (Error (PackCapabilityBoundary ''sales'' MemoryRead)))"
proof -
  let ?c = "CallToolCore {MemoryRead} None \<lparr>tool_name = ''t'', tool_payload = JNull\<rparr>"
  have "\<not> within_pack sample_pack ?c" "{MemoryRead} - granted_capabilities sample_pack = {MemoryRead}"
    by (auto simp: within_pack_def sample_pack_def)
  with boundary_refusal_leaves_no_event [of sample_kernel "''sales''" sample_pack ?c "sample_token 20"]
  show ?thesis by simp
qed

lemma issue_pack_token_Inr:
  assumes "issue_pack_token pack agent ttl k = (k', Inr token)"
  obtains p' where
    "pe_issue_token (engine k) (policy k) pack agent (clock k (world k)) ttl = (p', Inr token)"
proof -
  obtain p' r where pr: "pe_issue_token (engine k) (policy k) pack agent (clock k (world k)) ttl = (p', r)"
    by fastforce
  with assms have "r = Inr token"
    by (cases r) (auto simp: issue_pack_token_def Let_def elim!: try_bind_InrE)
  with pr that show thesis by blast
qed

lemma run_call_Inr_permits: "run_call pid token c k = (k', Inr r) \<Longrightarrow> permits k pid token c"
  using governed_denied [of k pid token c k' "Inr r"] by (auto simp: run_call_governed)

text \<open>
  C9: a scoped token stays in its scope.  A token issued for a set of capabilities by
  \<open>issue_scoped_token\<close> under the static engine carries exactly that set, which lies within the pack;
  in whatever state the kernel is later, a call with it completes only for capabilities of that
  set, only when the identifier it is made for is that of a registered pack with the same pack
  identifier, and not after the expiry.
\<close>

theorem scoped_token_confined:
  assumes "engine k = static_engine" and "bt_get (packs k) pid = Some pack"
    and "issue_scoped_token pid agent allowed ttl k = (k1, Inr token)"
    and "engine k2 = static_engine" and "run_call pid2 token c k2 = (k3, Inr r)"
  shows "allowed \<subseteq> granted_capabilities pack \<and> call_required c \<subseteq> allowed
     \<and> map_option pack_id (bt_get (packs k2) pid2) = Some (pack_id pack)
     \<and> clock k2 (world k2) \<le> sat_add_u64 (clock k (world k)) ttl"
proof -
  have allowed: "allowed \<subseteq> granted_capabilities pack"
    using assms(2,3) assert_pack_grants_Inr [of pack allowed]
    by (auto simp: issue_scoped_token_def get_pack_def elim!: try_bind_InrE)
  have "issue_pack_token (pack\<lparr>granted_capabilities := allowed\<rparr>) agent ttl k = (k1, Inr token)"
    using assms(2,3) by (auto simp: issue_scoped_token_def get_pack_def elim!: try_bind_InrE)
  then obtain p' where issued: "pe_issue_token static_engine (policy k)
      (pack\<lparr>granted_capabilities := allowed\<rparr>) agent (clock k (world k)) ttl = (p', Inr token)"
    using assms(1) by (metis issue_pack_token_Inr)
  obtain pack2 where pack2: "bt_get (packs k2) pid2 = Some pack2" and auth: "pe_authorize static_engine (policy k2)
      token (pack_id pack2) (clock k2 (world k2)) (call_required c) = Inr ()"
    using run_call_Inr_permits [OF assms(5)] assms(4)
    by (auto simp: permits_def simp del: static_engine_simps split: option.splits)
  from static.issued_within_pack [OF issued auth] static.issue_grants [OF issued] allowed pack2
  show ?thesis by simp
qed

lemma sample_scoped:
  "\<exists>k1. issue_scoped_token ''sales'' ''agent'' {InvokeTool} 60 sample_kernel =
     (k1, Inr \<lparr>token_id = ''tok-'' @ hex16 1, token_pack_id = ''sales'', token_agent_id = ''agent'',
        allowed_capabilities = {InvokeTool}, issued_at_epoch_s = 10,
        expires_at_epoch_s = sat_add_u64 10 60, token_generation = 1\<rparr>)"
proof -
  have "assert_pack_grants sample_pack {InvokeTool} = Inr ()"
    by (simp add: assert_pack_grants_Inr sample_pack_def)
  then show ?thesis
    by (simp add: issue_scoped_token_def get_pack_def issue_pack_token_def Let_def issue_token_eq
        emit_eq in_memory_record_def in_memory_default_def with_capacity_def
        default_in_memory_audit_capacity_def static_default_def)
qed

theorem scoped_token_confined_witness:
  "\<exists>k1 token k3 r. issue_scoped_token ''sales'' ''agent'' {InvokeTool} 60 sample_kernel = (k1, Inr token)
     \<and> run_call ''sales'' token sample_call sample_kernel = (k3, Inr r)
     \<and> call_required sample_call \<subseteq> allowed_capabilities token"
proof -
  let ?t = "\<lparr>token_id = ''tok-'' @ hex16 1, token_pack_id = ''sales'', token_agent_id = ''agent'',
      allowed_capabilities = {InvokeTool}, issued_at_epoch_s = 10,
      expires_at_epoch_s = sat_add_u64 10 60, token_generation = 1\<rparr>"
  obtain k1 where k1: "issue_scoped_token ''sales'' ''agent'' {InvokeTool} 60 sample_kernel = (k1, Inr ?t)"
    using sample_scoped by blast
  obtain k3 r where k3: "run_call ''sales'' ?t sample_call sample_kernel = (k3, Inr r)"
    using sample_run_permitted [of ?t]
    by (auto simp: permits_def authorize_Inr_iff static_default_def sat_add_u64_def)
  from scoped_token_confined [OF _ _ k1 _ k3, of sample_pack] k1 k3 show ?thesis
    by (auto simp del: run_call.simps)
qed

section \<open>Runs of the kernel\<close>

text \<open>
  One step: any operation of the kernel with any arguments, or a change of the outside world.
\<close>

inductive kernel_step :: "('p, 'a, 'w) loong_kernel \<Rightarrow> ('p, 'a, 'w) loong_kernel \<Rightarrow> bool" where
  step_world: "kernel_step k (k\<lparr>world := w\<rparr>)"
| step_pack: "kernel_step k (fst (register_pack semver_ok pack k))"
| step_extension: "kernel_step k (register_policy_extension ext k)"
| step_harness: "kernel_step k (register_harness_adapter ha k)"
| step_connector_core: "kernel_step k (register_core_connector_adapter cc k)"
| step_connector_extension: "kernel_step k (register_connector_extension_adapter cx k)"
| step_connector_default: "kernel_step k (fst (set_default_core_connector_adapter n k))"
| step_runtime_core: "kernel_step k (register_core_runtime_adapter rc k)"
| step_runtime_extension: "kernel_step k (register_runtime_extension_adapter rx k)"
| step_runtime_default: "kernel_step k (fst (set_default_core_runtime_adapter n k))"
| step_tool_core: "kernel_step k (register_core_tool_adapter tc k)"
| step_tool_extension: "kernel_step k (register_tool_extension_adapter tx k)"
| step_tool_default: "kernel_step k (fst (set_default_core_tool_adapter n k))"
| step_memory_core: "kernel_step k (register_core_memory_adapter mc k)"
| step_memory_extension: "kernel_step k (register_memory_extension_adapter mx k)"
| step_memory_default: "kernel_step k (fst (set_default_core_memory_adapter n k))"
| step_issue: "kernel_step k (fst (kernel_issue_token pid agent ttl k))"
| step_scoped: "kernel_step k (fst (issue_scoped_token pid agent allowed ttl k))"
| step_revoke: "kernel_step k (fst (kernel_revoke_token tid actor k))"
| step_generation: "kernel_step k (kernel_revoke_generation below k)"
| step_record: "kernel_step k (fst (record_audit_event actor kind k))"
| step_authorize: "kernel_step k (fst (authorize_operation pid token plane tier primary delegated
    operation required k))"
| step_call: "kernel_step k (fst (run_call pid token c k))"

text \<open>What a sequence of fallible steps keeps, when each of them does.\<close>

lemma try_bind_field:
  "(\<And>s a. fld (fst (g s a)) = fld s) \<Longrightarrow> fld (fst (try_bind m g)) = fld (fst m)"
  by (cases m; cases "snd m") auto

lemmas keeps_bind =
  try_bind_field [where fld = engine] try_bind_field [where fld = policy]
  try_bind_field [where fld = packs] try_bind_field [where fld = namespaces]
  try_bind_field [where fld = sink] try_bind_field [where fld = clock]

lemma emit_keeps [simp]:
  "engine (fst (emit now agent kind k)) = engine k" "policy (fst (emit now agent kind k)) = policy k"
  "packs (fst (emit now agent kind k)) = packs k"
  "namespaces (fst (emit now agent kind k)) = namespaces k"
  "sink (fst (emit now agent kind k)) = sink k" "clock (fst (emit now agent kind k)) = clock k"
  by (simp_all add: emit_eq split: prod.split)

lemma emit_all_keeps [simp]:
  "engine (fst (emit_all now agent kinds k)) = engine k"
  "policy (fst (emit_all now agent kinds k)) = policy k"
  "packs (fst (emit_all now agent kinds k)) = packs k"
  "namespaces (fst (emit_all now agent kinds k)) = namespaces k"
  "sink (fst (emit_all now agent kinds k)) = sink k" "clock (fst (emit_all now agent kinds k)) = clock k"
  by (induction kinds arbitrary: k) (simp_all add: keeps_bind)

lemma call_effect_keeps [simp]:
  "engine (fst (call_effect pack token c k)) = engine k"
  "policy (fst (call_effect pack token c k)) = policy k"
  "packs (fst (call_effect pack token c k)) = packs k"
  "namespaces (fst (call_effect pack token c k)) = namespaces k"
  "sink (fst (call_effect pack token c k)) = sink k"
  "clock (fst (call_effect pack token c k)) = clock k"
proof -
  obtain w where w: "fst (call_effect pack token c k) = k\<lparr>world := w\<rparr>"
    using call_effect_world [OF surjective_pairing] by blast
  show "engine (fst (call_effect pack token c k)) = engine k"
    "policy (fst (call_effect pack token c k)) = policy k"
    "packs (fst (call_effect pack token c k)) = packs k"
    "namespaces (fst (call_effect pack token c k)) = namespaces k"
    "sink (fst (call_effect pack token c k)) = sink k"
    "clock (fst (call_effect pack token c k)) = clock k"
    unfolding w by simp_all
qed

lemma authorize_keeps [simp]:
  "engine (fst (authorize_pack_operation pack token required params k)) = engine k"
  "policy (fst (authorize_pack_operation pack token required params k)) = policy k"
  "packs (fst (authorize_pack_operation pack token required params k)) = packs k"
  "namespaces (fst (authorize_pack_operation pack token required params k)) = namespaces k"
  "sink (fst (authorize_pack_operation pack token required params k)) = sink k"
  "clock (fst (authorize_pack_operation pack token required params k)) = clock k"
  by (simp_all add: authorize_pack_operation_cases audit_denial_def keeps_bind split: sum.split)

lemma run_call_keeps [simp]:
  "engine (fst (run_call pid token c k)) = engine k" "policy (fst (run_call pid token c k)) = policy k"
  "packs (fst (run_call pid token c k)) = packs k"
  "namespaces (fst (run_call pid token c k)) = namespaces k"
  "sink (fst (run_call pid token c k)) = sink k" "clock (fst (run_call pid token c k)) = clock k"
  by (simp_all add: run_call_governed governed_def get_pack_def keeps_bind del: run_call.simps)

lemma issue_pack_token_keeps [simp]:
  "engine (fst (issue_pack_token pack agent ttl k)) = engine k"
  "policy (fst (issue_pack_token pack agent ttl k)) =
     fst (pe_issue_token (engine k) (policy k) pack agent (clock k (world k)) ttl)"
  "packs (fst (issue_pack_token pack agent ttl k)) = packs k"
  "namespaces (fst (issue_pack_token pack agent ttl k)) = namespaces k"
  "sink (fst (issue_pack_token pack agent ttl k)) = sink k"
  by (simp_all add: issue_pack_token_def Let_def keeps_bind split: prod.split)

lemma revoke_keeps [simp]:
  "engine (fst (kernel_revoke_token tid actor k)) = engine k"
  "policy (fst (kernel_revoke_token tid actor k)) = fst (pe_revoke_token (engine k) (policy k) tid)"
  "packs (fst (kernel_revoke_token tid actor k)) = packs k"
  "namespaces (fst (kernel_revoke_token tid actor k)) = namespaces k"
  "sink (fst (kernel_revoke_token tid actor k)) = sink k"
  by (simp_all add: kernel_revoke_token_def keeps_bind split: prod.split)

lemmas registration_defs = register_policy_extension_def register_harness_adapter_def
  register_core_connector_adapter_def register_connector_extension_adapter_def
  set_default_core_connector_adapter_def register_core_runtime_adapter_def
  register_runtime_extension_adapter_def set_default_core_runtime_adapter_def
  register_core_tool_adapter_def register_tool_extension_adapter_def
  set_default_core_tool_adapter_def register_core_memory_adapter_def
  register_memory_extension_adapter_def set_default_core_memory_adapter_def with_plane_result_def
  kernel_revoke_generation_def record_audit_event_def authorize_operation_def
  record_plane_invocation_def get_pack_def

lemma issue_result:
  "fst (kernel_issue_token pid agent ttl k) = k
   \<or> (\<exists>pack. fst (kernel_issue_token pid agent ttl k) = fst (issue_pack_token pack agent ttl k))"
  by (cases "bt_get (packs k) pid") (auto simp: kernel_issue_token_def get_pack_def)

lemma scoped_result:
  "fst (issue_scoped_token pid agent allowed ttl k) = k
   \<or> (\<exists>pack. fst (issue_scoped_token pid agent allowed ttl k) = fst (issue_pack_token pack agent ttl k))"
proof (cases "bt_get (packs k) pid")
  case (Some pack)
  then show ?thesis
    by (cases "assert_pack_grants pack allowed") (auto simp: issue_scoped_token_def get_pack_def)
qed (simp add: issue_scoped_token_def get_pack_def)

lemma step_engine: "kernel_step k k' \<Longrightarrow> engine k' = engine k \<and> sink k' = sink k"
proof (induction rule: kernel_step.induct)
  case (step_issue k pid agent ttl)
  then show ?case using issue_result [of pid agent ttl k] by auto
next
  case (step_scoped k pid agent allowed ttl)
  then show ?case using scoped_result [of pid agent allowed ttl k] by auto
qed (simp_all add: registration_defs register_pack_def Let_def keeps_bind del: run_call.simps
      split: sum.split prod.split)

context engine_contract
begin

lemma step_keeps_dead:
  "kernel_step k k' \<Longrightarrow> engine k = pe \<Longrightarrow> dead pe (policy k) t \<Longrightarrow> dead pe (policy k') t"
proof (induction rule: kernel_step.induct)
  case (step_issue k pid agent ttl)
  with issue_result [of pid agent ttl k] show ?case
    by (metis issue_pack_token_keeps(2) dead_issue)
next
  case (step_scoped k pid agent allowed ttl)
  with scoped_result [of pid agent allowed ttl k] show ?case
    by (metis issue_pack_token_keeps(2) dead_issue)
next
  case (step_revoke k tid actor)
  then show ?case by (simp add: dead_revoke)
next
  case (step_generation k below)
  then show ?case by (simp add: kernel_revoke_generation_def dead_revoke_generation)
qed (simp_all add: registration_defs register_pack_def Let_def keeps_bind del: run_call.simps
      split: sum.split prod.split)

lemma run_keeps_dead:
  "rtranclp kernel_step k k' \<Longrightarrow> engine k = pe \<Longrightarrow> dead pe (policy k) t \<Longrightarrow>
     engine k' = pe \<and> dead pe (policy k') t"
  by (induction rule: rtranclp_induct) (auto dest: step_engine step_keeps_dead)

lemma dead_token_permits_nothing:
  "engine k = pe \<Longrightarrow> dead pe (policy k) t \<Longrightarrow> \<not> permits k pid t c"
  by (auto simp: permits_def dead_def split: option.splits)

end

text \<open>
  C8: revocation is final for the whole kernel.  After \<open>revoke_token\<close> has succeeded under the static
  engine, and after any sequence of further operations of the kernel (registrations, issues, other
  revocations, calls with other tokens, changes of the world), a call with the revoked token fails
  and changes nothing but the audit trail.
\<close>

theorem revoked_token_never_runs:
  assumes "engine k = static_engine" and "kernel_revoke_token (token_id t) actor k = (k1, Inr ())"
    and "rtranclp kernel_step k1 k2"
  shows "same_but_audit k2 (fst (run_call pid t c k2)) \<and> isl (snd (run_call pid t c k2))"
proof -
  obtain p' where p': "pe_revoke_token static_engine (policy k) (token_id t) = (p', Inr ())"
    "policy k1 = p'" "engine k1 = static_engine"
    using assms(1,2) revoke_keeps(1,2) [of "token_id t" actor k]
    by (cases "pe_revoke_token static_engine (policy k) (token_id t)";
        cases "snd (pe_revoke_token static_engine (policy k) (token_id t))")
      (auto simp: kernel_revoke_token_def)
  then have "dead static_engine (policy k1) t"
    using static.revoke_kills [of "policy k" "token_id t"] by simp
  with p' assms(3) have "engine k2 = static_engine" "dead static_engine (policy k2) t"
    using static.run_keeps_dead by blast+
  then have "\<not> permits k2 pid t c"
    by (rule static.dead_token_permits_nothing)
  from governed_denied [OF this surjective_pairing] show ?thesis
    by (simp add: run_call_governed del: run_call.simps)
qed

theorem revoked_token_never_runs_witness:
  "\<exists>k1. kernel_revoke_token ''tok-1'' None sample_kernel = (k1, Inr ())
     \<and> isl (snd (run_call ''sales'' (sample_token 20) sample_call
         (fst (kernel_issue_token ''sales'' ''agent'' 60 (k1\<lparr>world := 7\<rparr>)))))"
proof -
  obtain k1 where k1: "kernel_revoke_token (token_id (sample_token 20)) None sample_kernel = (k1, Inr ())"
    by (simp add: kernel_revoke_token_def revoke_token_def static_default_def emit_eq
        in_memory_record_def in_memory_default_def with_capacity_def default_in_memory_audit_capacity_def)
  have "kernel_step k1 (k1\<lparr>world := 7\<rparr>)"
      "kernel_step (k1\<lparr>world := 7\<rparr>) (fst (kernel_issue_token ''sales'' ''agent'' 60 (k1\<lparr>world := 7\<rparr>)))"
    by (rule step_world, rule step_issue)
  then have run: "rtranclp kernel_step k1
      (fst (kernel_issue_token ''sales'' ''agent'' 60 (k1\<lparr>world := 7\<rparr>)))"
    by (meson rtranclp.rtrancl_into_rtrancl r_into_rtranclp)
  from revoked_token_never_runs [OF _ k1 run, of "''sales''" sample_call] k1 show ?thesis
    by (auto simp: sample_token_def simp del: run_call.simps)
qed

section \<open>Packs and namespaces\<close>

definition namespace_of :: "vertical_pack_manifest \<Rightarrow> namespace" where
  "namespace_of pack = \<lparr>ns_pack_id = pack_id pack, ns_domain = pack_domain pack,
     ns_membrane = pack_id pack, ns_default_route = default_route pack,
     ns_granted_capabilities = granted_capabilities pack\<rparr>"

definition packs_ok :: "('p, 'a, 'w) loong_kernel \<Rightarrow> bool" where
  "packs_ok k \<longleftrightarrow> bt_ok (packs k) \<and> bt_ok (namespaces k)
     \<and> bt_get (namespaces k) = map_option namespace_of \<circ> bt_get (packs k)
     \<and> (\<forall>pid pack. bt_get (packs k) pid = Some pack \<longrightarrow> pack_id pack = pid)"

lemma packs_ok_initial: "packs_ok (with_runtime pe p clk snk a w)"
  by (auto simp: packs_ok_def with_runtime_def)

lemma register_pack_ok:
  assumes "packs_ok k"
  shows "packs_ok (fst (register_pack semver_ok pack k))"
    and "bt_get (packs k) pid = Some old \<Longrightarrow>
      bt_get (packs (fst (register_pack semver_ok pack k))) pid = Some old"
  using assms
  by (auto simp: packs_ok_def register_pack_def Let_def namespace_of_def bt_contains_key_def fun_eq_iff
      split: sum.split)

lemma step_packs:
  "kernel_step k k' \<Longrightarrow> packs_ok k \<Longrightarrow>
     packs_ok k' \<and> (bt_get (packs k) pid = Some pack \<longrightarrow> bt_get (packs k') pid = Some pack)"
proof (induction rule: kernel_step.induct)
  case (step_pack k semver_ok pk)
  then show ?case by (simp add: register_pack_ok)
next
  case (step_issue k pid agent ttl)
  then show ?case using issue_result [of pid agent ttl k] by (auto simp: packs_ok_def)
next
  case (step_scoped k pid agent allowed ttl)
  then show ?case using scoped_result [of pid agent allowed ttl k] by (auto simp: packs_ok_def)
qed (simp_all add: packs_ok_def registration_defs keeps_bind del: run_call.simps split: prod.split)

lemma run_packs:
  "rtranclp kernel_step k k' \<Longrightarrow> packs_ok k \<Longrightarrow>
     packs_ok k' \<and> (bt_get (packs k) pid = Some pack \<longrightarrow> bt_get (packs k') pid = Some pack)"
proof (induction rule: rtranclp_induct)
  case (step k1 k2)
  then show ?case using step_packs [OF step.hyps(2), of pid pack] by blast
qed simp

text \<open>
  C11: packs are immutable and namespaces mirror them.  In every later state of a kernel, every
  identifier has the namespace that is the projection of the pack registered under it, and none
  when no pack is; and a pack once registered is registered under its own identifier, and from then
  on no operation changes or replaces it: its grants cannot be widened later.
\<close>

theorem packs_are_immutable:
  assumes "rtranclp kernel_step (with_runtime pe p clk snk a w) k" and "rtranclp kernel_step k k'"
    and "bt_get (packs k) pid = Some pack"
  shows "pack_id pack = pid \<and> bt_get (packs k') pid = Some pack
     \<and> get_namespace k' pid = Some (namespace_of pack)
     \<and> (\<forall>other. get_namespace k' other = map_option namespace_of (bt_get (packs k') other))"
proof -
  have "packs_ok k"
    using run_packs [OF assms(1) packs_ok_initial] by blast
  with run_packs [OF assms(2) this, of pid pack] assms(3) show ?thesis
    by (auto simp: packs_ok_def get_namespace_def)
qed

theorem packs_are_immutable_witness:
  "get_namespace (fst (register_pack (\<lambda>_. True) (sample_pack\<lparr>granted_capabilities := UNIV\<rparr>)
       (fst (register_pack (\<lambda>_. True) sample_pack
         (new_with_in_memory_audit static_engine static_default (\<lambda>_. 10) (0::nat)))))) ''sales''
     = Some (namespace_of sample_pack)"
proof -
  let ?k0 = "new_with_in_memory_audit static_engine static_default (\<lambda>_. 10) (0::nat)"
  let ?k1 = "fst (register_pack (\<lambda>_. True) sample_pack ?k0)"
  have run: "rtranclp kernel_step ?k0 ?k1"
    by (intro r_into_rtranclp step_pack)
  have pack: "bt_get (packs ?k1) ''sales'' = Some sample_pack"
    by (simp add: register_pack_def pack_validate_def sample_pack_def trim_no_ws is_ws_def
        new_with_in_memory_audit_def with_runtime_def bt_contains_key_def Let_def)
  have run': "rtranclp kernel_step ?k1
      (fst (register_pack (\<lambda>_. True) (sample_pack\<lparr>granted_capabilities := UNIV\<rparr>) ?k1))"
    by (intro r_into_rtranclp step_pack)
  show ?thesis
    using packs_are_immutable [OF run [unfolded new_with_in_memory_audit_def]
        run' [unfolded new_with_in_memory_audit_def] pack [unfolded new_with_in_memory_audit_def]]
    unfolding new_with_in_memory_audit_def by (elim conjE)
qed

section \<open>The numbering of audit events\<close>

text \<open>
  \<open>audits k n k'\<close>: between \<open>k\<close> and \<open>k'\<close> the sink was asked to record \<open>n\<close> events, each with the
  identifier of the next number.
\<close>

definition event_name :: "u64 \<Rightarrow> string" where
  "event_name i = ''evt-'' @ hex16 i"

inductive audits :: "('p, 'a, 'w) loong_kernel \<Rightarrow> nat \<Rightarrow> ('p, 'a, 'w) loong_kernel \<Rightarrow> bool" where
  audits_quiet:
    "audit k' = audit k \<Longrightarrow> event_seq k' = event_seq k \<Longrightarrow> sink k' = sink k \<Longrightarrow> audits k 0 k'"
| audits_event:
    "audits k n k1 \<Longrightarrow> event_id ev = event_name (event_seq k1 + 1) \<Longrightarrow>
     audit k2 = fst (sink k1 (audit k1) ev) \<Longrightarrow> event_seq k2 = event_seq k1 + 1 \<Longrightarrow>
     sink k2 = sink k1 \<Longrightarrow> audits k (Suc n) k2"

lemma audits_cong:
  "audits k n k1 \<Longrightarrow> audit k' = audit k1 \<Longrightarrow> event_seq k' = event_seq k1 \<Longrightarrow> sink k' = sink k1 \<Longrightarrow>
     audits k n k'"
  by (erule audits.cases) (simp_all add: audits_quiet audits_event)

lemma audits_trans: "audits k1 m k2 \<Longrightarrow> audits k n k1 \<Longrightarrow> audits k (n + m) k2"
proof (induction rule: audits.induct)
  case (audits_quiet k' k1)
  then show ?case by (simp add: audits_cong)
next
  case (audits_event k1 m k2 ev k3)
  then show ?case
    using audits.audits_event [of k "n + m" k2 ev k3] by simp
qed

definition audited :: "('p, 'a, 'w) loong_kernel \<Rightarrow> ('p, 'a, 'w) loong_kernel \<Rightarrow> bool" where
  "audited k k' \<longleftrightarrow> (\<exists>n. audits k n k')"

lemma audited_quiet [simp, intro]:
  "audit k' = audit k \<Longrightarrow> event_seq k' = event_seq k \<Longrightarrow> sink k' = sink k \<Longrightarrow> audited k k'"
  unfolding audited_def by (blast intro: audits_quiet)

lemma audited_trans: "audited k k1 \<Longrightarrow> audited k1 k2 \<Longrightarrow> audited k k2"
  unfolding audited_def by (blast intro: audits_trans)

lemma audited_emit [simp, intro]: "audited k (fst (emit now agent kind k))"
  unfolding audited_def
  by (rule exI [of _ "Suc 0"], rule audits_event [OF audits_quiet [OF refl refl refl],
      where ev = "\<lparr>event_id = event_name (event_seq k + 1), timestamp_epoch_s = now,
        event_agent_id = agent, event_kind = kind\<rparr>"])
    (simp_all add: emit_eq event_name_def split: prod.split)

lemma audited_bind:
  "audited k (fst m) \<Longrightarrow> (\<And>s a. audited s (fst (g s a))) \<Longrightarrow> audited k (fst (try_bind m g))"
  by (cases m; cases "snd m") (simp_all add: audited_trans [of k "fst m"])

lemma audited_emit_all [simp, intro]: "audited k (fst (emit_all now agent kinds k))"
  by (induction kinds arbitrary: k) (auto intro: audited_bind)

lemma call_effect_quiet:
  "audit (fst (call_effect pack token c k)) = audit k"
  "event_seq (fst (call_effect pack token c k)) = event_seq k"
proof -
  obtain w where w: "fst (call_effect pack token c k) = k\<lparr>world := w\<rparr>"
    using call_effect_world [OF surjective_pairing] by blast
  show "audit (fst (call_effect pack token c k)) = audit k"
    "event_seq (fst (call_effect pack token c k)) = event_seq k"
    unfolding w by simp_all
qed

lemma audited_authorize [simp, intro]:
  "audited k (fst (authorize_pack_operation pack token required params k))"
  by (auto simp: authorize_pack_operation_cases audit_denial_def split: sum.split intro!: audited_bind)

lemma audited_call [simp, intro]: "audited k (fst (run_call pid token c k))"
  unfolding run_call_governed governed_def get_pack_def
  by (intro audited_bind audited_authorize audited_emit_all audited_quiet)
    (simp_all add: call_effect_quiet)

lemma audited_issue [simp, intro]: "audited k (fst (issue_pack_token pack agent ttl k))"
  unfolding issue_pack_token_def Let_def
  by (auto split: prod.split intro!: audited_bind)

lemma audited_revoke [simp, intro]: "audited k (fst (kernel_revoke_token tid actor k))"
  unfolding kernel_revoke_token_def
  by (auto split: prod.split intro!: audited_bind)

lemma audited_authorize_operation [simp, intro]:
  "audited k (fst (authorize_operation pid token plane tier primary delegated operation required k))"
  unfolding authorize_operation_def get_pack_def record_plane_invocation_def
  by (intro audited_bind audited_authorize audited_emit) simp_all

lemma step_audited: "kernel_step k k' \<Longrightarrow> audited k k'"
proof (induction rule: kernel_step.induct)
  case (step_issue k pid agent ttl)
  then show ?case using issue_result [of pid agent ttl k] by auto
next
  case (step_scoped k pid agent allowed ttl)
  then show ?case using scoped_result [of pid agent allowed ttl k] by auto
next
  case (step_authorize k)
  then show ?case by simp
qed (simp_all add: registration_defs register_pack_def Let_def del: run_call.simps
      split: sum.split prod.split)

text \<open>A run of the kernel in which \<open>n\<close> events were sent to the sink.\<close>

inductive kernel_run :: "('p, 'a, 'w) loong_kernel \<Rightarrow> nat \<Rightarrow> ('p, 'a, 'w) loong_kernel \<Rightarrow> bool" where
  run_start: "kernel_run k 0 k"
| run_step: "kernel_run k n k1 \<Longrightarrow> kernel_step k1 k2 \<Longrightarrow> audits k1 m k2 \<Longrightarrow> kernel_run k (n + m) k2"

lemma kernel_run_audits: "kernel_run k n k' \<Longrightarrow> audits k n k'"
  by (induction rule: kernel_run.induct) (auto intro: audits_quiet audits_trans)

text \<open>The events in memory carry ascending numbers, none above the counter.\<close>

definition memory_numbered :: "nat \<Rightarrow> in_memory_audit_sink \<Rightarrow> bool" where
  "memory_numbered n s \<longleftrightarrow> (\<exists>is. map event_id (sink_events s) = map (\<lambda>i. event_name (of_nat i)) is
     \<and> sorted_wrt (<) is \<and> (\<forall>i \<in> set is. i \<le> n))"

lemma memory_numbered_append:
  assumes "memory_numbered n s" and "event_id ev = event_name (of_nat (Suc n))"
    and "suffix (sink_events s') (sink_events s @ [ev]) \<or> sink_events s' = sink_events s"
  shows "memory_numbered (Suc n) s'"
proof -
  obtain js where js: "map event_id (sink_events s) = map (\<lambda>i. event_name (of_nat i)) js"
      "sorted_wrt (<) js" "\<forall>i \<in> set js. i \<le> n"
    using assms(1) by (auto simp: memory_numbered_def)
  then have snoc: "map event_id (sink_events s @ [ev]) = map (\<lambda>i. event_name (of_nat i)) (js @ [Suc n])"
      "sorted_wrt (<) (js @ [Suc n])"
    using assms(2) by (auto simp: sorted_wrt_append)
  from assms(3) show ?thesis
  proof
    assume "suffix (sink_events s') (sink_events s @ [ev])"
    then obtain zs where zs: "sink_events s @ [ev] = zs @ sink_events s'"
      by (auto simp: suffix_def)
    let ?is = "drop (length zs) (js @ [Suc n])"
    have "sink_events s' = drop (length zs) (sink_events s @ [ev])"
      by (simp only: zs) simp
    then have "map event_id (sink_events s') = map (\<lambda>i. event_name (of_nat i)) ?is"
      using arg_cong [OF snoc(1), of "drop (length zs)"] by (simp only: drop_map)
    moreover have "sorted_wrt (<) ?is"
      using snoc(2) by (rule sorted_wrt_drop)
    moreover have "\<forall>i \<in> set ?is. i \<le> Suc n"
      using js(3) by (auto dest!: in_set_dropD)
    ultimately show ?thesis
      unfolding memory_numbered_def by blast
  next
    assume "sink_events s' = sink_events s"
    with js show ?thesis
      unfolding memory_numbered_def by (metis le_SucI)
  qed
qed

lemma in_memory_record_events:
  "suffix (sink_events (fst (in_memory_record s e))) (sink_events s @ [e])
   \<or> sink_events (fst (in_memory_record s e)) = sink_events s"
  by (auto simp: in_memory_record_def suffix_def split: list.splits)

lemma audits_memory:
  "audits k n k' \<Longrightarrow> sink k = in_memory_record \<Longrightarrow> event_seq k = 0 \<Longrightarrow> sink_events (audit k) = [] \<Longrightarrow>
     sink k' = in_memory_record \<and> event_seq k' = of_nat n \<and> memory_numbered n (audit k')"
proof (induction rule: audits.induct)
  case (audits_quiet k' k)
  then show ?case by (simp add: memory_numbered_def)
next
  case (audits_event k n k1 ev k2)
  then have "memory_numbered n (audit k1)" "event_id ev = event_name (of_nat (Suc n))"
    by (simp_all add: add.commute)
  from memory_numbered_append [OF this] in_memory_record_events audits_event show ?case
    by simp
qed

text \<open>
  Audit events are numbered without repetition.  In every run of a kernel with an in-memory
  sink that sends fewer than \<open>2 ^ 64\<close> events, the identifiers of the events in its snapshot are the
  names of strictly ascending numbers, the counter is the number of events sent, and so no two
  events in the snapshot share an identifier.
\<close>

theorem audit_event_ids_distinct:
  assumes "kernel_run (new_with_in_memory_audit pe p clk w) n k" and "n < 2 ^ 64"
  shows "event_seq k = of_nat n \<and> distinct (map event_id (snapshot (audit k)))"
proof -
  have num: "event_seq k = of_nat n" "memory_numbered n (audit k)"
    using audits_memory [OF kernel_run_audits [OF assms(1)]]
    by (simp_all add: new_with_in_memory_audit_def with_runtime_def in_memory_default_def with_capacity_def)
  then obtain js where js: "map event_id (sink_events (audit k)) = map (\<lambda>i. event_name (of_nat i)) js"
      "sorted_wrt (<) js" "\<forall>i \<in> set js. i \<le> n"
    by (auto simp: memory_numbered_def)
  have "inj_on (\<lambda>i. event_name (of_nat i)) (set js)"
  proof (rule inj_onI)
    fix i j assume ij: "i \<in> set js" "j \<in> set js" "event_name (of_nat i) = event_name (of_nat j)"
    then have "i < 2 ^ 64" "j < 2 ^ 64"
      using js(3) assms(2) by fastforce+
    with ij(3) show "i = j"
      by (simp add: event_name_def word_unat_eq_iff unat_of_nat)
  qed
  with js have "distinct (map event_id (sink_events (audit k)))"
    by (simp add: distinct_map strict_sorted_iff)
  with num show ?thesis
    by (simp add: snapshot_def)
qed

theorem audit_event_ids_distinct_witness:
  "\<exists>k. kernel_run (new_with_in_memory_audit static_engine static_default (\<lambda>_. 10) (0::nat)) 1 k
     \<and> distinct (map event_id (snapshot (audit k)))"
proof -
  let ?k0 = "new_with_in_memory_audit static_engine static_default (\<lambda>_. 10) (0::nat)"
  let ?k1 = "fst (record_audit_event None (TokenRevoked ''t'') ?k0)"
  have "audits ?k0 (Suc 0) ?k1"
    by (rule audits_event [OF audits_quiet [OF refl refl refl],
        where ev = "\<lparr>event_id = event_name (event_seq ?k0 + 1), timestamp_epoch_s = 10,
          event_agent_id = None, event_kind = TokenRevoked ''t''\<rparr>"])
      (simp_all add: record_audit_event_def emit_eq event_name_def new_with_in_memory_audit_def
        with_runtime_def split: prod.split)
  then have "kernel_run ?k0 (0 + Suc 0) ?k1"
    by (intro run_step [OF run_start step_record])
  then have run: "kernel_run ?k0 1 ?k1" by simp
  show ?thesis
    using audit_event_ids_distinct [OF run] run by auto
qed

end
