(* ===== verification/Task_Supervisor.thy ===== *)
theory Task_Supervisor
  imports Kernel_Core
begin

text \<open>
  \<open>crates/kernel/src/task_supervisor.rs\<close>: the wrapper around \<open>execute_task\<close> that drives one task
  through its life cycle.  The messages of refused transitions contain the \<open>Debug\<close> text of a state,
  the parameter \<open>dbg\<close>.
\<close>

record task_supervisor =
  supervised_state :: task_state

definition supervisor_new :: "task_intent \<Rightarrow> task_supervisor" where
  "supervisor_new intent = \<lparr>supervised_state = Runnable intent\<rparr>"

definition is_runnable :: "task_supervisor \<Rightarrow> bool" where
  "is_runnable ts \<longleftrightarrow> (case supervised_state ts of Runnable _ \<Rightarrow> True | _ \<Rightarrow> False)"

text \<open>
  \<open>execute\<close> takes the supervisor and the kernel, and returns both with the result.  A panic of the
  harness adapter unwinds through it and leaves the state that was set before the call.
\<close>

definition supervisor_execute ::
    "(task_state \<Rightarrow> string) \<Rightarrow> string \<Rightarrow> capability_token \<Rightarrow> task_supervisor \<times> ('p, 'a, 'w) loong_kernel
       \<Rightarrow> (task_supervisor \<times> ('p, 'a, 'w) loong_kernel) \<times> (fault failure + kernel_dispatch)" where
  "supervisor_execute dbg pid token s =
     (case s of (ts, k) \<Rightarrow>
      (case supervised_state ts of
         Runnable intent \<Rightarrow>
           (case transition_to_in_send dbg (supervised_state ts) of
              Inl detail \<Rightarrow> ((ts, k), Inl (Error (ProtocolViolation detail)))
            | Inr s1 \<Rightarrow>
                (case transition_to_in_reply dbg s1 of
                   Inl detail \<Rightarrow> ((ts\<lparr>supervised_state := s1\<rparr>, k), Inl (Error (ProtocolViolation detail)))
                 | Inr s2 \<Rightarrow>
                     (case execute_task pid token intent k of
                        (k', Inr dispatch) \<Rightarrow>
                          (case transition_to_completed dbg s2 (dispatch_outcome dispatch) of
                             Inl detail \<Rightarrow>
                               ((ts\<lparr>supervised_state := s2\<rparr>, k'), Inl (Error (ProtocolViolation detail)))
                           | Inr s3 \<Rightarrow> ((ts\<lparr>supervised_state := s3\<rparr>, k'), Inr dispatch))
                      | (k', Inl (Error e)) \<Rightarrow>
                          (let fault = from_kernel_error e in
                           ((ts\<lparr>supervised_state := transition_to_faulted s2 fault\<rparr>, k'),
                            Inl (Error fault)))
                      | (k', Inl (Panicked payload)) \<Rightarrow>
                          ((ts\<lparr>supervised_state := s2\<rparr>, k'), Inl (Panicked payload)))))
       | _ \<Rightarrow> ((ts, k), Inl (Error (ProtocolViolation ''task is not in Runnable state'')))))"

text \<open>The first execution of a task, spelled out.\<close>

lemma supervisor_execute_runnable:
  "supervisor_execute dbg pid token (supervisor_new intent, k) =
     (case execute_task pid token intent k of
        (k', Inr dispatch) \<Rightarrow>
          ((\<lparr>supervised_state = Completed (dispatch_outcome dispatch)\<rparr>, k'), Inr dispatch)
      | (k', Inl (Error e)) \<Rightarrow>
          ((\<lparr>supervised_state = Faulted (from_kernel_error e)\<rparr>, k'), Inl (Error (from_kernel_error e)))
      | (k', Inl (Panicked payload)) \<Rightarrow>
          ((\<lparr>supervised_state = InReply (intent_task_id intent)\<rparr>, k'), Inl (Panicked payload)))"
  by (auto simp: supervisor_execute_def supervisor_new_def transition_to_faulted_def Let_def
      split: prod.split sum.split failure.split)

lemma supervisor_execute_not_runnable:
  "\<not> is_runnable ts \<Longrightarrow> supervisor_execute dbg pid token (ts, k) =
     ((ts, k), Inl (Error (ProtocolViolation ''task is not in Runnable state'')))"
  by (auto simp: supervisor_execute_def is_runnable_def split: task_state.splits)

text \<open>
  A supervised task runs at most once and ends where its result says.  The first execution is
  one \<open>execute_task\<close> of the intent; it ends in \<open>Completed\<close> with the outcome returned, or in \<open>Faulted\<close>
  with the fault returned (and only a panic leaves \<open>InReply\<close>).  Every later execution is refused as a
  protocol violation and touches neither the kernel nor the supervisor.
\<close>

theorem supervised_task_runs_once:
  "\<exists>ts'. fst (fst (supervisor_execute dbg pid token (supervisor_new intent, k))) = ts'
     \<and> snd (fst (supervisor_execute dbg pid token (supervisor_new intent, k)))
         = fst (execute_task pid token intent k)
     \<and> (case snd (supervisor_execute dbg pid token (supervisor_new intent, k)) of
          Inr dispatch \<Rightarrow> supervised_state ts' = Completed (dispatch_outcome dispatch)
            \<and> snd (execute_task pid token intent k) = Inr dispatch
        | Inl (Error f) \<Rightarrow> supervised_state ts' = Faulted f
        | Inl (Panicked _) \<Rightarrow> supervised_state ts' = InReply (intent_task_id intent))
     \<and> (\<forall>pid2 token2 k2. supervisor_execute dbg pid2 token2 (ts', k2) =
          ((ts', k2), Inl (Error (ProtocolViolation ''task is not in Runnable state''))))"
  by (auto simp: supervisor_execute_runnable supervisor_execute_not_runnable is_runnable_def
      split: prod.split sum.split failure.split)

end
