(* ===== verification/Agent_Mailbox.thy ===== *)
theory Agent_Mailbox
  imports Rust_Strings Contracts
begin

text \<open>
  \<open>crates/kernel/src/mailbox.rs\<close>: agent paths and the mailbox between agents.  The unbounded channel
  of \<open>tokio\<close> is a parameter (\<open>channel_ops\<close> over a channel state \<open>'c\<close>); \<open>fifo_channel\<close> is what its
  documentation promises and the mailbox relies on.
\<close>

section \<open>Agent paths\<close>

definition is_valid_segment :: "string \<Rightarrow> bool" where
  "is_valid_segment segment \<longleftrightarrow>
     list_all (\<lambda>c. is_ascii_alphanumeric c \<or> c = CHR ''_'' \<or> c = CHR ''-'' \<or> c = CHR ''.'' \<or> c = CHR '':'')
       segment"

text \<open>The loop over the segments, with its accumulator.\<close>

fun check_segments :: "string list \<Rightarrow> string list \<Rightarrow> string + string list" where
  "check_segments [] acc = Inr acc"
| "check_segments (seg # segs) acc =
     (if seg = [] then Inl ''agent_path_invalid: empty path segment''
      else if \<not> is_valid_segment seg then
        Inl (''agent_path_invalid: segment `'' @ seg @ ''` contains unsupported characters'')
      else check_segments segs (acc @ [seg]))"

definition normalize_agent_path :: "string \<Rightarrow> string + string" where
  "normalize_agent_path raw =
     (let trimmed = trim raw in
      if trimmed = [] then Inl ''agent_path_invalid: path must not be empty''
      else if hd trimmed \<noteq> CHR ''/'' then Inl ''agent_path_invalid: path must start with `/`''
      else and_then (check_segments (drop 1 (split_on (CHR ''/'') trimmed)) []) (\<lambda>segments.
        if segments = [] then Inl ''agent_path_invalid: root segment is required''
        else Inr (''/'' @ join ''/'' segments)))"

definition root_agent_path :: string where
  "root_agent_path = ''/root''"

definition agent_path_from_string :: "string \<Rightarrow> string + string" where
  "agent_path_from_string raw = normalize_agent_path raw"

definition agent_path_join :: "string \<Rightarrow> string \<Rightarrow> string + string" where
  "agent_path_join path child =
     (let c = trim child in
      if c = [] then Inl ''agent_path_invalid: child segment must not be empty''
      else if CHR ''/'' \<in> set c then Inl ''agent_path_invalid: child segment must not contain `/`''
      else if \<not> is_valid_segment c then
        Inl (''agent_path_invalid: child segment `'' @ c @ ''` contains unsupported characters'')
      else agent_path_from_string (path @ ''/'' @ c))"

section \<open>The mailbox\<close>

datatype mailbox_content =
    DelegateResult string json
  | StatusNotification string

record inter_agent_message =
  author :: string
  recipient :: string
  message_content :: mailbox_content
  trigger_turn :: bool

record 'c channel_ops =
  channel_new :: 'c
  channel_send :: "'c \<Rightarrow> inter_agent_message \<Rightarrow> 'c \<times> (string + unit)"
  channel_try_recv :: "'c \<Rightarrow> 'c \<times> inter_agent_message option"

text \<open>\<open>notifications\<close> are the sequence numbers passed to the watch channel, the latest last.\<close>

record 'c agent_mailbox =
  mail_channel :: 'c
  mail_sequence :: u64
  notifications :: "u64 list"

definition mailbox_new :: "'c channel_ops \<Rightarrow> 'c agent_mailbox" where
  "mailbox_new ops = \<lparr>mail_channel = channel_new ops, mail_sequence = 0, notifications = []\<rparr>"

definition mailbox_send ::
    "'c channel_ops \<Rightarrow> 'c agent_mailbox \<Rightarrow> inter_agent_message \<Rightarrow> 'c agent_mailbox \<times> (string + unit)" where
  "mailbox_send ops m msg =
     (case channel_send ops (mail_channel m) msg of
        (c, Inl e) \<Rightarrow> (m\<lparr>mail_channel := c\<rparr>, Inl (''agent_mailbox_closed: '' @ e))
      | (c, Inr _) \<Rightarrow>
          let next_seq = mail_sequence m + 1 in
          (m\<lparr>mail_channel := c, mail_sequence := next_seq,
             notifications := notifications m @ [next_seq]\<rparr>, Inr ()))"

text \<open>The loop of \<open>drain\<close> ends when the channel reports that it is empty.\<close>

partial_function (option) drain_loop ::
    "'c channel_ops \<Rightarrow> 'c \<Rightarrow> inter_agent_message list \<Rightarrow> ('c \<times> inter_agent_message list) option" where
  "drain_loop ops c drained =
     (case channel_try_recv ops c of
        (c', Some message) \<Rightarrow> drain_loop ops c' (drained @ [message])
      | (c', None) \<Rightarrow> Some (c', drained))"

definition mailbox_drain ::
    "'c channel_ops \<Rightarrow> 'c agent_mailbox \<Rightarrow> ('c agent_mailbox \<times> inter_agent_message list) option" where
  "mailbox_drain ops m =
     (case drain_loop ops (mail_channel m) [] of
        None \<Rightarrow> None
      | Some (c, msgs) \<Rightarrow> Some (m\<lparr>mail_channel := c\<rparr>, msgs))"

text \<open>
  What the documentation of the channel promises: messages come out in the order they went in, a
  send to a channel whose receiver is alive succeeds, and receiving from an empty one reports it.
\<close>

definition fifo_channel :: "'c channel_ops \<Rightarrow> ('c \<Rightarrow> inter_agent_message list) \<Rightarrow> bool" where
  "fifo_channel ops contents \<longleftrightarrow>
     contents (channel_new ops) = []
     \<and> (\<forall>c msg. \<exists>c'. channel_send ops c msg = (c', Inr ()) \<and> contents c' = contents c @ [msg])
     \<and> (\<forall>c. case channel_try_recv ops c of
              (c', None) \<Rightarrow> contents c = [] \<and> contents c' = []
            | (c', Some msg) \<Rightarrow> contents c = msg # contents c')"

section \<open>Lemmas\<close>

lemma check_segments_eq:
  "check_segments segs acc = Inr out \<longleftrightarrow>
     (\<forall>seg \<in> set segs. seg \<noteq> [] \<and> is_valid_segment seg) \<and> out = acc @ segs"
  by (induction segs arbitrary: acc) auto

lemma valid_segment_no_slash: "is_valid_segment seg \<Longrightarrow> CHR ''/'' \<notin> set seg"
  by (auto simp: is_valid_segment_def list_all_iff is_ascii_alphanumeric_def
      is_ascii_alphabetic_def is_ascii_lowercase_def is_ascii_uppercase_def is_ascii_digit_def)

lemma valid_segment_no_ws: "is_valid_segment seg \<Longrightarrow> \<forall>c \<in> set seg. \<not> is_ws c"
  by (fastforce simp: is_valid_segment_def list_all_iff is_ascii_alphanumeric_def is_ws_def Let_def
      is_ascii_alphabetic_def is_ascii_lowercase_def is_ascii_uppercase_def is_ascii_digit_def)

definition path_of :: "string list \<Rightarrow> string" where
  "path_of segs = ''/'' @ join ''/'' segs"

definition segments_ok :: "string list \<Rightarrow> bool" where
  "segments_ok segs \<longleftrightarrow> segs \<noteq> [] \<and> (\<forall>seg \<in> set segs. seg \<noteq> [] \<and> is_valid_segment seg)"

lemma split_path_of:
  assumes "segments_ok segs"
  shows "split_on (CHR ''/'') (path_of segs) = [] # segs"
proof -
  have "split_on (CHR ''/'') (join ''/'' segs) = segs"
    using assms valid_segment_no_slash
    by (intro split_on_join) (auto simp: segments_ok_def)
  then show ?thesis
    by (simp add: path_of_def)
qed

lemma path_of_no_ws:
  assumes "segments_ok segs"
  shows "trim (path_of segs) = path_of segs"
proof -
  have "\<forall>c \<in> set (join ''/'' segs). \<not> is_ws c"
    using assms
  proof (induction segs rule: induct_list012)
    case (3 x y zs)
    then show ?case
      using valid_segment_no_ws [of x] by (auto simp: segments_ok_def join_Cons is_ws_def)
  qed (auto simp: segments_ok_def dest: valid_segment_no_ws)
  then show ?thesis
    by (intro trim_no_ws) (auto simp: path_of_def is_ws_def)
qed

text \<open>The normal form of a path, and that normalisation accepts exactly the well-formed ones.\<close>

lemma normalize_Inr:
  "normalize_agent_path raw = Inr p \<longleftrightarrow>
     (\<exists>segs. segments_ok segs \<and> trim raw = path_of segs \<and> p = path_of segs)"
proof
  assume n: "normalize_agent_path raw = Inr p"
  define t where "t = trim raw"
  from n have t: "t \<noteq> []" "hd t = CHR ''/''"
    by (auto simp: normalize_agent_path_def t_def Let_def split: if_splits)
  then obtain rest where rest: "t = CHR ''/'' # rest"
    by (cases t) auto
  then have split: "split_on (CHR ''/'') t = [] # split_on (CHR ''/'') rest"
    by simp
  let ?segs = "split_on (CHR ''/'') rest"
  have ok: "segments_ok ?segs" "p = path_of ?segs"
    using n t split
    by (auto simp: normalize_agent_path_def t_def [symmetric] Let_def and_then_Inr check_segments_eq
        segments_ok_def path_of_def split: if_splits)
  moreover have "t = path_of ?segs"
    using join_split_on [of "CHR ''/''" rest] rest by (simp add: path_of_def)
  ultimately show "\<exists>segs. segments_ok segs \<and> trim raw = path_of segs \<and> p = path_of segs"
    by (auto simp: t_def)
next
  assume "\<exists>segs. segments_ok segs \<and> trim raw = path_of segs \<and> p = path_of segs"
  then obtain segs where segs: "segments_ok segs" "trim raw = path_of segs" "p = path_of segs"
    by blast
  then have "check_segments (drop 1 (split_on (CHR ''/'') (trim raw))) [] = Inr segs"
    by (simp add: split_path_of check_segments_eq) (simp add: segments_ok_def)
  with segs show "normalize_agent_path raw = Inr p"
    by (simp add: normalize_agent_path_def Let_def) (simp add: path_of_def segments_ok_def)
qed

lemma join_snoc: "segs \<noteq> [] \<Longrightarrow> join sep (segs @ [x]) = join sep segs @ sep @ x"
  by (induction segs rule: induct_list012) (simp_all add: join_Cons)

lemma path_of_inj:
  assumes "segments_ok xs" and "segments_ok ys" and "path_of xs = path_of ys"
  shows "xs = ys"
proof -
  have "[] # xs = [] # ys"
    using split_path_of [OF assms(1)] split_path_of [OF assms(2)] unfolding assms(3) by (rule subst)
  then show ?thesis by simp
qed

lemma from_string_path_of:
  assumes "segments_ok segs"
  shows "agent_path_from_string (path_of segs) = Inr (path_of segs)"
  unfolding agent_path_from_string_def normalize_Inr
  using assms path_of_no_ws [OF assms] by blast

lemma agent_path_join_segments:
  assumes "agent_path_from_string raw = Inr p" and "agent_path_join p child = Inr q"
  obtains segs where "segments_ok segs" "p = path_of segs" "segments_ok (segs @ [trim child])"
    "q = path_of (segs @ [trim child])"
proof -
  obtain segs where segs: "segments_ok segs" "p = path_of segs"
    using assms(1) by (auto simp: agent_path_from_string_def normalize_Inr)
  have c: "trim child \<noteq> []" "is_valid_segment (trim child)"
      "agent_path_from_string (p @ ''/'' @ trim child) = Inr q"
    using assms(2) by (auto simp: agent_path_join_def Let_def split: if_splits)
  have new: "segments_ok (segs @ [trim child])" "p @ ''/'' @ trim child = path_of (segs @ [trim child])"
    using segs c(1,2) by (auto simp: segments_ok_def path_of_def join_snoc)
  with c(3) from_string_path_of [OF new(1)] segs show thesis
    by (intro that) auto
qed

section \<open>Properties\<close>

text \<open>
  Agent paths have one normal form.  An accepted path is its own normal form; joining a child
  to it appends exactly one segment and gives an accepted path again, so that a child path
  determines its parent and the name of the child.
\<close>

theorem agent_path_join_appends_segment:
  assumes "agent_path_from_string raw = Inr p" and "agent_path_join p child = Inr q"
  shows "agent_path_from_string p = Inr p \<and> agent_path_from_string q = Inr q
     \<and> q = p @ ''/'' @ trim child
     \<and> (\<forall>raw2 p2 child2. agent_path_from_string raw2 = Inr p2 \<longrightarrow>
          agent_path_join p2 child2 = Inr q \<longrightarrow> p2 = p \<and> trim child2 = trim child)"
proof -
  obtain segs where segs: "segments_ok segs" "p = path_of segs" "segments_ok (segs @ [trim child])"
      "q = path_of (segs @ [trim child])"
    by (rule agent_path_join_segments [OF assms])
  have "p2 = p \<and> trim child2 = trim child"
    if 2: "agent_path_from_string raw2 = Inr p2" "agent_path_join p2 child2 = Inr q" for raw2 p2 child2
  proof (rule agent_path_join_segments [OF 2])
    fix segs2
    assume s2: "p2 = path_of segs2" "segments_ok (segs2 @ [trim child2])" "q = path_of (segs2 @ [trim child2])"
    have "segs2 @ [trim child2] = segs @ [trim child]"
      by (rule path_of_inj [OF s2(2) segs(3) trans [OF s2(3) [symmetric] segs(4)]])
    then show ?thesis using segs(2) s2(1) by simp
  qed
  moreover have "q = p @ ''/'' @ trim child"
    using segs(1) unfolding segs(2,4) by (simp add: path_of_def join_snoc segments_ok_def)
  moreover have "agent_path_from_string p = Inr p" "agent_path_from_string q = Inr q"
    using from_string_path_of [OF segs(1)] from_string_path_of [OF segs(3)] unfolding segs(2,4) .
  ultimately show ?thesis by blast
qed

theorem agent_path_join_appends_segment_witness:
  "agent_path_from_string ''/root/a'' = Inr ''/root/a''
   \<and> agent_path_join ''/root'' ''a'' = Inr ''/root/a''"
proof -
  have p: "agent_path_from_string '' /root '' = Inr ''/root''"
    by code_simp
  have q: "agent_path_join ''/root'' ''a'' = Inr ''/root/a''"
    by code_simp
  show ?thesis
    by (rule conjI [OF agent_path_join_appends_segment [OF p q, THEN conjunct2, THEN conjunct1] q])
qed

text \<open>Sending a list of messages.\<close>

fun send_all ::
    "'c channel_ops \<Rightarrow> 'c agent_mailbox \<Rightarrow> inter_agent_message list \<Rightarrow> 'c agent_mailbox \<times> (string + unit)" where
  "send_all ops m [] = (m, Inr ())"
| "send_all ops m (msg # msgs) = try_bind (mailbox_send ops m msg) (\<lambda>m _. send_all ops m msgs)"

lemma drain_loop_fifo:
  assumes "fifo_channel ops contents"
  shows "\<exists>c'. drain_loop ops c acc = Some (c', acc @ contents c) \<and> contents c' = []"
proof (induction "contents c" arbitrary: c acc)
  case Nil
  obtain c1 r where "channel_try_recv ops c = (c1, r)" by fastforce
  moreover have "case channel_try_recv ops c of (c', None) \<Rightarrow> contents c = [] \<and> contents c' = []
      | (c', Some msg) \<Rightarrow> contents c = msg # contents c'"
    using assms by (auto simp: fifo_channel_def)
  ultimately show ?case
    using Nil by (subst drain_loop.simps) (auto split: option.splits)
next
  case (Cons msg msgs)
  obtain c1 r where c1: "channel_try_recv ops c = (c1, r)" by fastforce
  moreover have "case channel_try_recv ops c of (c', None) \<Rightarrow> contents c = [] \<and> contents c' = []
      | (c', Some msg) \<Rightarrow> contents c = msg # contents c'"
    using assms by (auto simp: fifo_channel_def)
  ultimately have "r = Some msg" "contents c1 = msgs"
    using Cons.hyps(2) by (auto split: option.splits)
  with c1 Cons.hyps(1) [of c1 "acc @ [msg]"] Cons.hyps(2) show ?case
    by (subst drain_loop.simps) auto
qed

lemma send_all_fifo:
  assumes "fifo_channel ops contents"
  shows "\<exists>m'. send_all ops m msgs = (m', Inr ()) \<and> contents (mail_channel m') = contents (mail_channel m) @ msgs
     \<and> mail_sequence m' = mail_sequence m + of_nat (length msgs)
     \<and> length (notifications m') = length (notifications m) + length msgs"
proof (induction msgs arbitrary: m)
  case (Cons msg msgs)
  obtain c' where c': "channel_send ops (mail_channel m) msg = (c', Inr ())"
      "contents c' = contents (mail_channel m) @ [msg]"
    using assms unfolding fifo_channel_def by blast
  then show ?case
    using Cons.IH [of "m\<lparr>mail_channel := c', mail_sequence := mail_sequence m + 1,
        notifications := notifications m @ [mail_sequence m + 1]\<rparr>"]
    by (auto simp: mailbox_send_def Let_def add.assoc)
qed simp

text \<open>
  The mailbox delivers in order.  Over a channel that keeps its documented promise, sending any
  list of messages to a fresh mailbox succeeds, a drain then terminates and returns exactly these
  messages in the order of sending, one notification was issued for each, and a second drain
  returns nothing.
\<close>

theorem mailbox_delivers_in_order:
  assumes "fifo_channel ops contents"
  shows "\<exists>m1 m2 m3. send_all ops (mailbox_new ops) msgs = (m1, Inr ())
     \<and> mailbox_drain ops m1 = Some (m2, msgs) \<and> mailbox_drain ops m2 = Some (m3, [])
     \<and> mail_sequence m3 = of_nat (length msgs) \<and> length (notifications m3) = length msgs"
proof -
  have "contents (channel_new ops) = []"
    using assms by (simp add: fifo_channel_def)
  then obtain m1 where m1: "send_all ops (mailbox_new ops) msgs = (m1, Inr ())"
      "contents (mail_channel m1) = msgs" "mail_sequence m1 = of_nat (length msgs)"
      "length (notifications m1) = length msgs"
    using send_all_fifo [OF assms, of "mailbox_new ops" msgs] by (auto simp: mailbox_new_def)
  obtain c2 where c2: "drain_loop ops (mail_channel m1) [] = Some (c2, msgs)" "contents c2 = []"
    using drain_loop_fifo [OF assms, of "mail_channel m1" "[]"] m1(2) by auto
  obtain c3 where c3: "drain_loop ops c2 [] = Some (c3, [])"
    using drain_loop_fifo [OF assms, of c2 "[]"] c2(2) by auto
  from m1 c2 c3 show ?thesis
    by (simp add: mailbox_drain_def)
qed

text \<open>A channel as a list of messages.\<close>

definition list_channel :: "inter_agent_message list channel_ops" where
  "list_channel = \<lparr>channel_new = [], channel_send = (\<lambda>c msg. (c @ [msg], Inr ())),
     channel_try_recv = (\<lambda>c. case c of [] \<Rightarrow> ([], None) | msg # rest \<Rightarrow> (rest, Some msg))\<rparr>"

lemma list_channel_fifo: "fifo_channel list_channel (\<lambda>c. c)"
  by (auto simp: fifo_channel_def list_channel_def split: list.split)

theorem mailbox_delivers_in_order_witness:
  "\<exists>m1 m2. send_all list_channel (mailbox_new list_channel)
       [\<lparr>author = ''/root'', recipient = ''/root/a'', message_content = StatusNotification ''x'',
         trigger_turn = True\<rparr>] = (m1, Inr ())
     \<and> mailbox_drain list_channel m1 = Some (m2,
       [\<lparr>author = ''/root'', recipient = ''/root/a'', message_content = StatusNotification ''x'',
         trigger_turn = True\<rparr>])"
  using mailbox_delivers_in_order [OF list_channel_fifo,
      of "[\<lparr>author = ''/root'', recipient = ''/root/a'', message_content = StatusNotification ''x'',
         trigger_turn = True\<rparr>]"]
  by (elim exE conjE) (intro exI conjI)

end
