(* ===== verification/Architecture_Guard.thy ===== *)
theory Architecture_Guard
  imports Rust_Strings
begin

text \<open>
  \<open>crates/kernel/src/architecture.rs\<close>: the guard that decides which paths of the repository a change
  may touch.  A \<open>BTreeSet<String>\<close> of boundaries is the list of its elements in ascending order.
  The lemmas relate the string tests of the code to the segments of the paths.
\<close>

datatype architecture_path_decision = AllowedMutable | DeniedImmutable | DeniedUnknown

record architecture_path_report =
  report_path :: string
  report_decision :: architecture_path_decision
  matched_prefix :: "string option"
  report_reason :: string

record architecture_guard_report =
  total_paths :: usize
  allowed_paths :: "string list"
  denied_paths :: "string list"
  unknown_paths :: "string list"
  path_reports :: "architecture_path_report list"

definition empty_guard_report :: architecture_guard_report where
  "empty_guard_report =
     \<lparr>total_paths = 0, allowed_paths = [], denied_paths = [], unknown_paths = [], path_reports = []\<rparr>"

definition has_denials :: "architecture_guard_report \<Rightarrow> bool" where
  "has_denials r \<longleftrightarrow> denied_paths r \<noteq> []"

record architecture_boundary_policy =
  immutable_prefixes :: "string list"
  mutable_prefixes :: "string list"

definition default_boundary_policy :: architecture_boundary_policy where
  "default_boundary_policy =
     \<lparr>immutable_prefixes =
        [''crates/kernel/src/contracts.rs'', ''crates/kernel/src/errors.rs'',
         ''crates/kernel/src/harness.rs'', ''crates/kernel/src/kernel.rs'',
         ''crates/kernel/src/policy.rs''],
      mutable_prefixes =
        [''README.md'', ''crates/daemon/src/'', ''crates/kernel/src/architecture.rs'',
         ''crates/kernel/src/audit.rs'', ''crates/kernel/src/awareness.rs'',
         ''crates/kernel/src/connector.rs'', ''crates/kernel/src/integration.rs'',
         ''crates/kernel/src/memory.rs'', ''crates/kernel/src/plugin.rs'',
         ''crates/kernel/src/plugin_ir.rs'', ''crates/kernel/src/policy_ext.rs'',
         ''crates/kernel/src/runtime.rs'', ''crates/kernel/src/tests.rs'',
         ''crates/kernel/src/tool.rs'', ''docs/'', ''examples/'']\<rparr>"

definition normalize_path :: "string \<Rightarrow> string" where
  "normalize_path path =
     (let replaced = replace_char (CHR 0x5C) (CHR ''/'') (trim path);
          without_prefix = (case strip_prefix ''./'' replaced of None \<Rightarrow> replaced | Some v \<Rightarrow> v) in
      dropWhile (\<lambda>c. c = CHR ''/'') without_prefix)"

definition prefix_matches :: "string \<Rightarrow> string \<Rightarrow> bool" where
  "prefix_matches path pre =
     (if pre = [] then False
      else if path = pre then True
      else (case strip_suffix ''/'' pre of
              Some trimmed \<Rightarrow> path = trimmed \<or> prefix pre path
            | None \<Rightarrow> prefix (pre @ ''/'') path))"

definition longest_prefix_match :: "string \<Rightarrow> string list \<Rightarrow> string option" where
  "longest_prefix_match path boundaries = max_by_key length (filter (prefix_matches path) boundaries)"

text \<open>One round of the loop of \<open>evaluate_paths\<close>, over the normalised boundaries.\<close>

definition evaluate_path ::
    "string list \<Rightarrow> string list \<Rightarrow> string \<Rightarrow> architecture_guard_report \<Rightarrow> architecture_guard_report" where
  "evaluate_path immutable mutable path r0 =
     (let normalized = normalize_path path;
          r = r0\<lparr>total_paths := sat_inc (total_paths r0)\<rparr> in
      case longest_prefix_match normalized immutable of
        Some pre \<Rightarrow>
          r\<lparr>denied_paths := denied_paths r @ [normalized],
            path_reports := path_reports r @
              [\<lparr>report_path = normalized, report_decision = DeniedImmutable, matched_prefix = Some pre,
                report_reason = ''path is protected by immutable core boundary: '' @ pre\<rparr>]\<rparr>
      | None \<Rightarrow>
          (case longest_prefix_match normalized mutable of
             Some pre \<Rightarrow>
               r\<lparr>allowed_paths := allowed_paths r @ [normalized],
                 path_reports := path_reports r @
                   [\<lparr>report_path = normalized, report_decision = AllowedMutable, matched_prefix = Some pre,
                     report_reason = ''path is inside mutable extension boundary: '' @ pre\<rparr>]\<rparr>
           | None \<Rightarrow>
               r\<lparr>denied_paths := denied_paths r @ [normalized],
                 unknown_paths := unknown_paths r @ [normalized],
                 path_reports := path_reports r @
                   [\<lparr>report_path = normalized, report_decision = DeniedUnknown, matched_prefix = None,
                     report_reason = ''path is outside declared mutable boundaries''\<rparr>]\<rparr>))"

definition evaluate_paths ::
    "architecture_boundary_policy \<Rightarrow> string list \<Rightarrow> architecture_guard_report" where
  "evaluate_paths policy paths =
     fold (evaluate_path (map normalize_path (immutable_prefixes policy))
             (map normalize_path (mutable_prefixes policy))) paths empty_guard_report"

section \<open>Prefixes and segments\<close>

text \<open>
  What the guard promises, in terms of path segments: a path is inside a boundary when its segments
  extend those of the boundary; a slash at the end of a boundary does not count.
\<close>

definition path_segments :: "string \<Rightarrow> string list" where
  "path_segments p = split_on (CHR ''/'') p"

definition inside_boundary :: "string \<Rightarrow> string \<Rightarrow> bool" where
  "inside_boundary boundary path \<longleftrightarrow>
     boundary \<noteq> []
     \<and> prefix (path_segments (case strip_suffix ''/'' boundary of None \<Rightarrow> boundary | Some b \<Rightarrow> b))
         (path_segments path)"

definition boundary_decision ::
    "architecture_boundary_policy \<Rightarrow> string \<Rightarrow> architecture_path_decision" where
  "boundary_decision policy path =
     (if \<exists>b \<in> set (immutable_prefixes policy). inside_boundary (normalize_path b) path
      then DeniedImmutable
      else if \<exists>b \<in> set (mutable_prefixes policy). inside_boundary (normalize_path b) path
      then AllowedMutable
      else DeniedUnknown)"

lemma prefix_matches_segments: "prefix_matches path pre \<longleftrightarrow> inside_boundary pre path"
proof (cases "suffix ''/'' pre")
  case True
  then obtain q where q: "pre = q @ ''/''"
    by (auto simp: suffix_def)
  have "prefix (q @ ''/'') (q @ ''/'')" by simp
  with q show ?thesis
    by (auto simp: prefix_matches_def inside_boundary_def path_segments_def strip_suffix_def
        prefix_split_on)
next
  case False
  then show ?thesis
    by (auto simp: prefix_matches_def inside_boundary_def path_segments_def strip_suffix_def
        prefix_split_on)
qed

lemma longest_prefix_match_None:
  "longest_prefix_match path boundaries = None \<longleftrightarrow> (\<forall>b \<in> set boundaries. \<not> inside_boundary b path)"
  by (auto simp: longest_prefix_match_def filter_empty_conv prefix_matches_segments)

lemma longest_prefix_match_Some:
  "longest_prefix_match path boundaries = Some b \<Longrightarrow>
     b \<in> set boundaries \<and> inside_boundary b path
     \<and> (\<forall>b' \<in> set boundaries. inside_boundary b' path \<longrightarrow> length b' \<le> length b)"
  by (auto simp: longest_prefix_match_def prefix_matches_segments dest!: max_by_key_Some)

section \<open>The report\<close>

definition path_verdict ::
    "string list \<Rightarrow> string list \<Rightarrow> string \<Rightarrow> architecture_path_report" where
  "path_verdict immutable mutable path =
     last (path_reports (evaluate_path immutable mutable path empty_guard_report))"

lemma evaluate_path_verdict:
  "evaluate_path immutable mutable path r =
     (let v = path_verdict immutable mutable path in
      \<lparr>total_paths = sat_inc (total_paths r),
       allowed_paths = allowed_paths r @ (if report_decision v = AllowedMutable then [report_path v] else []),
       denied_paths = denied_paths r @ (if report_decision v = AllowedMutable then [] else [report_path v]),
       unknown_paths = unknown_paths r @ (if report_decision v = DeniedUnknown then [report_path v] else []),
       path_reports = path_reports r @ [v]\<rparr>)"
  by (cases r) (simp add: evaluate_path_def path_verdict_def Let_def empty_guard_report_def
      split: option.split)

lemma evaluate_paths_verdicts:
  "fold (evaluate_path immutable mutable) paths r =
     (let vs = map (path_verdict immutable mutable) paths in
      \<lparr>total_paths = (sat_inc ^^ length paths) (total_paths r),
       allowed_paths = allowed_paths r @ map report_path (filter (\<lambda>v. report_decision v = AllowedMutable) vs),
       denied_paths = denied_paths r @ map report_path (filter (\<lambda>v. report_decision v \<noteq> AllowedMutable) vs),
       unknown_paths = unknown_paths r @ map report_path (filter (\<lambda>v. report_decision v = DeniedUnknown) vs),
       path_reports = path_reports r @ vs\<rparr>)"
  by (induction paths arbitrary: r)
    (simp_all add: evaluate_path_verdict Let_def funpow_swap1)

lemma boundary_decision_matches:
  "boundary_decision policy path =
     (if longest_prefix_match path (map normalize_path (immutable_prefixes policy)) \<noteq> None
      then DeniedImmutable
      else if longest_prefix_match path (map normalize_path (mutable_prefixes policy)) \<noteq> None
      then AllowedMutable
      else DeniedUnknown)"
  by (simp add: boundary_decision_def longest_prefix_match_None del: not_None_eq)

lemma path_verdict_decision:
  "report_path (path_verdict (map normalize_path (immutable_prefixes policy))
       (map normalize_path (mutable_prefixes policy)) path) = normalize_path path"
  "report_decision (path_verdict (map normalize_path (immutable_prefixes policy))
       (map normalize_path (mutable_prefixes policy)) path) = boundary_decision policy (normalize_path path)"
  by (simp_all add: path_verdict_def evaluate_path_def Let_def empty_guard_report_def
      boundary_decision_matches split: option.split)

lemma evaluate_paths_fields:
  defines "vs \<equiv> \<lambda>policy. map (path_verdict (map normalize_path (immutable_prefixes policy))
       (map normalize_path (mutable_prefixes policy)))"
  shows "path_reports (evaluate_paths policy paths) = vs policy paths"
    and "allowed_paths (evaluate_paths policy paths) =
      map report_path (filter (\<lambda>v. report_decision v = AllowedMutable) (vs policy paths))"
    and "denied_paths (evaluate_paths policy paths) =
      map report_path (filter (\<lambda>v. report_decision v \<noteq> AllowedMutable) (vs policy paths))"
    and "unknown_paths (evaluate_paths policy paths) =
      map report_path (filter (\<lambda>v. report_decision v = DeniedUnknown) (vs policy paths))"
  by (simp_all add: vs_def evaluate_paths_def evaluate_paths_verdicts empty_guard_report_def Let_def)

text \<open>
  The guard decides by path segments.  The report lists one verdict for each path, in order: a
  path is denied as immutable when its segments extend those of an immutable boundary, else allowed
  when they extend those of a mutable boundary, else denied as unknown.  The allowed and the denied
  paths are exactly the paths with these verdicts, and the report has denials unless every path is
  allowed.
\<close>

theorem guard_decides_by_segments:
  "map (\<lambda>v. (report_path v, report_decision v)) (path_reports (evaluate_paths policy paths)) =
     map (\<lambda>p. (normalize_path p, boundary_decision policy (normalize_path p))) paths
   \<and> allowed_paths (evaluate_paths policy paths) =
     filter (\<lambda>p. boundary_decision policy p = AllowedMutable) (map normalize_path paths)
   \<and> denied_paths (evaluate_paths policy paths) =
     filter (\<lambda>p. boundary_decision policy p \<noteq> AllowedMutable) (map normalize_path paths)
   \<and> unknown_paths (evaluate_paths policy paths) =
     filter (\<lambda>p. boundary_decision policy p = DeniedUnknown) (map normalize_path paths)
   \<and> (has_denials (evaluate_paths policy paths) \<longleftrightarrow>
     (\<exists>p. p \<in> set paths \<and> boundary_decision policy (normalize_path p) \<noteq> AllowedMutable))"
proof (intro conjI)
  show "has_denials (evaluate_paths policy paths) \<longleftrightarrow>
     (\<exists>p. p \<in> set paths \<and> boundary_decision policy (normalize_path p) \<noteq> AllowedMutable)"
    by (auto simp: has_denials_def evaluate_paths_fields filter_empty_conv path_verdict_decision)
qed (simp_all add: evaluate_paths_fields filter_map comp_def path_verdict_decision)

text \<open>
  Normalisation does not resolve parent segments: a detour through a mutable directory reaches a
  file of the immutable core with an allowed verdict.
\<close>

lemma guard_ignores_parent_segments:
  "map report_decision (path_reports (evaluate_paths default_boundary_policy
     [''crates/kernel/src/kernel.rs'', ''docs/../crates/kernel/src/kernel.rs''])) =
   [DeniedImmutable, AllowedMutable]"
proof -
  have "boundary_decision default_boundary_policy (normalize_path ''crates/kernel/src/kernel.rs'') =
      DeniedImmutable"
    unfolding boundary_decision_matches by code_simp
  moreover have "boundary_decision default_boundary_policy
      (normalize_path ''docs/../crates/kernel/src/kernel.rs'') = AllowedMutable"
    unfolding boundary_decision_matches by code_simp
  ultimately show ?thesis
    by (simp add: evaluate_paths_fields path_verdict_decision)
qed

end
