(* ===== verification/Protocol_Router.thy ===== *)
theory Protocol_Router
  imports Contracts Btree_Map
begin

text \<open>
  \<open>crates/protocol/src/lib.rs\<close>, first part: the routes of the wire protocol, the router with its
  custom routes, and the authorization of a request against the policy of its route.
\<close>

section \<open>Routes\<close>

datatype protocol_route =
    RouteToolsCall
  | RouteControlChallenge
  | RouteControlConnect
  | RouteControlPing
  | RouteControlSubscribe
  | RouteControlSnapshot
  | RouteControlEvents
  | RoutePresenceRead
  | RouteHealthRead
  | RouteSessionList
  | RouteSessionRead
  | RouteTaskList
  | RouteTaskRead
  | RouteTurnSubmit
  | RouteTurnResult
  | RouteTurnStream
  | RouteApprovalList
  | RouteApprovalResolve
  | RoutePairingList
  | RoutePairingResolve
  | RouteAcpSessionList
  | RouteAcpSessionRead
  | RouteCustom string

definition from_method :: "string \<Rightarrow> protocol_route" where
  "from_method m =
     (if m = ''tools/call'' then RouteToolsCall
      else if m = ''control/challenge'' then RouteControlChallenge
      else if m = ''control/connect'' then RouteControlConnect
      else if m = ''control/ping'' then RouteControlPing
      else if m = ''control/subscribe'' then RouteControlSubscribe
      else if m = ''control/snapshot'' then RouteControlSnapshot
      else if m = ''control/events'' then RouteControlEvents
      else if m = ''presence/read'' then RoutePresenceRead
      else if m = ''health/read'' then RouteHealthRead
      else if m = ''session/list'' then RouteSessionList
      else if m = ''session/read'' then RouteSessionRead
      else if m = ''task/list'' then RouteTaskList
      else if m = ''task/read'' then RouteTaskRead
      else if m = ''turn/submit'' then RouteTurnSubmit
      else if m = ''turn/result'' then RouteTurnResult
      else if m = ''turn/stream'' then RouteTurnStream
      else if m = ''approval/list'' then RouteApprovalList
      else if m = ''approval/resolve'' then RouteApprovalResolve
      else if m = ''pairing/list'' then RoutePairingList
      else if m = ''pairing/resolve'' then RoutePairingResolve
      else if m = ''acp/session/list'' then RouteAcpSessionList
      else if m = ''acp/session/read'' then RouteAcpSessionRead
      else RouteCustom m)"

fun route_method :: "protocol_route \<Rightarrow> string" where
  "route_method RouteToolsCall = ''tools/call''"
| "route_method RouteControlChallenge = ''control/challenge''"
| "route_method RouteControlConnect = ''control/connect''"
| "route_method RouteControlPing = ''control/ping''"
| "route_method RouteControlSubscribe = ''control/subscribe''"
| "route_method RouteControlSnapshot = ''control/snapshot''"
| "route_method RouteControlEvents = ''control/events''"
| "route_method RoutePresenceRead = ''presence/read''"
| "route_method RouteHealthRead = ''health/read''"
| "route_method RouteSessionList = ''session/list''"
| "route_method RouteSessionRead = ''session/read''"
| "route_method RouteTaskList = ''task/list''"
| "route_method RouteTaskRead = ''task/read''"
| "route_method RouteTurnSubmit = ''turn/submit''"
| "route_method RouteTurnResult = ''turn/result''"
| "route_method RouteTurnStream = ''turn/stream''"
| "route_method RouteApprovalList = ''approval/list''"
| "route_method RouteApprovalResolve = ''approval/resolve''"
| "route_method RoutePairingList = ''pairing/list''"
| "route_method RoutePairingResolve = ''pairing/resolve''"
| "route_method RouteAcpSessionList = ''acp/session/list''"
| "route_method RouteAcpSessionRead = ''acp/session/read''"
| "route_method (RouteCustom m) = m"

fun is_standard :: "protocol_route \<Rightarrow> bool" where
  "is_standard (RouteCustom _) = False"
| "is_standard _ = True"

record route_policy =
  allow_anonymous :: bool
  required_capability :: "string option"

definition default_route_policy :: route_policy where
  "default_route_policy = \<lparr>allow_anonymous = True, required_capability = None\<rparr>"

record resolved_route =
  resolved_as :: protocol_route
  resolved_policy :: route_policy

definition resolved_method :: "resolved_route \<Rightarrow> string" where
  "resolved_method r = route_method (resolved_as r)"

section \<open>Method names\<close>

datatype router_error = UnknownMethod string | InvalidMethod string

fun contains_double_slash :: "string \<Rightarrow> bool" where
  "contains_double_slash (a # b # s) \<longleftrightarrow>
     (a = CHR ''/'' \<and> b = CHR ''/'') \<or> contains_double_slash (b # s)"
| "contains_double_slash _ \<longleftrightarrow> False"

definition method_char :: "char \<Rightarrow> bool" where
  "method_char c \<longleftrightarrow> is_ascii_lowercase c \<or> is_ascii_digit c \<or> c \<in> set ''-_/.''"

definition validate_method_name :: "string \<Rightarrow> router_error + unit" where
  "validate_method_name m =
     (if trim m = [] then Inl (InvalidMethod ''method cannot be empty'')
      else if trim m \<noteq> m then
        Inl (InvalidMethod (''method cannot include surrounding whitespace: '' @ debug_str m))
      else if 128 < length m then
        Inl (InvalidMethod (''method exceeds max length (128): '' @ show_nat (length m)))
      else if prefix ''/'' m \<or> suffix ''/'' m \<or> contains_double_slash m then
        Inl (InvalidMethod (''method contains invalid slash placement: '' @ m))
      else if \<not> list_all method_char m then
        Inl (InvalidMethod (''method contains unsupported characters: '' @ m))
      else Inr ())"

section \<open>The router\<close>

record protocol_router =
  router_strict :: bool
  custom_routes :: "(string, route_policy) btree_map"

definition router_new :: "bool \<Rightarrow> protocol_router" where
  "router_new strict = \<lparr>router_strict = strict, custom_routes = bt_empty\<rparr>"

definition register_custom_route ::
    "string \<Rightarrow> route_policy \<Rightarrow> protocol_router \<Rightarrow> protocol_router \<times> (router_error + unit)" where
  "register_custom_route m policy r =
     try_bind (r, validate_method_name m) (\<lambda>r _.
       if is_standard (from_method m) then
         (r, Inl (InvalidMethod (''standard route cannot be registered as custom: '' @ m)))
       else (r\<lparr>custom_routes := bt_insert m policy (custom_routes r)\<rparr>, Inr ()))"

definition requiring :: "protocol_route \<Rightarrow> string \<Rightarrow> resolved_route" where
  "requiring route cap =
     \<lparr>resolved_as = route,
      resolved_policy = \<lparr>allow_anonymous = False, required_capability = Some cap\<rparr>\<rparr>"

definition resolve :: "protocol_router \<Rightarrow> string \<Rightarrow> router_error + resolved_route" where
  "resolve r m =
     and_then (validate_method_name m) (\<lambda>_.
       let route = from_method m in
       case route of
         RouteToolsCall \<Rightarrow> Inr (requiring route ''invoke'')
       | RouteControlChallenge \<Rightarrow>
           Inr \<lparr>resolved_as = route,
                resolved_policy = \<lparr>allow_anonymous = True, required_capability = None\<rparr>\<rparr>
       | RouteControlConnect \<Rightarrow>
           Inr \<lparr>resolved_as = route,
                resolved_policy = \<lparr>allow_anonymous = True, required_capability = None\<rparr>\<rparr>
       | RouteTurnSubmit \<Rightarrow> Inr (requiring route ''control_write'')
       | RouteApprovalList \<Rightarrow> Inr (requiring route ''control_approvals'')
       | RouteApprovalResolve \<Rightarrow> Inr (requiring route ''control_approvals'')
       | RoutePairingList \<Rightarrow> Inr (requiring route ''control_pairing'')
       | RoutePairingResolve \<Rightarrow> Inr (requiring route ''control_pairing'')
       | RouteAcpSessionList \<Rightarrow> Inr (requiring route ''control_acp'')
       | RouteAcpSessionRead \<Rightarrow> Inr (requiring route ''control_acp'')
       | RouteCustom custom \<Rightarrow>
           (case bt_get (custom_routes r) custom of
              Some policy \<Rightarrow> Inr \<lparr>resolved_as = RouteCustom custom, resolved_policy = policy\<rparr>
            | None \<Rightarrow>
                if router_strict r then Inl (UnknownMethod custom)
                else Inr \<lparr>resolved_as = RouteCustom custom, resolved_policy = default_route_policy\<rparr>)
       | _ \<Rightarrow> Inr (requiring route ''control_read''))"

section \<open>Authorization of a request\<close>

text \<open>The \<open>BTreeSet\<close> of capabilities is only searched; it is the list of its elements.\<close>

record route_authorization_request =
  authenticated :: bool
  request_capabilities :: "string list"

datatype route_authorization_error =
    Unauthenticated string
  | MissingRouteCapability string string

definition normalize_capability :: "string \<Rightarrow> string" where
  "normalize_capability raw =
     replace_char (CHR ''-'') (CHR ''_'') (replace_char (CHR ''.'') (CHR ''_'') (to_ascii_lowercase (trim raw)))"

definition route_authorize ::
    "resolved_route \<Rightarrow> route_authorization_request \<Rightarrow> route_authorization_error + unit" where
  "route_authorize resolved request =
     (if \<not> allow_anonymous (resolved_policy resolved) \<and> \<not> authenticated request then
        Inl (Unauthenticated (resolved_method resolved))
      else (case required_capability (resolved_policy resolved) of
              Some required \<Rightarrow>
                let normalized_required = normalize_capability required in
                if list_ex (\<lambda>c. let n = normalize_capability c in n = normalized_required \<or> n = ''*'')
                     (request_capabilities request)
                then Inr ()
                else Inl (MissingRouteCapability (resolved_method resolved) normalized_required)
            | None \<Rightarrow> Inr ()))"

section \<open>What the router promises\<close>

text \<open>The standard methods and the capability that each of them requires.\<close>

definition standard_requirements :: "(string \<times> string option) list" where
  "standard_requirements =
     [(''tools/call'', Some ''invoke''), (''control/challenge'', None), (''control/connect'', None),
      (''turn/submit'', Some ''control_write''),
      (''approval/list'', Some ''control_approvals''), (''approval/resolve'', Some ''control_approvals''),
      (''pairing/list'', Some ''control_pairing''), (''pairing/resolve'', Some ''control_pairing''),
      (''acp/session/list'', Some ''control_acp''), (''acp/session/read'', Some ''control_acp'')]
     @ map (\<lambda>m. (m, Some ''control_read''))
         [''control/ping'', ''control/subscribe'', ''control/snapshot'', ''control/events'',
          ''presence/read'', ''health/read'', ''session/list'', ''session/read'', ''task/list'',
          ''task/read'', ''turn/result'', ''turn/stream'']"

definition holds_capability :: "route_authorization_request \<Rightarrow> string \<Rightarrow> bool" where
  "holds_capability request required \<longleftrightarrow>
     (\<exists>c. c \<in> set (request_capabilities request) \<and>
        normalize_capability c \<in> {normalize_capability required, ''*''})"

definition policy_admits :: "route_policy \<Rightarrow> route_authorization_request \<Rightarrow> bool" where
  "policy_admits policy request \<longleftrightarrow>
     (allow_anonymous policy \<or> authenticated request)
     \<and> (case required_capability policy of None \<Rightarrow> True | Some c \<Rightarrow> holds_capability request c)"

fun register_all :: "(string \<times> route_policy) list \<Rightarrow> protocol_router \<Rightarrow> protocol_router" where
  "register_all [] r = r"
| "register_all ((m, policy) # regs) r = register_all regs (fst (register_custom_route m policy r))"

text \<open>The abstract routing decision, over the list of registrations.\<close>

definition request_admitted ::
    "bool \<Rightarrow> (string \<times> route_policy) list \<Rightarrow> string \<Rightarrow> route_authorization_request \<Rightarrow> bool" where
  "request_admitted strict regs m request \<longleftrightarrow>
     validate_method_name m = Inr ()
     \<and> (case map_of standard_requirements m of
          Some None \<Rightarrow> True
        | Some (Some c) \<Rightarrow> authenticated request \<and> holds_capability request c
        | None \<Rightarrow>
            (case map_of (rev regs) m of
               Some policy \<Rightarrow> policy_admits policy request
             | None \<Rightarrow> \<not> strict))"

section \<open>Lemmas\<close>

lemma from_method_standard:
  "is_standard (from_method m) \<longleftrightarrow> map_of standard_requirements m \<noteq> None"
  by (simp add: from_method_def standard_requirements_def)

lemma from_method_custom:
  "map_of standard_requirements m = None \<Longrightarrow> from_method m = RouteCustom m"
  by (simp add: from_method_def standard_requirements_def split: if_splits)

lemma resolve_standard:
  "map_of standard_requirements m = Some req \<Longrightarrow> resolve r m =
     and_then (validate_method_name m) (\<lambda>_.
       Inr \<lparr>resolved_as = from_method m,
            resolved_policy = \<lparr>allow_anonymous = (req = None), required_capability = req\<rparr>\<rparr>)"
  by (auto simp: resolve_def from_method_def standard_requirements_def requiring_def split: if_splits)

lemma resolve_custom:
  "map_of standard_requirements m = None \<Longrightarrow> resolve r m =
     and_then (validate_method_name m) (\<lambda>_.
       case bt_get (custom_routes r) m of
         Some policy \<Rightarrow> Inr \<lparr>resolved_as = RouteCustom m, resolved_policy = policy\<rparr>
       | None \<Rightarrow>
           if router_strict r then Inl (UnknownMethod m)
           else Inr \<lparr>resolved_as = RouteCustom m, resolved_policy = default_route_policy\<rparr>)"
  by (simp add: resolve_def from_method_custom Let_def)

lemma route_authorize_admits:
  "route_authorize resolved request = Inr () \<longleftrightarrow> policy_admits (resolved_policy resolved) request"
  by (auto simp: route_authorize_def policy_admits_def holds_capability_def Let_def list_ex_iff
      split: option.split)

lemma register_custom_route_ok:
  "fst (register_custom_route m policy r) =
     (if validate_method_name m = Inr () \<and> map_of standard_requirements m = None
      then r\<lparr>custom_routes := bt_insert m policy (custom_routes r)\<rparr> else r)"
  by (cases "validate_method_name m")
    (auto simp: register_custom_route_def from_method_standard)

lemma register_all_ok:
  assumes "bt_ok (custom_routes r)"
  shows "bt_ok (custom_routes (register_all regs r)) \<and> router_strict (register_all regs r) = router_strict r
     \<and> bt_get (custom_routes (register_all regs r)) m =
       (if validate_method_name m = Inr () \<and> map_of standard_requirements m = None
        then (case map_of (rev regs) m of Some p \<Rightarrow> Some p | None \<Rightarrow> bt_get (custom_routes r) m)
        else bt_get (custom_routes r) m)"
  using assms
proof (induction regs r rule: register_all.induct)
  case (2 m' policy regs r)
  then show ?case
    by (auto simp: register_custom_route_ok map_add_def split: option.split)
qed simp

section \<open>Properties\<close>

text \<open>
  Routes and method names correspond.  Parsing a method name and printing the route gives the
  name back; printing a route and parsing the name gives the route back, except for a custom route
  that carries the name of a standard one; and exactly the names of the standard routes parse to a
  standard route.
\<close>

theorem route_names_roundtrip:
  "route_method (from_method m) = m
   \<and> (from_method (route_method route) = route \<longleftrightarrow>
        is_standard (from_method (route_method route)) = is_standard route)
   \<and> (is_standard (from_method m) \<longleftrightarrow> (\<exists>r. is_standard r \<and> route_method r = m))"
proof -
  have 1: "route_method (from_method n) = n" for n
    by (simp add: from_method_def)
  have 2: "is_standard r \<Longrightarrow> from_method (route_method r) = r" for r
    by (cases r) (simp_all add: from_method_def)
  have 3: "\<not> is_standard (from_method n) \<Longrightarrow> from_method n = RouteCustom n" for n
    using from_method_custom [of n] by (simp add: from_method_standard)
  have "\<not> is_standard route \<Longrightarrow> route = RouteCustom (route_method route)"
    by (cases route) simp_all
  then show ?thesis
    using 1 2 3 by metis
qed

text \<open>
  C25: the router implements its policy table.  On a router built by any sequence of registrations,
  resolving a method and authorizing the request succeeds exactly when the abstract decision admits
  it: the method name is valid and a standard method demands authentication and its capability (the
  two connection methods nothing), whatever was registered; any other method is governed by its last
  registration, and without one it is open on a lenient router and unknown on a strict one.
\<close>

theorem router_implements_policy_table:
  "(\<exists>resolved. resolve (register_all regs (router_new strict)) m = Inr resolved
      \<and> route_authorize resolved request = Inr ())
   \<longleftrightarrow> request_admitted strict regs m request"
proof -
  let ?r = "register_all regs (router_new strict)"
  have r: "router_strict ?r = strict"
    "bt_get (custom_routes ?r) m =
      (if validate_method_name m = Inr () \<and> map_of standard_requirements m = None
       then map_of (rev regs) m else None)"
    using register_all_ok [of "router_new strict" regs m] by (auto simp: router_new_def split: option.split)
  show ?thesis
  proof (cases "validate_method_name m")
    case (Inl e)
    then show ?thesis
      by (simp add: resolve_def request_admitted_def)
  next
    case (Inr u)
    then show ?thesis
      by (cases "map_of standard_requirements m")
        (auto simp: resolve_standard resolve_custom r request_admitted_def route_authorize_admits
          policy_admits_def default_route_policy_def split: option.split)
  qed
qed

end
