(* ===== verification/Protocol_Transport.thy ===== *)
theory Protocol_Transport
  imports Contracts
begin

text \<open>
  \<open>crates/protocol/src/lib.rs\<close>, second part: the transports.  \<open>JsonLineTransport\<close> is modelled over the
  text still to be read and the text written so far; \<open>serde_json\<close> is the parameter \<open>frame_codec\<close> and the
  outcomes of the reads, writes and flushes of the operating system are arguments.
  \<open>ChannelTransport\<close> is modelled over a bounded channel of \<open>tokio\<close>, the parameter \<open>mpsc_ops\<close>; an
  operation that would wait gives \<open>None\<close>.
\<close>

section \<open>Frames\<close>

definition protocol_version :: u32 where
  "protocol_version = 1"

record transport_info =
  transport_name :: string
  transport_version :: string
  transport_secure :: bool

record inbound_frame =
  in_method :: string
  in_id :: "string option"
  in_payload :: json
  in_version :: u32

record outbound_frame =
  out_method :: string
  out_id :: "string option"
  out_frame_payload :: json
  out_version :: u32

definition as_inbound :: "outbound_frame \<Rightarrow> inbound_frame" where
  "as_inbound f = \<lparr>in_method = out_method f, in_id = out_id f, in_payload = out_frame_payload f,
     in_version = out_version f\<rparr>"

datatype transport_error = TransportClosed | TransportFailure string | ProtocolError string

section \<open>Lines of JSON\<close>

record frame_codec =
  encode_frame :: "outbound_frame \<Rightarrow> string + string"
  decode_frame :: "string \<Rightarrow> string + inbound_frame"

record json_line_transport =
  jt_info :: transport_info
  jt_unread :: string
  jt_written :: string
  jt_closed :: bool

definition json_line_new :: "transport_info \<Rightarrow> string \<Rightarrow> string \<Rightarrow> json_line_transport" where
  "json_line_new info reader writer =
     \<lparr>jt_info = info, jt_unread = reader, jt_written = writer, jt_closed = False\<rparr>"

text \<open>A failing \<open>write_all\<close> may have written a part of the payload.\<close>

record send_io =
  write_failure :: "(nat \<times> string) option"
  flush_failure :: "string option"

definition json_line_send ::
    "frame_codec \<Rightarrow> send_io \<Rightarrow> outbound_frame \<Rightarrow> json_line_transport
       \<Rightarrow> json_line_transport \<times> (transport_error + unit)" where
  "json_line_send cdc io frame t =
     (if jt_closed t then (t, Inl TransportClosed)
      else (case encode_frame cdc frame of
              Inl e \<Rightarrow> (t, Inl (TransportFailure (''failed to encode outbound frame: '' @ e)))
            | Inr encoded \<Rightarrow>
                let payload = encoded @ [CHR 0x0A] in
                (case write_failure io of
                   Some (n, e) \<Rightarrow>
                     (t\<lparr>jt_written := jt_written t @ take n payload\<rparr>,
                      Inl (TransportFailure (''failed to write frame: '' @ e)))
                 | None \<Rightarrow>
                     let t' = t\<lparr>jt_written := jt_written t @ payload\<rparr> in
                     (case flush_failure io of
                        Some e \<Rightarrow> (t', Inl (TransportFailure (''failed to flush frame: '' @ e)))
                      | None \<Rightarrow> (t', Inr ())))))"

text \<open>\<open>read_line\<close>: up to and including the next newline, or to the end of the input.\<close>

fun read_line :: "string \<Rightarrow> string \<times> string" where
  "read_line [] = ([], [])"
| "read_line (c # s) =
     (if c = CHR 0x0A then ([c], s) else (case read_line s of (line, rest) \<Rightarrow> (c # line, rest)))"

lemma read_line_append: "fst (read_line s) @ snd (read_line s) = s"
  by (induction s) (auto split: prod.split)

lemma read_line_shorter: "read_line s = (c # line, rest) \<Longrightarrow> length rest < length s"
  using read_line_append [of s] by (metis fst_conv snd_conv length_append length_Cons
      less_add_same_cancel2 zero_less_Suc add_Suc)

text \<open>
  The loop of \<open>recv\<close> over the unread text; \<open>fails\<close> are the outcomes of the successive reads (a
  missing one is a success).
\<close>

function recv_loop ::
    "frame_codec \<Rightarrow> string option list \<Rightarrow> string \<Rightarrow> string \<times> (transport_error + inbound_frame option)" where
  "recv_loop cdc fails unread =
     (case fails of
        Some e # _ \<Rightarrow> (unread, Inl (TransportFailure (''failed to read frame: '' @ e)))
      | _ \<Rightarrow>
          (case read_line unread of
             ([], rest) \<Rightarrow> (rest, Inr None)
           | (c # cs, rest) \<Rightarrow>
               let trimmed = trim_end_matches [CHR 0x0A, CHR 0x0D] (c # cs) in
               if trimmed = [] then recv_loop cdc (tl fails) rest
               else (case decode_frame cdc trimmed of
                       Inl e \<Rightarrow>
                         (rest, Inl (TransportFailure (''failed to decode inbound frame: '' @ e)))
                     | Inr frame \<Rightarrow>
                         if protocol_version < in_version frame then
                           (rest, Inl (ProtocolError (''unsupported frame version ''
                              @ show_nat (unat (in_version frame)) @ '' (max supported: ''
                              @ show_nat (unat protocol_version) @ '')'')))
                         else (rest, Inr (Some frame)))))"
  by pat_completeness auto
termination
  by (relation "measure (\<lambda>(cdc, fails, unread). length unread)") (auto intro: read_line_shorter [OF sym])

declare recv_loop.simps [simp del]

definition json_line_recv ::
    "frame_codec \<Rightarrow> string option list \<Rightarrow> json_line_transport
       \<Rightarrow> json_line_transport \<times> (transport_error + inbound_frame option)" where
  "json_line_recv cdc fails t =
     (case recv_loop cdc fails (jt_unread t) of (rest, r) \<Rightarrow> (t\<lparr>jt_unread := rest\<rparr>, r))"

definition json_line_close ::
    "string option \<Rightarrow> json_line_transport \<Rightarrow> json_line_transport \<times> (transport_error + unit)" where
  "json_line_close shutdown_failure t =
     (if jt_closed t then (t, Inr ())
      else (t\<lparr>jt_closed := True\<rparr>,
            (case shutdown_failure of
               Some e \<Rightarrow> Inl (TransportFailure (''failed to shutdown writer: '' @ e))
             | None \<Rightarrow> Inr ())))"

section \<open>Linked channels\<close>

record 'c mpsc_ops =
  mpsc_new :: "usize \<Rightarrow> 'c"
  mpsc_send :: "'c \<Rightarrow> inbound_frame \<Rightarrow> ('c \<times> bool) option"
  mpsc_recv :: "'c \<Rightarrow> ('c \<times> inbound_frame option) option"
  mpsc_drop_sender :: "'c \<Rightarrow> 'c"

datatype side = LeftEnd | RightEnd

text \<open>The pair of transports: the two channels, and whether each end still holds its sender.\<close>

record 'c channel_pair =
  end_info :: "side \<Rightarrow> transport_info"
  outgoing :: "side \<Rightarrow> 'c"
  outbound_open :: "side \<Rightarrow> bool"

fun other_side :: "side \<Rightarrow> side" where
  "other_side LeftEnd = RightEnd"
| "other_side RightEnd = LeftEnd"

datatype transport_build_error = InvalidCapacity usize

definition channel_linked ::
    "'c mpsc_ops \<Rightarrow> usize \<Rightarrow> transport_info \<Rightarrow> transport_info \<Rightarrow> transport_build_error + 'c channel_pair" where
  "channel_linked ops capacity left_info right_info =
     (if capacity = 0 then Inl (InvalidCapacity capacity)
      else Inr \<lparr>end_info = (\<lambda>s. if s = LeftEnd then left_info else right_info),
                outgoing = (\<lambda>s. mpsc_new ops capacity), outbound_open = (\<lambda>s. True)\<rparr>)"

definition channel_send_frame ::
    "'c mpsc_ops \<Rightarrow> side \<Rightarrow> outbound_frame \<Rightarrow> 'c channel_pair
       \<Rightarrow> ('c channel_pair \<times> (transport_error + unit)) option" where
  "channel_send_frame ops s frame p =
     (if \<not> outbound_open p s then Some (p, Inl TransportClosed)
      else (case mpsc_send ops (outgoing p s) (as_inbound frame) of
              None \<Rightarrow> None
            | Some (c, delivered) \<Rightarrow>
                Some (p\<lparr>outgoing := (outgoing p)(s := c)\<rparr>,
                      if delivered then Inr () else Inl TransportClosed)))"

definition channel_recv_frame ::
    "'c mpsc_ops \<Rightarrow> side \<Rightarrow> 'c channel_pair
       \<Rightarrow> ('c channel_pair \<times> (transport_error + inbound_frame option)) option" where
  "channel_recv_frame ops s p =
     (case mpsc_recv ops (outgoing p (other_side s)) of
        None \<Rightarrow> None
      | Some (c, frame) \<Rightarrow>
          Some (p\<lparr>outgoing := (outgoing p)(other_side s := c)\<rparr>, Inr frame))"

definition channel_close :: "'c mpsc_ops \<Rightarrow> side \<Rightarrow> 'c channel_pair \<Rightarrow> 'c channel_pair \<times> (transport_error + unit)" where
  "channel_close ops s p =
     ((if outbound_open p s
       then p\<lparr>outgoing := (outgoing p)(s := mpsc_drop_sender ops (outgoing p s)),
              outbound_open := (outbound_open p)(s := False)\<rparr>
       else p), Inr ())"

section \<open>Relied on of the codec and of the channel\<close>

text \<open>
  The values that \<open>serde_json\<close>, in the configuration of the workspace, writes and reads back
  unchanged: integers in the range of \<open>i64\<close> and \<open>u64\<close>, no doubles (the reader rounds without the
  feature \<open>float_roundtrip\<close>), and objects in the order of their map, which sorts the keys.  The
  reader refuses nesting beyond 127 levels, of which the frame itself is one.
\<close>

fun wire_exact :: "json \<Rightarrow> bool" where
  "wire_exact (JNumber n) \<longleftrightarrow> - (2 ^ 63) \<le> n \<and> n < 2 ^ 64"
| "wire_exact (JFloat b) \<longleftrightarrow> False"
| "wire_exact (JArray vs) \<longleftrightarrow> (\<forall>v \<in> set vs. wire_exact v)"
| "wire_exact (JObject m) \<longleftrightarrow> sorted_wrt (<) (map fst m) \<and> (\<forall>e \<in> set m. wire_exact (snd e))"
| "wire_exact _ \<longleftrightarrow> True"

fun json_depth :: "json \<Rightarrow> nat" where
  "json_depth (JArray vs) = Suc (foldr max (map json_depth vs) 0)"
| "json_depth (JObject m) = Suc (foldr max (map (\<lambda>e. json_depth (snd e)) m) 0)"
| "json_depth _ = 0"

definition wire_safe :: "outbound_frame \<Rightarrow> bool" where
  "wire_safe f \<longleftrightarrow> wire_exact (out_frame_payload f) \<and> json_depth (out_frame_payload f) < 127"

text \<open>
  \<open>serde_json::to_vec\<close> writes an object on one line without raw control characters, and \<open>from_str\<close>
  reads back a frame with such a payload.
\<close>

definition frame_codec_laws :: "frame_codec \<Rightarrow> bool" where
  "frame_codec_laws cdc \<longleftrightarrow>
     (\<forall>f s. encode_frame cdc f = Inr s \<longrightarrow>
        s \<noteq> [] \<and> CHR 0x0A \<notin> set s \<and> CHR 0x0D \<notin> set s
        \<and> (wire_safe f \<longrightarrow> decode_frame cdc s = Inr (as_inbound f)))"

record channel_view =
  view_capacity :: usize
  view_frames :: "inbound_frame list"
  view_sender :: bool

definition mpsc_laws :: "'c mpsc_ops \<Rightarrow> ('c \<Rightarrow> channel_view) \<Rightarrow> bool" where
  "mpsc_laws ops view \<longleftrightarrow>
     (\<forall>n. view (mpsc_new ops n) = \<lparr>view_capacity = n, view_frames = [], view_sender = True\<rparr>)
     \<and> (\<forall>c f. if length (view_frames (view c)) < view_capacity (view c)
            then \<exists>c'. mpsc_send ops c f = Some (c', True)
                   \<and> view c' = (view c)\<lparr>view_frames := view_frames (view c) @ [f]\<rparr>
            else mpsc_send ops c f = None)
     \<and> (\<forall>c. case view_frames (view c) of
            f # fs \<Rightarrow> \<exists>c'. mpsc_recv ops c = Some (c', Some f) \<and> view c' = (view c)\<lparr>view_frames := fs\<rparr>
          | [] \<Rightarrow> if view_sender (view c) then mpsc_recv ops c = None
                  else \<exists>c'. mpsc_recv ops c = Some (c', None) \<and> view c' = view c)
     \<and> (\<forall>c. view (mpsc_drop_sender ops c) = (view c)\<lparr>view_sender := False\<rparr>)"

section \<open>Lemmas on lines\<close>

definition no_send_failure :: send_io where
  "no_send_failure = \<lparr>write_failure = None, flush_failure = None\<rparr>"

fun json_line_send_all ::
    "frame_codec \<Rightarrow> outbound_frame list \<Rightarrow> json_line_transport \<Rightarrow> json_line_transport \<times> (transport_error + unit)" where
  "json_line_send_all cdc [] t = (t, Inr ())"
| "json_line_send_all cdc (f # fs) t =
     try_bind (json_line_send cdc no_send_failure f t) (\<lambda>t _. json_line_send_all cdc fs t)"

fun json_line_recv_times ::
    "frame_codec \<Rightarrow> nat \<Rightarrow> json_line_transport \<Rightarrow> (transport_error + inbound_frame option) list" where
  "json_line_recv_times cdc 0 t = []"
| "json_line_recv_times cdc (Suc n) t =
     (case json_line_recv cdc [] t of (t', r) \<Rightarrow> r # json_line_recv_times cdc n t')"

text \<open>What the receiver makes of a frame: a version that is too new is refused.\<close>

definition receipt :: "outbound_frame \<Rightarrow> transport_error + inbound_frame option" where
  "receipt f =
     (if protocol_version < out_version f then
        Inl (ProtocolError (''unsupported frame version '' @ show_nat (unat (out_version f))
          @ '' (max supported: '' @ show_nat (unat protocol_version) @ '')''))
      else Inr (Some (as_inbound f)))"

lemma read_line_newline: "CHR 0x0A \<notin> set s \<Longrightarrow> read_line (s @ CHR 0x0A # rest) = (s @ [CHR 0x0A], rest)"
  by (induction s) auto

lemma trim_end_matches_line:
  "s \<noteq> [] \<Longrightarrow> CHR 0x0A \<notin> set s \<Longrightarrow> CHR 0x0D \<notin> set s \<Longrightarrow>
     trim_end_matches [CHR 0x0A, CHR 0x0D] (s @ [CHR 0x0A]) = s"
  by (cases s rule: rev_cases) (auto simp: trim_end_matches_def)

lemma recv_loop_line:
  assumes "s \<noteq> []" "CHR 0x0A \<notin> set s" "CHR 0x0D \<notin> set s" "decode_frame cdc s = Inr (as_inbound f)"
  shows "recv_loop cdc [] (s @ CHR 0x0A # rest) = (rest, receipt f)"
proof -
  obtain c cs where cs: "s @ [CHR 0x0A] = c # cs"
    by (cases s) auto
  have "read_line (s @ CHR 0x0A # rest) = (c # cs, rest)"
    using read_line_newline [OF assms(2)] cs by simp
  moreover have "trim_end_matches [CHR 0x0A, CHR 0x0D] (c # cs) = s"
    using trim_end_matches_line [OF assms(1-3)] cs by simp
  ultimately show ?thesis
    using assms(1,4) by (subst recv_loop.simps) (simp add: Let_def receipt_def as_inbound_def)
qed

lemma recv_loop_end: "recv_loop cdc [] [] = ([], Inr None)"
  by (subst recv_loop.simps) simp

text \<open>The text that a list of frames is written as, when the codec accepts them.\<close>

fun frames_text :: "frame_codec \<Rightarrow> outbound_frame list \<Rightarrow> string option" where
  "frames_text cdc [] = Some []"
| "frames_text cdc (f # fs) =
     (case (encode_frame cdc f, frames_text cdc fs) of
        (Inr s, Some text) \<Rightarrow> Some (s @ CHR 0x0A # text)
      | _ \<Rightarrow> None)"

lemma send_all_text:
  assumes "json_line_send_all cdc fs t = (t', Inr ())"
  shows "\<exists>text. frames_text cdc fs = Some text \<and> jt_written t' = jt_written t @ text"
  using assms
proof (induction fs arbitrary: t)
  case (Cons f fs)
  then obtain t1 where t1: "json_line_send cdc no_send_failure f t = (t1, Inr ())"
      "json_line_send_all cdc fs t1 = (t', Inr ())"
    by (auto simp: try_bind_Inr)
  then obtain s where "encode_frame cdc f = Inr s" "jt_written t1 = jt_written t @ s @ [CHR 0x0A]"
    by (auto simp: json_line_send_def no_send_failure_def Let_def split: if_splits sum.splits)
  with Cons.IH [OF t1(2)] show ?case by auto
qed simp

lemma recv_times_text:
  assumes "frame_codec_laws cdc"
  shows "frames_text cdc fs = Some (jt_unread t) \<Longrightarrow> list_all wire_safe fs \<Longrightarrow>
    json_line_recv_times cdc (Suc (length fs)) t = map receipt fs @ [Inr None]"
proof (induction fs arbitrary: t)
  case Nil
  then show ?case
    by (simp add: json_line_recv_def recv_loop_end)
next
  case (Cons f fs)
  then obtain s written where s: "encode_frame cdc f = Inr s" "frames_text cdc fs = Some written"
      "jt_unread t = s @ CHR 0x0A # written"
    by (auto split: sum.splits option.splits)
  from s(1) have "s \<noteq> []" "CHR 0x0A \<notin> set s" "CHR 0x0D \<notin> set s" "decode_frame cdc s = Inr (as_inbound f)"
    using assms Cons.prems(2) by (auto simp: frame_codec_laws_def)
  then have "json_line_recv cdc [] t = (t\<lparr>jt_unread := written\<rparr>, receipt f)"
    by (simp add: json_line_recv_def s(3) recv_loop_line)
  with Cons.IH [of "t\<lparr>jt_unread := written\<rparr>"] s(2) Cons.prems(2) show ?case
    by simp
qed

text \<open>
  C32: frames survive the wire.  When every payload is free of doubles and nested less than 127 levels
  deep, a transport that reads the text written by accepted sends receives the frames in order, each
  one unchanged or, when its version is too new, as a protocol error that does not disturb the
  frames behind it, and then the end of the stream.
\<close>

theorem frames_survive_the_wire:
  assumes "frame_codec_laws cdc"
    and "list_all wire_safe fs"
    and "json_line_send_all cdc fs (json_line_new info unread []) = (sender, Inr ())"
  shows "json_line_recv_times cdc (Suc (length fs)) (json_line_new info2 (jt_written sender) out) =
       map receipt fs @ [Inr None]"
proof -
  have "frames_text cdc fs = Some (jt_unread (json_line_new info2 (jt_written sender) out))"
    using send_all_text [OF assms(3)] by (auto simp: json_line_new_def)
  from recv_times_text [OF assms(1) this assms(2)] show ?thesis .
qed

text \<open>A codec for frames with an empty payload, and two frames, the second one too new.\<close>

definition mini_decode :: "string \<Rightarrow> string + inbound_frame" where
  "mini_decode s =
     (case split_on (CHR ''|'') s of
        [m, v] \<Rightarrow> Inr \<lparr>in_method = m, in_id = None, in_payload = JNull,
                       in_version = of_nat (length v)\<rparr>
      | _ \<Rightarrow> Inl ''syntax error'')"

definition mini_encode :: "outbound_frame \<Rightarrow> string + string" where
  "mini_encode f =
     (let s = out_method f @ ''|'' @ replicate (unat (out_version f)) (CHR ''i'') in
      if mini_decode s = Inr (as_inbound f) \<and> CHR 0x0A \<notin> set s \<and> CHR 0x0D \<notin> set s then Inr s
      else Inl ''not representable'')"

definition mini_frame_codec :: frame_codec where
  "mini_frame_codec = \<lparr>encode_frame = mini_encode, decode_frame = mini_decode\<rparr>"

lemma mini_frame_codec_laws: "frame_codec_laws mini_frame_codec"
  by (auto simp: frame_codec_laws_def mini_frame_codec_def mini_encode_def Let_def split: if_splits)

definition wire_frame :: "u32 \<Rightarrow> outbound_frame" where
  "wire_frame v = \<lparr>out_method = ''m'', out_id = None, out_frame_payload = JNull, out_version = v\<rparr>"

definition wire_info :: transport_info where
  "wire_info = \<lparr>transport_name = ''n'', transport_version = ''1'', transport_secure = False\<rparr>"

lemma mini_send:
  "json_line_send_all mini_frame_codec [wire_frame 2, wire_frame 1] (json_line_new wire_info [] []) =
     (json_line_new wire_info [] (''m|ii'' @ [CHR 0x0A] @ ''m|i'' @ [CHR 0x0A]), Inr ())"
  by code_simp

theorem frames_survive_the_wire_witness:
  "json_line_recv_times mini_frame_codec 3
     (json_line_new wire_info (''m|ii'' @ [CHR 0x0A] @ ''m|i'' @ [CHR 0x0A]) []) =
   [receipt (wire_frame 2), receipt (wire_frame 1), Inr None]"
proof -
  have "list_all wire_safe [wire_frame 2, wire_frame 1]"
    by (simp add: wire_safe_def wire_frame_def)
  from frames_survive_the_wire [OF mini_frame_codec_laws this mini_send, of wire_info "[]"]
  show ?thesis by (simp add: json_line_new_def eval_nat_numeral)
qed

section \<open>Lemmas on linked channels\<close>

fun channel_send_all ::
    "'c mpsc_ops \<Rightarrow> side \<Rightarrow> outbound_frame list \<Rightarrow> 'c channel_pair
       \<Rightarrow> ('c channel_pair \<times> (transport_error + unit)) option" where
  "channel_send_all ops s [] p = Some (p, Inr ())"
| "channel_send_all ops s (f # fs) p =
     (case channel_send_frame ops s f p of
        None \<Rightarrow> None
      | Some (p', Inl e) \<Rightarrow> Some (p', Inl e)
      | Some (p', Inr _) \<Rightarrow> channel_send_all ops s fs p')"

fun channel_recv_times ::
    "'c mpsc_ops \<Rightarrow> side \<Rightarrow> nat \<Rightarrow> 'c channel_pair
       \<Rightarrow> ('c channel_pair \<times> (transport_error + inbound_frame option) list) option" where
  "channel_recv_times ops s 0 p = Some (p, [])"
| "channel_recv_times ops s (Suc n) p =
     (case channel_recv_frame ops s p of
        None \<Rightarrow> None
      | Some (p', r) \<Rightarrow>
          (case channel_recv_times ops s n p' of None \<Rightarrow> None | Some (p'', rs) \<Rightarrow> Some (p'', r # rs)))"

lemma mpsc_send_room:
  assumes "mpsc_laws ops view" and "length (view_frames (view c)) < view_capacity (view c)"
  obtains c' where "mpsc_send ops c f = Some (c', True)"
    "view c' = (view c)\<lparr>view_frames := view_frames (view c) @ [f]\<rparr>"
  using assms unfolding mpsc_laws_def by meson

lemma mpsc_recv_frame:
  assumes "mpsc_laws ops view" and "view_frames (view c) = f # fs"
  obtains c' where "mpsc_recv ops c = Some (c', Some f)" "view c' = (view c)\<lparr>view_frames := fs\<rparr>"
proof -
  have "case view_frames (view c) of
      f # fs \<Rightarrow> \<exists>c'. mpsc_recv ops c = Some (c', Some f) \<and> view c' = (view c)\<lparr>view_frames := fs\<rparr>
    | [] \<Rightarrow> if view_sender (view c) then mpsc_recv ops c = None
            else \<exists>c'. mpsc_recv ops c = Some (c', None) \<and> view c' = view c"
    using assms(1) by (simp add: mpsc_laws_def)
  with assms(2) that show thesis by auto
qed

lemma mpsc_recv_end:
  assumes "mpsc_laws ops view" and "view_frames (view c) = []" and "\<not> view_sender (view c)"
  obtains c' where "mpsc_recv ops c = Some (c', None)" "view c' = view c"
proof -
  have "case view_frames (view c) of
      f # fs \<Rightarrow> \<exists>c'. mpsc_recv ops c = Some (c', Some f) \<and> view c' = (view c)\<lparr>view_frames := fs\<rparr>
    | [] \<Rightarrow> if view_sender (view c) then mpsc_recv ops c = None
            else \<exists>c'. mpsc_recv ops c = Some (c', None) \<and> view c' = view c"
    using assms(1) by (simp add: mpsc_laws_def)
  with assms(2,3) that show thesis by auto
qed

lemma channel_send_all_room:
  assumes "mpsc_laws ops view" and "outbound_open p s"
    and "length (view_frames (view (outgoing p s))) + length fs \<le> view_capacity (view (outgoing p s))"
  shows "\<exists>c. channel_send_all ops s fs p = Some (p\<lparr>outgoing := (outgoing p)(s := c)\<rparr>, Inr ())
     \<and> view c = (view (outgoing p s))\<lparr>view_frames := view_frames (view (outgoing p s)) @ map as_inbound fs\<rparr>"
  using assms(2,3)
proof (induction fs arbitrary: p)
  case Nil
  then show ?case by (intro exI [of _ "outgoing p s"]) simp
next
  case (Cons f fs)
  obtain c' where c': "mpsc_send ops (outgoing p s) (as_inbound f) = Some (c', True)"
      "view c' = (view (outgoing p s))\<lparr>view_frames := view_frames (view (outgoing p s)) @ [as_inbound f]\<rparr>"
    using mpsc_send_room [OF assms(1), of "outgoing p s" "as_inbound f"] Cons.prems by auto
  obtain c where "channel_send_all ops s fs (p\<lparr>outgoing := (outgoing p)(s := c')\<rparr>) =
        Some (p\<lparr>outgoing := (outgoing p)(s := c)\<rparr>, Inr ())"
      "view c = (view c')\<lparr>view_frames := view_frames (view c') @ map as_inbound fs\<rparr>"
    using Cons.IH [of "p\<lparr>outgoing := (outgoing p)(s := c')\<rparr>"] Cons.prems c' by fastforce
  then show ?case
    using Cons.prems c' by (intro exI [of _ c]) (simp add: channel_send_frame_def fun_upd_def)
qed

lemma channel_recv_times_drain:
  assumes "mpsc_laws ops view"
  shows "view (outgoing p (other_side s)) = \<lparr>view_capacity = n, view_frames = fs, view_sender = False\<rparr> \<Longrightarrow>
     \<exists>c. channel_recv_times ops s (Suc (length fs)) p =
       Some (p\<lparr>outgoing := (outgoing p)(other_side s := c)\<rparr>, map (Inr \<circ> Some) fs @ [Inr None])"
proof (induction fs arbitrary: p)
  case Nil
  then obtain c' where "mpsc_recv ops (outgoing p (other_side s)) = Some (c', None)"
    using mpsc_recv_end [OF assms, of "outgoing p (other_side s)"] by auto
  then show ?case
    by (intro exI [of _ c']) (simp add: channel_recv_frame_def fun_upd_def)
next
  case (Cons f fs)
  then obtain c' where c': "mpsc_recv ops (outgoing p (other_side s)) = Some (c', Some f)"
      "view c' = \<lparr>view_capacity = n, view_frames = fs, view_sender = False\<rparr>"
    using mpsc_recv_frame [OF assms, of "outgoing p (other_side s)" f fs] by auto
  obtain c where "channel_recv_times ops s (Suc (length fs)) (p\<lparr>outgoing := (outgoing p)(other_side s := c')\<rparr>) =
      Some (p\<lparr>outgoing := (outgoing p)(other_side s := c)\<rparr>, map (Inr \<circ> Some) fs @ [Inr None])"
    using Cons.IH [of "p\<lparr>outgoing := (outgoing p)(other_side s := c')\<rparr>"] c'(2) by fastforce
  then show ?case
    using c'(1) by (intro exI [of _ c]) (simp add: channel_recv_frame_def fun_upd_def
        del: channel_recv_times.simps add: channel_recv_times.simps(2) [of _ _ "Suc (length fs)"])
qed

text \<open>
  Closing one end loses nothing.  On a linked pair over a channel that keeps its documented
  promise, an end sends as many frames as fit and closes.  The other end still receives all of them
  in order and then the end of the stream, without waiting; a later send of the closed end is
  refused; and the other end can still send.
\<close>

theorem close_drains_linked_channel:
  assumes "mpsc_laws ops view" and "channel_linked ops n info1 info2 = Inr p" and "length fs \<le> n"
  shows "\<exists>p1 p2 p3. channel_send_all ops s fs p = Some (p1, Inr ()) \<and> channel_close ops s p1 = (p2, Inr ())
     \<and> channel_recv_times ops (other_side s) (Suc (length fs)) p2 =
         Some (p3, map (Inr \<circ> Some \<circ> as_inbound) fs @ [Inr None])
     \<and> channel_send_frame ops s f p2 = Some (p2, Inl TransportClosed)
     \<and> (\<exists>p4. channel_send_frame ops (other_side s) f p3 = Some (p4, Inr ()))"
proof -
  have p: "outbound_open p = (\<lambda>_. True)" "outgoing p = (\<lambda>_. mpsc_new ops n)" "0 < n"
    using assms(2) by (auto simp: channel_linked_def split: if_splits)
  have new: "view (mpsc_new ops n) = \<lparr>view_capacity = n, view_frames = [], view_sender = True\<rparr>"
    using assms(1) by (simp add: mpsc_laws_def)
  obtain c where c: "channel_send_all ops s fs p = Some (p\<lparr>outgoing := (outgoing p)(s := c)\<rparr>, Inr ())"
      "view c = \<lparr>view_capacity = n, view_frames = map as_inbound fs, view_sender = True\<rparr>"
    using channel_send_all_room [OF assms(1), of p s fs] assms(3) p new by auto
  define p2 where "p2 = p\<lparr>outgoing := (outgoing p)(s := mpsc_drop_sender ops c),
      outbound_open := (outbound_open p)(s := False)\<rparr>"
  have closed: "channel_close ops s (p\<lparr>outgoing := (outgoing p)(s := c)\<rparr>) = (p2, Inr ())"
    using p(1) by (simp add: channel_close_def p2_def)
  have other: "other_side (other_side s) = s" "other_side s \<noteq> s"
    by (cases s; simp)+
  have "view (outgoing p2 (other_side (other_side s))) =
      \<lparr>view_capacity = n, view_frames = map as_inbound fs, view_sender = False\<rparr>"
    using assms(1) c(2) other by (simp add: p2_def mpsc_laws_def)
  then obtain c3 where c3: "channel_recv_times ops (other_side s) (Suc (length fs)) p2 =
      Some (p2\<lparr>outgoing := (outgoing p2)(s := c3)\<rparr>, map (Inr \<circ> Some \<circ> as_inbound) fs @ [Inr None])"
    using channel_recv_times_drain [OF assms(1), of p2 "other_side s" n "map as_inbound fs"] other
    by (auto simp: comp_def)
  obtain c4 where "mpsc_send ops (mpsc_new ops n) (as_inbound f) = Some (c4, True)"
    using mpsc_send_room [OF assms(1), of "mpsc_new ops n"] new p(3) by auto
  then have "\<exists>p4. channel_send_frame ops (other_side s) f (p2\<lparr>outgoing := (outgoing p2)(s := c3)\<rparr>)
      = Some (p4, Inr ())"
    using other p by (simp add: channel_send_frame_def p2_def)
  moreover have "channel_send_frame ops s f p2 = Some (p2, Inl TransportClosed)"
    by (simp add: channel_send_frame_def p2_def)
  ultimately show ?thesis
    using c(1) closed c3 by blast
qed

text \<open>A bounded channel as a record of its view.\<close>

definition list_mpsc :: "channel_view mpsc_ops" where
  "list_mpsc =
     \<lparr>mpsc_new = (\<lambda>n. \<lparr>view_capacity = n, view_frames = [], view_sender = True\<rparr>),
      mpsc_send = (\<lambda>c f. if length (view_frames c) < view_capacity c
        then Some (c\<lparr>view_frames := view_frames c @ [f]\<rparr>, True) else None),
      mpsc_recv = (\<lambda>c. case view_frames c of
          f # fs \<Rightarrow> Some (c\<lparr>view_frames := fs\<rparr>, Some f)
        | [] \<Rightarrow> if view_sender c then None else Some (c, None)),
      mpsc_drop_sender = (\<lambda>c. c\<lparr>view_sender := False\<rparr>)\<rparr>"

lemma list_mpsc_laws: "mpsc_laws list_mpsc (\<lambda>c. c)"
  by (auto simp: mpsc_laws_def list_mpsc_def split: list.split)

theorem close_drains_linked_channel_witness:
  "\<exists>p p1 p2 p3. channel_linked list_mpsc 2 wire_info wire_info = Inr p
     \<and> channel_send_all list_mpsc LeftEnd [wire_frame 1] p = Some (p1, Inr ())
     \<and> channel_close list_mpsc LeftEnd p1 = (p2, Inr ())
     \<and> channel_recv_times list_mpsc RightEnd 2 p2 = Some (p3, [Inr (Some (as_inbound (wire_frame 1))), Inr None])"
proof -
  obtain p where p: "channel_linked list_mpsc 2 wire_info wire_info = Inr p"
    by (simp add: channel_linked_def)
  from close_drains_linked_channel [OF list_mpsc_laws p, of "[wire_frame 1]" LeftEnd] p
  show ?thesis by (simp add: numeral_2_eq_2) blast
qed

end
