(* ===== verification/Event_Log.thy ===== *)
theory Event_Log
  imports Loong_Prelude
begin

text \<open>
  The bounded event logs of the control plane (\<open>crates/app/src/control_plane.rs\<close>): events carry
  consecutive sequence numbers, the newest are kept up to a limit, and readers page through them
  by the last number they have seen.  The locale \<open>bounded_log\<close> states the contract once; the turn
  registry and the control-plane manager interpret it on their own events.
\<close>

text \<open>The eviction loop \<open>while len > limit { pop_front() }\<close>.\<close>

function pop_front_above :: "nat \<Rightarrow> 'e list \<Rightarrow> 'e list" where
  "pop_front_above limit xs = (if limit < length xs then pop_front_above limit (tl xs) else xs)"
  by pat_completeness auto
termination
  by (relation "measure (length \<circ> snd)") auto

declare pop_front_above.simps [simp del]

definition push_bounded :: "nat \<Rightarrow> 'e list \<Rightarrow> 'e \<Rightarrow> 'e list" where
  "push_bounded limit xs e = pop_front_above limit (xs @ [e])"

text \<open>\<open>usize::clamp\<close>.\<close>

definition clamp :: "'n::linorder \<Rightarrow> 'n \<Rightarrow> 'n \<Rightarrow> 'n" where
  "clamp lo hi n = (if n < lo then lo else if hi < n then hi else n)"

definition page_after :: "('e \<Rightarrow> u64) \<Rightarrow> nat \<Rightarrow> u64 \<Rightarrow> nat \<Rightarrow> 'e list \<Rightarrow> 'e list" where
  "page_after seq_of cap after limit xs = take (clamp 1 cap limit) (filter (\<lambda>e. after < seq_of e) xs)"

lemma pop_front_above_drop: "pop_front_above limit xs = drop (length xs - limit) xs"
proof (induction limit xs rule: pop_front_above.induct)
  case (1 limit xs)
  show ?case
  proof (cases "limit < length xs")
    case True
    then obtain x ys where xs: "xs = x # ys" by (cases xs) auto
    with True 1 show ?thesis
      by (subst pop_front_above.simps) (simp add: Suc_diff_le)
  next
    case False
    then show ?thesis by (subst pop_front_above.simps) simp
  qed
qed

lemma push_bounded_drop: "push_bounded limit xs e = drop (Suc (length xs) - limit) (xs @ [e])"
  by (simp add: push_bounded_def pop_front_above_drop)

lemma clamp_bounds: "lo \<le> hi \<Longrightarrow> lo \<le> clamp lo hi n \<and> clamp lo hi n \<le> hi"
  by (auto simp: clamp_def)

lemma filter_upt_above: "filter (\<lambda>k. a < k) [i..<j] = [max i (Suc a)..<j]"
  by (induction j) (auto simp: max_def)

locale bounded_log =
  fixes seq_of :: "'e \<Rightarrow> u64"
    and cap :: nat
  assumes cap_positive: "0 < cap"
begin

text \<open>After \<open>n\<close> events: the newest ones up to the capacity, numbered consecutively.\<close>

definition log_ok :: "nat \<Rightarrow> 'e list \<Rightarrow> bool" where
  "log_ok n xs \<longleftrightarrow> length xs = min n cap
     \<and> map (\<lambda>e. unat (seq_of e)) xs = [Suc n - length xs..<Suc n]"

lemma log_ok_empty: "log_ok 0 []"
  by (simp add: log_ok_def)

lemma log_ok_push:
  assumes "log_ok n xs" and "unat (seq_of e) = Suc n"
  shows "log_ok (Suc n) (push_bounded cap xs e)"
proof -
  have len: "length xs = min n cap" and seqs: "map (\<lambda>e. unat (seq_of e)) xs = [Suc n - length xs..<Suc n]"
    using assms(1) by (auto simp: log_ok_def)
  have "map (\<lambda>e. unat (seq_of e)) (xs @ [e]) = [Suc n - length xs..<Suc (Suc n)]"
    using assms(2) len by (simp add: seqs)
  then have "map (\<lambda>e. unat (seq_of e)) (push_bounded cap xs e) =
      [Suc n - length xs + (Suc (length xs) - cap)..<Suc (Suc n)]"
    by (simp only: push_bounded_drop drop_map [symmetric] drop_upt)
  moreover have "length (push_bounded cap xs e) = min (Suc n) cap"
    using len by (simp add: push_bounded_drop)
  moreover have "Suc n - length xs + (Suc (length xs) - cap) = Suc (Suc n) - min (Suc n) cap"
    using len cap_positive by (simp add: min_def)
  ultimately show ?thesis
    by (simp add: log_ok_def del: upt_Suc)
qed

text \<open>A page starts right after the number given, unless events were evicted there, and has no gap.\<close>

lemma page_seqs:
  assumes "log_ok n xs"
  shows "map (\<lambda>e. unat (seq_of e)) (page_after seq_of cap after limit xs) =
    take (clamp 1 cap limit) [max (Suc n - length xs) (Suc (unat after))..<Suc n]"
proof -
  have "map (\<lambda>e. unat (seq_of e)) (filter (\<lambda>e. after < seq_of e) xs) =
      filter (\<lambda>k. unat after < k) (map (\<lambda>e. unat (seq_of e)) xs)"
    by (simp add: filter_map comp_def word_less_nat_alt)
  then show ?thesis
    using assms by (simp add: page_after_def take_map [symmetric] log_ok_def filter_upt_above del: upt_Suc)
qed

lemma page_progress:
  assumes "log_ok n xs" and "unat after < n"
  shows "page_after seq_of cap after limit xs \<noteq> []"
proof -
  have "0 < clamp 1 cap limit"
    using clamp_bounds [of 1 cap limit] cap_positive by simp
  moreover have "max (Suc n - length xs) (Suc (unat after)) < Suc n"
    using assms cap_positive by (auto simp: log_ok_def min_def split: if_splits)
  ultimately have "take (clamp 1 cap limit) [max (Suc n - length xs) (Suc (unat after))..<Suc n] \<noteq> []"
    by (simp del: upt_Suc max_less_iff_conj add: not_le)
  with page_seqs [OF assms(1), of after limit] show ?thesis
    by (metis list.simps(8))
qed

end

end
