(* ===== verification/Control_Turns.thy ===== *)
theory Control_Turns
  imports Event_Log Contracts Btree_Map
begin

text \<open>
  \<open>ControlPlaneTurnRegistry\<close> of \<open>crates/app/src/control_plane.rs\<close>: turns with their event logs, their
  completion and the retention of completed turns.  The clock and the random component of an
  identifier are arguments; the events passed to the broadcast channel are kept as a list.  A
  poisoned lock is entered all the same, as the code does.
\<close>

section \<open>Data\<close>

datatype turn_status = TurnRunning | TurnCompleted | TurnFailed | TurnCancelled

fun turn_status_as_str :: "turn_status \<Rightarrow> string" where
  "turn_status_as_str TurnRunning = ''running''"
| "turn_status_as_str TurnCompleted = ''completed''"
| "turn_status_as_str TurnFailed = ''failed''"
| "turn_status_as_str TurnCancelled = ''cancelled''"

fun turn_is_terminal :: "turn_status \<Rightarrow> bool" where
  "turn_is_terminal TurnRunning = False"
| "turn_is_terminal _ = True"

record turn_event =
  tev_turn_id :: string
  tev_session_id :: string
  tev_seq :: u64
  tev_terminal :: bool
  tev_payload :: json

record turn_snapshot =
  turn_id :: string
  turn_session_id :: string
  turn_status :: turn_status
  submitted_at_ms :: u64
  completed_at_ms :: "u64 option"
  event_count :: usize
  output_text :: "string option"
  stop_reason :: "string option"
  turn_usage :: "json option"
  turn_error :: "string option"

record turn_state =
  turn_snap :: turn_snapshot
  turn_events :: "turn_event list"
  next_seq :: u64

record turn_registry =
  turn_nonce :: u64
  turns :: "(string, turn_state) btree_map"
  turn_broadcast :: "turn_event list"

definition turn_event_limit :: nat where
  "turn_event_limit = 256"

definition turn_retention_limit :: nat where
  "turn_retention_limit = 256"

definition turn_registry_new :: turn_registry where
  "turn_registry_new = \<lparr>turn_nonce = 0, turns = bt_empty, turn_broadcast = []\<rparr>"

section \<open>Operations\<close>

definition turn_id_of :: "u64 \<Rightarrow> u64 \<Rightarrow> string" where
  "turn_id_of sequence rnd = ''cpt-turn-'' @ hex16 sequence @ ''-'' @ hex16 rnd"

definition issue_turn :: "u64 \<Rightarrow> u64 \<Rightarrow> string \<Rightarrow> turn_registry \<Rightarrow> turn_registry \<times> turn_snapshot" where
  "issue_turn now rnd session_id reg =
     (let sequence = turn_nonce reg + 1;
          tid = turn_id_of sequence rnd;
          snapshot = \<lparr>turn_id = tid, turn_session_id = session_id, turn_status = TurnRunning,
            submitted_at_ms = now, completed_at_ms = None, event_count = 0, output_text = None,
            stop_reason = None, turn_usage = None, turn_error = None\<rparr>;
          rec = \<lparr>turn_snap = snapshot, turn_events = [], next_seq = 1\<rparr> in
      (reg\<lparr>turn_nonce := sequence, turns := bt_insert tid rec (turns reg)\<rparr>, snapshot))"

definition read_turn :: "turn_registry \<Rightarrow> string \<Rightarrow> turn_snapshot option" where
  "read_turn reg tid = map_option turn_snap (bt_get (turns reg) tid)"

definition turn_not_found :: "string \<Rightarrow> string" where
  "turn_not_found tid = ''control_plane_turn_not_found: `'' @ tid @ ''`''"

definition turn_events_after ::
    "turn_registry \<Rightarrow> string \<Rightarrow> u64 \<Rightarrow> nat \<Rightarrow> string + turn_event list" where
  "turn_events_after reg tid after limit =
     (case bt_get (turns reg) tid of
        None \<Rightarrow> Inl (turn_not_found tid)
      | Some rec \<Rightarrow> Inr (page_after tev_seq turn_event_limit after limit (turn_events rec)))"

definition ensure_turn_mutable :: "turn_state \<Rightarrow> string \<Rightarrow> string + unit" where
  "ensure_turn_mutable rec tid =
     (if \<not> turn_is_terminal (turn_status (turn_snap rec)) then Inr ()
      else Inl (''control_plane_turn_already_terminal: `'' @ tid @ ''`''))"

definition push_event_locked :: "turn_state \<Rightarrow> bool \<Rightarrow> json \<Rightarrow> turn_state \<times> turn_event" where
  "push_event_locked rec terminal payload =
     (let event = \<lparr>tev_turn_id = turn_id (turn_snap rec), tev_session_id = turn_session_id (turn_snap rec),
            tev_seq = next_seq rec, tev_terminal = terminal, tev_payload = payload\<rparr> in
      (rec\<lparr>next_seq := next_seq rec + 1,
           turn_snap := (turn_snap rec)\<lparr>event_count := Suc (event_count (turn_snap rec))\<rparr>,
           turn_events := push_bounded turn_event_limit (turn_events rec) event\<rparr>, event))"

definition broadcast :: "turn_event \<Rightarrow> turn_registry \<Rightarrow> turn_registry" where
  "broadcast event reg = reg\<lparr>turn_broadcast := turn_broadcast reg @ [event]\<rparr>"

definition push_event ::
    "string \<Rightarrow> bool \<Rightarrow> json \<Rightarrow> turn_registry \<Rightarrow> turn_registry \<times> (string + turn_event)" where
  "push_event tid terminal payload reg =
     (case bt_get (turns reg) tid of
        None \<Rightarrow> (reg, Inl (turn_not_found tid))
      | Some rec \<Rightarrow>
          (case ensure_turn_mutable rec tid of
             Inl e \<Rightarrow> (reg, Inl e)
           | Inr _ \<Rightarrow>
               (case push_event_locked rec terminal payload of
                  (rec', event) \<Rightarrow>
                    (broadcast event (reg\<lparr>turns := bt_insert tid rec' (turns reg)\<rparr>), Inr event))))"

definition record_runtime_event ::
    "string \<Rightarrow> json \<Rightarrow> turn_registry \<Rightarrow> turn_registry \<times> (string + turn_event)" where
  "record_runtime_event tid payload reg = push_event tid False payload reg"

text \<open>
  Pruning: of the completed turns beyond the retention limit, those that completed first are
  removed, with the time of submission and the identifier to break ties: the lexicographic order
  on the triples.
\<close>

definition terminal_entries :: "(string, turn_state) btree_map \<Rightarrow> (string \<times> turn_state) list" where
  "terminal_entries m = filter (\<lambda>e. turn_is_terminal (turn_status (turn_snap (snd e)))) m"

definition removal_key :: "string \<times> turn_state \<Rightarrow> u64 \<times> u64 \<times> string" where
  "removal_key e =
     (let s = turn_snap (snd e) in
      (case completed_at_ms s of Some t \<Rightarrow> t | None \<Rightarrow> submitted_at_ms s, submitted_at_ms s, fst e))"

definition prune_terminal_turns :: "(string, turn_state) btree_map \<Rightarrow> (string, turn_state) btree_map" where
  "prune_terminal_turns m =
     (let terminal_count = length (terminal_entries m) in
      if terminal_count \<le> turn_retention_limit then m
      else
        let overflow_count = terminal_count - turn_retention_limit;
            candidates = sort (map removal_key (terminal_entries m)) in
        fold (\<lambda>(_, _, tid) m. bt_remove tid m) (take overflow_count candidates) m)"

text \<open>The shared part of the two completions: \<open>finish\<close> sets the fields of the snapshot.\<close>

definition complete_turn ::
    "string \<Rightarrow> (turn_snapshot \<Rightarrow> turn_snapshot) \<Rightarrow> json \<Rightarrow> turn_registry
       \<Rightarrow> turn_registry \<times> (string + turn_event)" where
  "complete_turn tid finish payload reg =
     (case bt_get (turns reg) tid of
        None \<Rightarrow> (reg, Inl (turn_not_found tid))
      | Some rec \<Rightarrow>
          (case ensure_turn_mutable rec tid of
             Inl e \<Rightarrow> (reg, Inl e)
           | Inr _ \<Rightarrow>
               (case push_event_locked (rec\<lparr>turn_snap := finish (turn_snap rec)\<rparr>) True payload of
                  (rec', event) \<Rightarrow>
                    (broadcast event
                       (reg\<lparr>turns := prune_terminal_turns (bt_insert tid rec' (turns reg))\<rparr>),
                     Inr event))))"

definition json_option :: "('a \<Rightarrow> json) \<Rightarrow> 'a option \<Rightarrow> json" where
  "json_option f x = (case x of None \<Rightarrow> JNull | Some a \<Rightarrow> f a)"

definition complete_success ::
    "u64 \<Rightarrow> string \<Rightarrow> string \<Rightarrow> string option \<Rightarrow> json option \<Rightarrow> turn_registry
       \<Rightarrow> turn_registry \<times> (string + turn_event)" where
  "complete_success now tid output stop usage reg =
     complete_turn tid
       (\<lambda>s. s\<lparr>turn_status := (if stop = Some ''cancelled'' then TurnCancelled else TurnCompleted),
              completed_at_ms := Some now, output_text := Some output, stop_reason := stop,
              turn_usage := usage, turn_error := None\<rparr>)
       (JObject [(''event_type'', JString ''turn.completed''), (''output_text'', JString output),
                 (''stop_reason'', json_option JString stop), (''usage'', json_option id usage)])
       reg"

definition complete_failure ::
    "u64 \<Rightarrow> string \<Rightarrow> string \<Rightarrow> turn_registry \<Rightarrow> turn_registry \<times> (string + turn_event)" where
  "complete_failure now tid err reg =
     complete_turn tid
       (\<lambda>s. s\<lparr>turn_status := TurnFailed, completed_at_ms := Some now, turn_error := Some err,
              output_text := None, stop_reason := None, turn_usage := None\<rparr>)
       (JObject [(''error'', JString err), (''event_type'', JString ''turn.failed'')])
       reg"

section \<open>Runs\<close>

datatype turn_op =
    IssueTurn u64 u64 string
  | RuntimeEvent string json
  | CompleteSuccess u64 string string "string option" "json option"
  | CompleteFailure u64 string string

fun turn_step :: "turn_op \<Rightarrow> turn_registry \<Rightarrow> turn_registry" where
  "turn_step (IssueTurn now rnd session_id) reg = fst (issue_turn now rnd session_id reg)"
| "turn_step (RuntimeEvent tid payload) reg = fst (record_runtime_event tid payload reg)"
| "turn_step (CompleteSuccess now tid output stop usage) reg =
     fst (complete_success now tid output stop usage reg)"
| "turn_step (CompleteFailure now tid err) reg = fst (complete_failure now tid err reg)"

definition turn_run :: "turn_op list \<Rightarrow> turn_registry \<Rightarrow> turn_registry" where
  "turn_run ops reg = fold turn_step ops reg"

section \<open>Pruning\<close>

lemma fold_bt_remove:
  "fold (\<lambda>(_, _, tid) m. bt_remove tid m) ks m = filter (\<lambda>e. fst e \<notin> (snd \<circ> snd) ` set ks) m"
proof (induction ks arbitrary: m)
  case (Cons k ks)
  then show ?case
    by (cases k) (auto simp: bt_remove_def intro!: filter_cong)
qed simp

lemma removal_key_id [simp]: "snd (snd (removal_key e)) = fst e"
  by (simp add: removal_key_def Let_def)

text \<open>The identifiers that pruning removes.\<close>

definition pruned_ids :: "(string, turn_state) btree_map \<Rightarrow> string set" where
  "pruned_ids m = (snd \<circ> snd) ` set (take (length (terminal_entries m) - turn_retention_limit)
     (sort (map removal_key (terminal_entries m))))"

lemma prune_filter: "prune_terminal_turns m = filter (\<lambda>e. fst e \<notin> pruned_ids m) m"
  by (simp add: prune_terminal_turns_def pruned_ids_def Let_def fold_bt_remove)

lemma pruned_ids_terminal: "pruned_ids m \<subseteq> fst ` set (terminal_entries m)"
proof
  fix tid
  assume "tid \<in> pruned_ids m"
  then obtain k where k: "k \<in> set (sort (map removal_key (terminal_entries m)))" "tid = snd (snd k)"
    unfolding pruned_ids_def by (auto dest: in_set_takeD)
  then show "tid \<in> fst ` set (terminal_entries m)"
    by (auto simp: image_iff) (metis fst_conv removal_key_id)
qed

lemma card_pruned_ids:
  assumes "bt_ok m"
  shows "card (pruned_ids m) = length (terminal_entries m) - turn_retention_limit"
proof -
  let ?ks = "map removal_key (terminal_entries m)"
  have ids: "map (snd \<circ> snd) ?ks = map fst (terminal_entries m)"
    by simp
  have "distinct (map (snd \<circ> snd) ?ks)"
    unfolding ids unfolding terminal_entries_def by (rule bt_ok_distinct [OF bt_ok_filter [OF assms]])
  then have "distinct ?ks" "inj_on (snd \<circ> snd) (set ?ks)"
    unfolding distinct_map [of "snd \<circ> snd"] by (rule conjunct1, rule conjunct2)
  then have "distinct (map (snd \<circ> snd) (sort ?ks))"
    unfolding distinct_map [of "snd \<circ> snd"] distinct_sort set_sort by (rule conjI)
  then have "distinct (take (length (terminal_entries m) - turn_retention_limit) (map (snd \<circ> snd) (sort ?ks)))"
    by (rule distinct_take)
  from distinct_card [OF this] show ?thesis
    by (simp add: pruned_ids_def take_map)
qed

lemma terminal_entries_prune:
  "terminal_entries (prune_terminal_turns m) = filter (\<lambda>e. fst e \<notin> pruned_ids m) (terminal_entries m)"
  by (simp add: prune_filter terminal_entries_def conj_commute)

lemma length_terminal_prune:
  assumes "bt_ok m"
  shows "length (terminal_entries (prune_terminal_turns m)) = min (length (terminal_entries m)) turn_retention_limit"
proof -
  have d: "distinct (map fst (terminal_entries m))"
    using bt_ok_distinct [OF bt_ok_filter [OF assms]] by (simp add: terminal_entries_def)
  have "length (filter (\<lambda>k. k \<notin> pruned_ids m) (map fst (terminal_entries m))) =
      card (fst ` set (terminal_entries m) - pruned_ids m)"
    using d distinct_card [of "filter (\<lambda>k. k \<notin> pruned_ids m) (map fst (terminal_entries m))"]
    by (simp add: set_diff_eq distinct_filter)
  also have "\<dots> = length (terminal_entries m) - card (pruned_ids m)"
    using pruned_ids_terminal [of m] d distinct_card [OF d]
    by (simp add: card_Diff_subset finite_subset)
  finally show ?thesis
    by (simp add: terminal_entries_prune filter_map comp_def card_pruned_ids [OF assms])
qed

lemma pruned_before_kept:
  assumes "bt_ok m" and e: "e \<in> set (terminal_entries m)" "fst e \<in> pruned_ids m"
    and e': "e' \<in> set (terminal_entries m)" "fst e' \<notin> pruned_ids m"
  shows "removal_key e \<le> removal_key e'"
proof -
  let ?ks = "sort (map removal_key (terminal_entries m))"
  let ?n = "length (terminal_entries m) - turn_retention_limit"
  obtain k where k: "k \<in> set (take ?n ?ks)" "snd (snd k) = fst e"
    using e(2) by (auto simp: pruned_ids_def)
  then have "k \<in> removal_key ` set (terminal_entries m)"
    using in_set_takeD [OF k(1)] by simp
  then obtain a where a: "a \<in> set (terminal_entries m)" "k = removal_key a"
    by blast
  then have "fst a = fst e"
    using k(2) by simp
  then have "a = e"
    using a(1) e(1) bt_ok_distinct [OF bt_ok_filter [OF assms(1)]]
    by (metis eq_key_imp_eq_value prod.collapse terminal_entries_def)
  have "removal_key e' \<in> set ?ks"
    using e'(1) by simp
  then have "removal_key e' \<in> set (take ?n ?ks) \<union> set (drop ?n ?ks)"
    by (metis append_take_drop_id set_append)
  moreover have "removal_key e' \<notin> set (take ?n ?ks)"
    using e'(2) by (force simp: pruned_ids_def image_iff)
  ultimately have "removal_key e' \<in> set (drop ?n ?ks)" by blast
  moreover have "sorted (take ?n ?ks @ drop ?n ?ks)"
    by simp
  ultimately show ?thesis
    using k(1) a(2) \<open>a = e\<close> unfolding sorted_append by blast
qed

lemma bt_get_prune:
  assumes "bt_ok m"
  shows "bt_get (prune_terminal_turns m) tid = (if tid \<in> pruned_ids m then None else bt_get m tid)"
proof (cases "bt_get m tid")
  case None
  then have "tid \<notin> fst ` set m"
    by (simp add: bt_get_def map_of_eq_None_iff)
  then have "bt_get (prune_terminal_turns m) tid = None"
    by (auto simp: prune_filter bt_get_def map_of_eq_None_iff)
  with None show ?thesis by simp
next
  case (Some rec)
  have "tid \<notin> pruned_ids m \<Longrightarrow> bt_get (prune_terminal_turns m) tid = Some rec"
    using bt_get_mem [OF bt_ok_filter [OF assms], of "\<lambda>e. fst e \<notin> pruned_ids m" tid rec]
      bt_get_mem [OF assms, of tid rec] Some by (simp add: prune_filter)
  moreover have "tid \<in> pruned_ids m \<Longrightarrow> bt_get (prune_terminal_turns m) tid = None"
    by (auto simp: prune_filter bt_get_def map_of_eq_None_iff)
  ultimately show ?thesis
    using Some by simp
qed

lemma bt_ok_prune: "bt_ok m \<Longrightarrow> bt_ok (prune_terminal_turns m)"
  by (simp add: prune_filter bt_ok_filter)

lemma pruned_terminal:
  assumes "bt_ok m" and "bt_get m tid = Some rec" and "tid \<in> pruned_ids m"
  shows "turn_is_terminal (turn_status (turn_snap rec))"
proof -
  obtain v where v: "(tid, v) \<in> set m" "turn_is_terminal (turn_status (turn_snap v))"
    using pruned_ids_terminal [of m] assms(3) by (fastforce simp: terminal_entries_def)
  then have "v = rec"
    using bt_get_mem [OF assms(1), of tid v] assms(2) by simp
  with v(2) show ?thesis by simp
qed

section \<open>The invariant of the registry\<close>

interpretation turn_log: bounded_log tev_seq turn_event_limit
  by unfold_locales (simp add: turn_event_limit_def)

definition turn_finished :: "turn_state \<Rightarrow> bool" where
  "turn_finished rec \<longleftrightarrow> turn_is_terminal (turn_status (turn_snap rec))"

text \<open>
  A record is well formed when it carries its own identifier, its log holds the newest of its
  \<open>event_count\<close> events, and exactly the last event of a finished turn is marked terminal.
\<close>

definition turn_rec_ok :: "string \<Rightarrow> turn_state \<Rightarrow> bool" where
  "turn_rec_ok tid rec \<longleftrightarrow>
     turn_id (turn_snap rec) = tid
     \<and> unat (next_seq rec) = Suc (event_count (turn_snap rec))
     \<and> turn_log.log_ok (event_count (turn_snap rec)) (turn_events rec)
     \<and> (\<forall>e \<in> set (turn_events rec). tev_turn_id e = tid \<and> tev_session_id e = turn_session_id (turn_snap rec))
     \<and> (\<forall>e \<in> set (butlast (turn_events rec)). \<not> tev_terminal e)
     \<and> (turn_finished rec \<longrightarrow> turn_events rec \<noteq> [])
     \<and> (turn_events rec \<noteq> [] \<longrightarrow> tev_terminal (last (turn_events rec)) = turn_finished rec)"

text \<open>After \<open>n\<close> operations.\<close>

definition turn_reg_ok :: "nat \<Rightarrow> turn_registry \<Rightarrow> bool" where
  "turn_reg_ok n reg \<longleftrightarrow>
     bt_ok (turns reg) \<and> unat (turn_nonce reg) \<le> n
     \<and> (\<forall>tid rec. bt_get (turns reg) tid = Some rec \<longrightarrow>
          turn_rec_ok tid rec \<and> event_count (turn_snap rec) \<le> n
          \<and> (\<exists>s r. tid = turn_id_of s r \<and> unat s \<le> unat (turn_nonce reg)))
     \<and> length (terminal_entries (turns reg)) \<le> turn_retention_limit"

lemma turn_id_of_inj: "turn_id_of s r = turn_id_of s' r' \<longleftrightarrow> s = s' \<and> r = r'"
  by (auto simp: turn_id_of_def)

lemma push_event_locked_ok:
  assumes "turn_rec_ok tid rec" and "\<not> turn_finished rec" and "event_count (turn_snap rec) \<le> n" and "Suc n < 2 ^ 64 - 1"
    and fin: "turn_id (f (turn_snap rec)) = turn_id (turn_snap rec)"
      "turn_session_id (f (turn_snap rec)) = turn_session_id (turn_snap rec)"
      "event_count (f (turn_snap rec)) = event_count (turn_snap rec)"
      "turn_is_terminal (turn_status (f (turn_snap rec))) = terminal"
    and push: "push_event_locked (rec\<lparr>turn_snap := f (turn_snap rec)\<rparr>) terminal payload = (rec', event)"
  shows "turn_rec_ok tid rec' \<and> event_count (turn_snap rec') = Suc (event_count (turn_snap rec))
     \<and> turn_finished rec' = terminal"
proof -
  let ?n = "event_count (turn_snap rec)"
  have old: "turn_id (turn_snap rec) = tid" "unat (next_seq rec) = Suc ?n"
    "turn_log.log_ok ?n (turn_events rec)"
    "\<forall>e \<in> set (turn_events rec). tev_turn_id e = tid \<and> tev_session_id e = turn_session_id (turn_snap rec)"
    "\<forall>e \<in> set (butlast (turn_events rec)). \<not> tev_terminal e"
    "turn_events rec \<noteq> [] \<longrightarrow> \<not> tev_terminal (last (turn_events rec))"
    using assms(1,2) by (auto simp: turn_rec_ok_def)
  have none: "\<forall>e \<in> set (turn_events rec). \<not> tev_terminal e"
    using old(5,6) by (cases "turn_events rec" rule: rev_cases) auto
  have rec': "turn_snap rec' = (f (turn_snap rec))\<lparr>event_count := Suc ?n\<rparr>" "next_seq rec' = next_seq rec + 1"
    "turn_events rec' = push_bounded turn_event_limit (turn_events rec) event"
    and event: "tev_turn_id event = tid" "tev_session_id event = turn_session_id (turn_snap rec)"
      "tev_seq event = next_seq rec" "tev_terminal event = terminal"
    using push fin old(1) by (auto simp: push_event_locked_def Let_def)
  have "next_seq rec \<noteq> - 1"
    using old(2) assms(3,4) unat_minus_one_u64 by auto
  then have seq: "unat (next_seq rec') = Suc (Suc ?n)"
    using rec'(2) old(2) by (simp add: unat_inc_u64)
  have log: "turn_log.log_ok (Suc ?n) (turn_events rec')"
    unfolding rec'(3) by (rule turn_log.log_ok_push [OF old(3)]) (simp add: event(3) old(2))
  have evs: "turn_events rec' = drop (Suc (length (turn_events rec)) - turn_event_limit) (turn_events rec) @ [event]"
    using old(3) unfolding rec'(3) push_bounded_drop
    by (auto simp: turn_log.log_ok_def turn_event_limit_def)
  have "turn_finished rec' = terminal"
    by (simp add: turn_finished_def rec'(1) fin)
  moreover have "\<forall>e \<in> set (drop k (turn_events rec)). \<not> tev_terminal e
      \<and> tev_turn_id e = tid \<and> tev_session_id e = turn_session_id (turn_snap rec)" for k
    using old(4) none by (meson in_set_dropD)
  ultimately show ?thesis
    using seq log fin event old(1) unfolding turn_rec_ok_def
    by (auto simp: evs rec'(1))
qed

lemma ensure_turn_mutable_Inr: "ensure_turn_mutable rec tid = Inr u \<longleftrightarrow> \<not> turn_finished rec"
  by (simp add: ensure_turn_mutable_def turn_finished_def)

lemma turn_reg_okD:
  assumes "turn_reg_ok n reg" and "bt_get (turns reg) tid = Some rec"
  shows "turn_rec_ok tid rec" "event_count (turn_snap rec) \<le> n"
    "\<exists>s r. tid = turn_id_of s r \<and> unat s \<le> unat (turn_nonce reg)"
  using assms unfolding turn_reg_ok_def by blast+

lemma terminal_entries_insert_running:
  assumes bt: "bt_ok m" and fin: "\<not> turn_finished rec'"
  shows "length (terminal_entries (bt_insert tid rec' m)) \<le> length (terminal_entries m)"
proof -
  let ?m' = "bt_insert tid rec' m"
  have "set (terminal_entries ?m') \<subseteq> set (terminal_entries m)"
  proof
    fix e
    assume e: "e \<in> set (terminal_entries ?m')"
    then have "bt_get ?m' (fst e) = Some (snd e)" "turn_finished (snd e)"
      using bt_get_mem [of ?m' "fst e" "snd e"] bt by (auto simp: terminal_entries_def turn_finished_def)
    then have "bt_get m (fst e) = Some (snd e)"
      using bt fin by (auto split: if_splits)
    with \<open>turn_finished (snd e)\<close> show "e \<in> set (terminal_entries m)"
      using bt_get_mem [OF bt, of "fst e" "snd e"] by (simp add: terminal_entries_def turn_finished_def)
  qed
  moreover have "distinct (terminal_entries k)" if "bt_ok k" for k
    using bt_ok_distinct [OF that] by (simp add: terminal_entries_def distinct_map)
  ultimately show ?thesis
    using card_mono [OF List.finite_set] distinct_card [of "terminal_entries ?m'"]
      distinct_card [of "terminal_entries m"] bt bt_ok_insert [OF bt] by metis
qed

text \<open>The two shapes of a change: one entry gets a new record, with or without pruning.\<close>

lemma turn_reg_ok_update:
  assumes ok: "turn_reg_ok n reg" and get: "bt_get (turns reg) tid = Some rec"
    and rec': "turn_rec_ok tid rec'" "event_count (turn_snap rec') \<le> Suc n"
    and m': "m' = bt_insert tid rec' (turns reg) \<and> \<not> turn_finished rec \<and> \<not> turn_finished rec'
      \<or> m' = prune_terminal_turns (bt_insert tid rec' (turns reg))"
  shows "turn_reg_ok (Suc n) (broadcast event (reg\<lparr>turns := m'\<rparr>))"
proof -
  have bt: "bt_ok (turns reg)" using ok by (simp add: turn_reg_ok_def)
  have "bt_ok m'"
    using m' bt by (auto simp: bt_ok_prune)
  moreover have "turn_rec_ok i r \<and> event_count (turn_snap r) \<le> Suc n
      \<and> (\<exists>s q. i = turn_id_of s q \<and> unat s \<le> unat (turn_nonce reg))" if "bt_get m' i = Some r" for i r
  proof -
    have "bt_get (bt_insert tid rec' (turns reg)) i = Some r"
      using that m' bt by (auto simp: bt_get_prune split: if_splits)
    then have upd: "((bt_get (turns reg))(tid \<mapsto> rec')) i = Some r"
      using bt by simp
    show ?thesis
    proof (cases "i = tid")
      case True
      then show ?thesis using upd rec' turn_reg_okD(3) [OF ok get] by simp
    next
      case False
      then show ?thesis using upd turn_reg_okD [OF ok, of i r] by simp
    qed
  qed
  moreover have "length (terminal_entries m') \<le> turn_retention_limit"
    using m'
  proof (elim disjE conjE)
    assume new: "m' = bt_insert tid rec' (turns reg)" and fin: "\<not> turn_finished rec" "\<not> turn_finished rec'"
    then have "length (terminal_entries m') \<le> length (terminal_entries (turns reg))"
      using terminal_entries_insert_running [OF bt] by simp
    then show ?thesis
      using ok by (simp add: turn_reg_ok_def)
  next
    assume "m' = prune_terminal_turns (bt_insert tid rec' (turns reg))"
    then show ?thesis
      using bt by (simp add: length_terminal_prune)
  qed
  moreover have "unat (turn_nonce reg) \<le> Suc n"
    using ok by (simp add: turn_reg_ok_def)
  ultimately show ?thesis
    by (simp add: turn_reg_ok_def broadcast_def)
qed

lemma turn_reg_ok_Suc: "turn_reg_ok n reg \<Longrightarrow> turn_reg_ok (Suc n) reg"
  unfolding turn_reg_ok_def by (meson le_Suc_eq)

lemma push_event_ok:
  assumes ok: "turn_reg_ok n reg" and n: "Suc n < 2 ^ 64 - 1"
  shows "turn_reg_ok (Suc n) (fst (push_event tid False payload reg))"
proof (cases "bt_get (turns reg) tid")
  case (Some rec)
  show ?thesis
  proof (cases "turn_finished rec")
    case False
    have rec: "turn_rec_ok tid rec" "event_count (turn_snap rec) \<le> n"
      using ok Some by (auto simp: turn_reg_ok_def)
    obtain rec' event where push: "push_event_locked rec False payload = (rec', event)"
      by fastforce
    then have "turn_rec_ok tid rec' \<and> event_count (turn_snap rec') = Suc (event_count (turn_snap rec))
        \<and> turn_finished rec' = False"
      using push_event_locked_ok [OF rec(1) False rec(2) n, of "\<lambda>s. s" False payload rec' event] False
      by (simp add: turn_finished_def)
    then have "turn_reg_ok (Suc n) (broadcast event (reg\<lparr>turns := bt_insert tid rec' (turns reg)\<rparr>))"
      using False rec(2) by (intro turn_reg_ok_update [OF ok Some]) auto
    with Some False push show ?thesis
      by (simp add: push_event_def ensure_turn_mutable_def turn_finished_def)
  qed (use ok Some in \<open>simp add: push_event_def ensure_turn_mutable_def turn_finished_def turn_reg_ok_Suc\<close>)
qed (use ok in \<open>simp add: push_event_def turn_reg_ok_Suc\<close>)

lemma complete_turn_ok:
  assumes ok: "turn_reg_ok n reg" and n: "Suc n < 2 ^ 64 - 1"
    and fin: "\<And>s. turn_id (f s) = turn_id s" "\<And>s. turn_session_id (f s) = turn_session_id s"
      "\<And>s. event_count (f s) = event_count s" "\<And>s. turn_is_terminal (turn_status (f s))"
  shows "turn_reg_ok (Suc n) (fst (complete_turn tid f payload reg))"
proof (cases "bt_get (turns reg) tid")
  case (Some rec)
  show ?thesis
  proof (cases "turn_finished rec")
    case False
    have rec: "turn_rec_ok tid rec" "event_count (turn_snap rec) \<le> n"
      using ok Some by (auto simp: turn_reg_ok_def)
    obtain rec' event where
      push: "push_event_locked (rec\<lparr>turn_snap := f (turn_snap rec)\<rparr>) True payload = (rec', event)"
      by fastforce
    then have "turn_rec_ok tid rec' \<and> event_count (turn_snap rec') = Suc (event_count (turn_snap rec))"
      using push_event_locked_ok [OF rec(1) False rec(2) n, of f True payload rec' event] fin
      by simp
    then have "turn_reg_ok (Suc n)
        (broadcast event (reg\<lparr>turns := prune_terminal_turns (bt_insert tid rec' (turns reg))\<rparr>))"
      using rec(2) by (intro turn_reg_ok_update [OF ok Some]) auto
    with Some False push show ?thesis
      by (simp add: complete_turn_def ensure_turn_mutable_def turn_finished_def)
  qed (use ok Some in \<open>simp add: complete_turn_def ensure_turn_mutable_def turn_finished_def turn_reg_ok_Suc\<close>)
qed (use ok in \<open>simp add: complete_turn_def turn_reg_ok_Suc\<close>)

lemma fresh_turn_id:
  assumes "turn_reg_ok n reg" and "Suc n < 2 ^ 64 - 1"
  shows "bt_get (turns reg) (turn_id_of (turn_nonce reg + 1) rnd) = None"
    and "unat (turn_nonce reg + 1) = Suc (unat (turn_nonce reg))"
proof -
  have "turn_nonce reg \<noteq> - 1"
    using assms unat_minus_one_u64 by (auto simp: turn_reg_ok_def)
  then show inc: "unat (turn_nonce reg + 1) = Suc (unat (turn_nonce reg))"
    by (rule unat_inc_u64)
  have "False" if get: "bt_get (turns reg) (turn_id_of (turn_nonce reg + 1) rnd) = Some rec" for rec
  proof -
    from turn_reg_okD(3) [OF assms(1) get] have "unat (turn_nonce reg + 1) \<le> unat (turn_nonce reg)"
      by (simp add: turn_id_of_inj)
    with inc show False by simp
  qed
  then show "bt_get (turns reg) (turn_id_of (turn_nonce reg + 1) rnd) = None"
    by (meson option.exhaust)
qed

definition fresh_turn :: "u64 \<Rightarrow> string \<Rightarrow> string \<Rightarrow> turn_state" where
  "fresh_turn now session_id tid =
     \<lparr>turn_snap = \<lparr>turn_id = tid, turn_session_id = session_id, turn_status = TurnRunning,
        submitted_at_ms = now, completed_at_ms = None, event_count = 0, output_text = None,
        stop_reason = None, turn_usage = None, turn_error = None\<rparr>, turn_events = [], next_seq = 1\<rparr>"

lemma issue_turn_fst:
  "fst (issue_turn now rnd session_id reg) =
     (let tid = turn_id_of (turn_nonce reg + 1) rnd in
      reg\<lparr>turn_nonce := turn_nonce reg + 1, turns := bt_insert tid (fresh_turn now session_id tid) (turns reg)\<rparr>)"
  by (simp add: issue_turn_def fresh_turn_def Let_def)

lemma issue_turn_ok:
  assumes ok: "turn_reg_ok n reg" and n: "Suc n < 2 ^ 64 - 1"
  shows "turn_reg_ok (Suc n) (fst (issue_turn now rnd session_id reg))"
proof -
  let ?tid = "turn_id_of (turn_nonce reg + 1) rnd"
  let ?rec = "fresh_turn now session_id ?tid"
  have bt: "bt_ok (turns reg)" and nonce: "unat (turn_nonce reg) \<le> n"
    and few: "length (terminal_entries (turns reg)) \<le> turn_retention_limit"
    using ok by (auto simp: turn_reg_ok_def)
  have inc: "unat (turn_nonce reg + 1) = Suc (unat (turn_nonce reg))"
    by (rule fresh_turn_id(2) [OF ok n])
  have rec: "turn_rec_ok ?tid ?rec" "\<not> turn_finished ?rec" "event_count (turn_snap ?rec) = 0"
    by (simp_all add: turn_rec_ok_def fresh_turn_def turn_finished_def turn_log.log_ok_empty)
  have "turn_rec_ok i r \<and> event_count (turn_snap r) \<le> Suc n
      \<and> (\<exists>s q. i = turn_id_of s q \<and> unat s \<le> unat (turn_nonce reg + 1))"
    if get: "((bt_get (turns reg))(?tid \<mapsto> ?rec)) i = Some r" for i r
  proof (cases "i = ?tid")
    case True
    then show ?thesis using get rec by auto
  next
    case False
    then obtain s q where "i = turn_id_of s q" "unat s \<le> unat (turn_nonce reg)"
      using get turn_reg_okD(3) [OF ok, of i r] by auto
    then have "\<exists>s q. i = turn_id_of s q \<and> unat s \<le> unat (turn_nonce reg + 1)"
      using inc le_SucI by metis
    then show ?thesis
      using False get turn_reg_okD(1,2) [OF ok, of i r] by simp
  qed
  then show ?thesis
    using bt nonce few inc terminal_entries_insert_running [OF bt rec(2), of ?tid]
    unfolding issue_turn_fst Let_def turn_reg_ok_def by simp
qed

lemma turn_step_ok: "turn_reg_ok n reg \<Longrightarrow> Suc n < 2 ^ 64 - 1 \<Longrightarrow> turn_reg_ok (Suc n) (turn_step op reg)"
  by (cases op) (simp_all add: issue_turn_ok record_runtime_event_def push_event_ok
      complete_success_def complete_failure_def complete_turn_ok)

lemma turn_run_ok:
  "turn_reg_ok n reg \<Longrightarrow> n + length ops < 2 ^ 64 - 1 \<Longrightarrow> turn_reg_ok (n + length ops) (turn_run ops reg)"
proof (induction ops arbitrary: n reg)
  case (Cons op ops)
  have "turn_reg_ok (Suc n) (turn_step op reg)"
    using turn_step_ok [OF Cons.prems(1)] Cons.prems(2) by simp
  from Cons.IH [OF this] Cons.prems(2) show ?case
    by (simp add: turn_run_def)
qed (simp add: turn_run_def)

lemma turn_registry_new_ok: "turn_reg_ok 0 turn_registry_new"
  by (simp add: turn_reg_ok_def turn_registry_new_def) (simp add: bt_empty_def terminal_entries_def)

lemmas reachable_turns_ok = turn_run_ok [OF turn_registry_new_ok, unfolded add_0]

text \<open>A finished turn is left alone.\<close>

lemma turn_step_finished:
  assumes ok: "turn_reg_ok n reg" and n: "Suc n < 2 ^ 64 - 1"
    and get: "bt_get (turns reg) tid = Some rec" and fin: "turn_finished rec"
  shows "bt_get (turns (turn_step op reg)) tid \<in> {None, Some rec}"
proof -
  have bt: "bt_ok (turns reg)" using ok by (simp add: turn_reg_ok_def)
  have complete: "bt_get (turns (fst (complete_turn t f payload reg))) tid \<in> {None, Some rec}" for t f payload
    using get fin bt
    by (auto simp: complete_turn_def ensure_turn_mutable_def turn_finished_def broadcast_def bt_get_prune
        split: option.split prod.split)
  have push: "bt_get (turns (fst (push_event t b payload reg))) tid \<in> {None, Some rec}" for t b payload
    using get fin bt
    by (auto simp: push_event_def ensure_turn_mutable_def turn_finished_def broadcast_def
        split: option.split prod.split)
  show ?thesis
  proof (cases op)
    case (IssueTurn now rnd session_id)
    then show ?thesis
      using get bt fresh_turn_id(1) [OF ok n, of rnd] by (auto simp: issue_turn_fst Let_def)
  qed (simp_all add: record_runtime_event_def complete_success_def complete_failure_def complete push
      del: insert_iff)
qed

text \<open>A removed turn does not come back.\<close>

definition turn_gone :: "string \<Rightarrow> turn_registry \<Rightarrow> bool" where
  "turn_gone tid reg \<longleftrightarrow> bt_get (turns reg) tid = None
     \<and> (\<exists>s r. tid = turn_id_of s r \<and> unat s \<le> unat (turn_nonce reg))"

lemma turn_step_nonce:
  "turn_nonce (turn_step op reg) = (case op of IssueTurn _ _ _ \<Rightarrow> turn_nonce reg + 1 | _ \<Rightarrow> turn_nonce reg)"
  by (cases op) (auto simp: issue_turn_fst Let_def record_runtime_event_def complete_success_def
      complete_failure_def complete_turn_def push_event_def broadcast_def
      split: option.split sum.split prod.split)

lemma turn_step_gone:
  assumes ok: "turn_reg_ok n reg" and n: "Suc n < 2 ^ 64 - 1" and gone: "turn_gone tid reg"
  shows "turn_gone tid (turn_step op reg)"
proof -
  have bt: "bt_ok (turns reg)" using ok by (simp add: turn_reg_ok_def)
  obtain s r where s: "tid = turn_id_of s r" "unat s \<le> unat (turn_nonce reg)"
    and get: "bt_get (turns reg) tid = None"
    using gone by (auto simp: turn_gone_def)
  have inc: "unat (turn_nonce reg + 1) = Suc (unat (turn_nonce reg))"
    by (rule fresh_turn_id(2) [OF ok n])
  have complete: "bt_get (turns (fst (complete_turn t f payload reg))) tid = None" for t f payload
    using get bt
    by (auto simp: complete_turn_def broadcast_def bt_get_prune split: option.split sum.split prod.split)
  have push: "bt_get (turns (fst (push_event t b payload reg))) tid = None" for t b payload
    using get bt by (auto simp: push_event_def broadcast_def split: option.split sum.split prod.split)
  have "bt_get (turns (turn_step op reg)) tid = None"
  proof (cases op)
    case (IssueTurn now rnd session_id)
    have "tid \<noteq> turn_id_of (turn_nonce reg + 1) rnd"
      using s inc by (auto simp: turn_id_of_inj)
    with IssueTurn get bt show ?thesis
      by (simp add: issue_turn_fst Let_def)
  qed (simp_all add: record_runtime_event_def complete_success_def complete_failure_def complete push)
  moreover have "unat s \<le> unat (turn_nonce (turn_step op reg))"
    using s(2) inc by (auto simp: turn_step_nonce split: turn_op.split)
  ultimately show ?thesis
    using s(1) by (auto simp: turn_gone_def)
qed

lemma turn_run_gone:
  "turn_reg_ok n reg \<Longrightarrow> n + length ops < 2 ^ 64 - 1 \<Longrightarrow> turn_gone tid reg \<Longrightarrow> turn_gone tid (turn_run ops reg)"
proof (induction ops arbitrary: n reg)
  case (Cons op ops)
  have "turn_reg_ok (Suc n) (turn_step op reg)" "turn_gone tid (turn_step op reg)"
    using turn_step_ok [OF Cons.prems(1)] turn_step_gone [OF Cons.prems(1) _ Cons.prems(3)] Cons.prems(2)
    by simp_all
  from Cons.IH [OF this(1) _ this(2)] Cons.prems(2) show ?case
    by (simp add: turn_run_def)
qed (simp add: turn_run_def)

lemma turn_run_finished:
  assumes "turn_reg_ok n reg" and "n + length ops < 2 ^ 64 - 1"
    and "bt_get (turns reg) tid = Some rec" and "turn_finished rec"
  shows "bt_get (turns (turn_run ops reg)) tid \<in> {None, Some rec}"
  using assms(1-3)
proof (induction ops arbitrary: n reg)
  case (Cons op ops)
  have ok: "turn_reg_ok (Suc n) (turn_step op reg)"
    using turn_step_ok [OF Cons.prems(1)] Cons.prems(2) by simp
  have step: "bt_get (turns (turn_step op reg)) tid \<in> {None, Some rec}"
    using turn_step_finished [OF Cons.prems(1) _ Cons.prems(3) assms(4), of op] Cons.prems(2) by simp
  show ?case
  proof (cases "bt_get (turns (turn_step op reg)) tid")
    case (Some r)
    then have "bt_get (turns (turn_step op reg)) tid = Some rec"
      using step by auto
    then show ?thesis
      using Cons.IH [OF ok] Cons.prems(2) by (simp add: turn_run_def)
  next
    case None
    obtain s r where "tid = turn_id_of s r" "unat s \<le> unat (turn_nonce reg)"
      using turn_reg_okD(3) [OF Cons.prems(1,3)] by blast
    moreover have "unat (turn_nonce reg) \<le> unat (turn_nonce (turn_step op reg))"
      using fresh_turn_id(2) [OF Cons.prems(1)] Cons.prems(2) by (auto simp: turn_step_nonce split: turn_op.split)
    ultimately have "turn_gone tid (turn_step op reg)"
      using None le_trans unfolding turn_gone_def by blast
    then have "turn_gone tid (turn_run ops (turn_step op reg))"
      using turn_run_gone [OF ok] Cons.prems(2) by simp
    then show ?thesis
      by (simp add: turn_run_def turn_gone_def)
  qed
qed (simp add: turn_run_def)

section \<open>Properties\<close>

text \<open>A turn with one runtime event that then fails.\<close>

definition sample_turn_ops :: "turn_op list" where
  "sample_turn_ops =
     [IssueTurn 1 7 ''s'', RuntimeEvent (turn_id_of 1 7) JNull, CompleteFailure 2 (turn_id_of 1 7) ''e'']"

lemma sample_turn_state:
  "\<exists>rec. bt_get (turns (turn_run sample_turn_ops turn_registry_new)) (turn_id_of 1 7) = Some rec
     \<and> turn_finished rec \<and> event_count (turn_snap rec) = 2"
  by (simp add: sample_turn_ops_def turn_run_def turn_registry_new_def issue_turn_fst Let_def
      record_runtime_event_def push_event_def complete_failure_def complete_turn_def
      ensure_turn_mutable_def push_event_locked_def broadcast_def fresh_turn_def turn_finished_def
      bt_empty_def bt_insert_def bt_get_def prune_terminal_turns_def terminal_entries_def
      turn_retention_limit_def)

text \<open>
  C23: readers of a turn miss nothing that is retained.  In every state of the registry (reached by fewer
  than \<open>2 ^ 64 - 1\<close> operations) the log of a turn holds the newest of its events, at most 256, under
  consecutive numbers that end in its event count; a page after any number continues from there, or
  from the oldest retained event, without a gap, and is empty only when nothing newer exists; and the
  terminal event is the last one, present exactly when the turn has ended.
\<close>

theorem turn_pages_have_no_gap:
  assumes "length ops < 2 ^ 64 - 1" and "bt_get (turns (turn_run ops turn_registry_new)) tid = Some rec"
  shows "\<exists>page. turn_events_after (turn_run ops turn_registry_new) tid after limit = Inr page
     \<and> map (\<lambda>e. unat (tev_seq e)) page =
         take (clamp 1 256 limit)
           [max (Suc (event_count (turn_snap rec)) - min (event_count (turn_snap rec)) 256) (Suc (unat after))
            ..<Suc (event_count (turn_snap rec))]
     \<and> (page = [] \<longleftrightarrow> event_count (turn_snap rec) \<le> unat after)
     \<and> map tev_terminal (turn_events rec) =
         map (\<lambda>i. turn_finished rec \<and> Suc i = length (turn_events rec)) [0..<length (turn_events rec)]"
proof -
  have ok: "turn_rec_ok tid rec"
    using turn_reg_okD(1) [OF reachable_turns_ok [OF assms(1)] assms(2)] .
  let ?n = "event_count (turn_snap rec)" and ?page = "page_after tev_seq turn_event_limit after limit (turn_events rec)"
  have log: "turn_log.log_ok ?n (turn_events rec)"
    using ok by (simp add: turn_rec_ok_def)
  then have len: "length (turn_events rec) = min ?n 256"
    unfolding turn_log.log_ok_def by (simp add: turn_event_limit_def)
  have seqs: "map (\<lambda>e. unat (tev_seq e)) ?page =
      take (clamp 1 256 limit) [max (Suc ?n - min ?n 256) (Suc (unat after))..<Suc ?n]"
    using turn_log.page_seqs [OF log, of after limit] len by (simp add: turn_event_limit_def)
  have empty: "?page = [] \<longleftrightarrow> ?n \<le> unat after"
  proof
    assume "?n \<le> unat after"
    then have "map (\<lambda>e. unat (tev_seq e)) ?page = []"
      unfolding seqs by simp
    then show "?page = []" by simp
  next
    assume "?page = []"
    then show "?n \<le> unat after"
      using turn_log.page_progress [OF log, of after limit] by (meson not_le)
  qed
  have "map tev_terminal (turn_events rec) =
      map (\<lambda>i. turn_finished rec \<and> Suc i = length (turn_events rec)) [0..<length (turn_events rec)]"
  proof (cases "turn_events rec" rule: rev_cases)
    case (snoc es e)
    then have "\<forall>x \<in> set es. \<not> tev_terminal x" "tev_terminal e = turn_finished rec"
      using ok by (auto simp: turn_rec_ok_def)
    then show ?thesis
      by (intro nth_equalityI) (auto simp: snoc nth_append less_Suc_eq)
  qed simp
  moreover have "turn_events_after (turn_run ops turn_registry_new) tid after limit = Inr ?page"
    using assms(2) by (simp add: turn_events_after_def)
  ultimately show ?thesis
    using seqs empty by blast
qed

theorem turn_pages_have_no_gap_witness:
  "\<exists>page. turn_events_after (turn_run sample_turn_ops turn_registry_new) (turn_id_of 1 7) 1 10 = Inr page
     \<and> map (\<lambda>e. unat (tev_seq e)) page = [2]"
proof -
  obtain rec where rec: "bt_get (turns (turn_run sample_turn_ops turn_registry_new)) (turn_id_of 1 7) = Some rec"
      "event_count (turn_snap rec) = 2"
    using sample_turn_state by blast
  have "length sample_turn_ops < 2 ^ 64 - 1"
    by (simp add: sample_turn_ops_def)
  from turn_pages_have_no_gap [OF this rec(1), of 1 10] rec(2) show ?thesis
    by (auto simp: clamp_def upt_conv_Cons)
qed

text \<open>
  A turn ends once.  After a turn has been completed or failed, in every state of the registry, it
  accepts no further event and no second completion, which are refused without effect; whatever
  operations follow, its record stays as it is until it is pruned, and then it never reappears.
\<close>

theorem turn_ends_once:
  assumes "length ops + length ops' < 2 ^ 64 - 1"
    and "bt_get (turns (turn_run ops turn_registry_new)) tid = Some rec" and "turn_finished rec"
  shows "bt_get (turns (turn_run ops' (turn_run ops turn_registry_new))) tid \<in> {None, Some rec}
     \<and> record_runtime_event tid payload (turn_run ops turn_registry_new) =
         (turn_run ops turn_registry_new, Inl (''control_plane_turn_already_terminal: `'' @ tid @ ''`''))
     \<and> complete_success now tid out stop usage (turn_run ops turn_registry_new) =
         (turn_run ops turn_registry_new, Inl (''control_plane_turn_already_terminal: `'' @ tid @ ''`''))
     \<and> complete_failure now tid err (turn_run ops turn_registry_new) =
         (turn_run ops turn_registry_new, Inl (''control_plane_turn_already_terminal: `'' @ tid @ ''`''))"
proof -
  have "turn_reg_ok (length ops) (turn_run ops turn_registry_new)"
    using reachable_turns_ok assms(1) by simp
  from turn_run_finished [OF this assms(1,2,3)] show ?thesis
    using assms(2,3)
    by (simp add: record_runtime_event_def push_event_def complete_success_def complete_failure_def
        complete_turn_def ensure_turn_mutable_def turn_finished_def)
qed

theorem turn_ends_once_witness:
  "\<exists>rec. bt_get (turns (turn_run sample_turn_ops turn_registry_new)) (turn_id_of 1 7) = Some rec
     \<and> bt_get (turns (turn_run sample_turn_ops (turn_run sample_turn_ops turn_registry_new))) (turn_id_of 1 7)
         \<in> {None, Some rec}"
proof -
  obtain rec where rec: "bt_get (turns (turn_run sample_turn_ops turn_registry_new)) (turn_id_of 1 7) = Some rec"
      "turn_finished rec"
    using sample_turn_state by blast
  have "length sample_turn_ops + length sample_turn_ops < 2 ^ 64 - 1"
    by (simp add: sample_turn_ops_def)
  from turn_ends_once [OF this rec] rec(1) show ?thesis by blast
qed

text \<open>
  Pruning removes the oldest results only.  A registry never retains more than 256 ended turns.
  Pruning keeps every running turn and as many ended ones as the limit allows, changes no record, and
  each turn it removes completed no later than every ended turn it keeps.
\<close>

theorem pruning_keeps_latest_turns:
  assumes "bt_ok m" and "length ops < 2 ^ 64 - 1"
  shows "length (terminal_entries (turns (turn_run ops turn_registry_new))) \<le> 256
     \<and> length (terminal_entries (prune_terminal_turns m)) = min (length (terminal_entries m)) 256
     \<and> (\<forall>tid rec. bt_get (prune_terminal_turns m) tid = Some rec \<longrightarrow> bt_get m tid = Some rec)
     \<and> (\<forall>tid rec tid' rec'. bt_get m tid = Some rec \<longrightarrow> bt_get (prune_terminal_turns m) tid = None \<longrightarrow>
          turn_finished rec
          \<and> (bt_get (prune_terminal_turns m) tid' = Some rec' \<and> turn_finished rec' \<longrightarrow>
               removal_key (tid, rec) \<le> removal_key (tid', rec')))"
proof (intro conjI allI impI)
  show "length (terminal_entries (turns (turn_run ops turn_registry_new))) \<le> 256"
    using reachable_turns_ok [OF assms(2)] by (simp add: turn_reg_ok_def turn_retention_limit_def)
  show "length (terminal_entries (prune_terminal_turns m)) = min (length (terminal_entries m)) 256"
    using length_terminal_prune [OF assms(1)] by (simp add: turn_retention_limit_def)
  fix tid rec tid' rec'
  show "bt_get (prune_terminal_turns m) tid = Some rec \<Longrightarrow> bt_get m tid = Some rec"
    by (simp add: bt_get_prune [OF assms(1)] split: if_splits)
  assume get: "bt_get m tid = Some rec" "bt_get (prune_terminal_turns m) tid = None"
  then have pruned: "tid \<in> pruned_ids m"
    by (simp add: bt_get_prune [OF assms(1)] split: if_splits)
  show fin: "turn_finished rec"
    using pruned_terminal [OF assms(1) get(1) pruned] by (simp add: turn_finished_def)
  assume kept: "bt_get (prune_terminal_turns m) tid' = Some rec' \<and> turn_finished rec'"
  then have "tid' \<notin> pruned_ids m" "bt_get m tid' = Some rec'"
    by (auto simp: bt_get_prune [OF assms(1)] split: if_splits)
  then show "removal_key (tid, rec) \<le> removal_key (tid', rec')"
    using fin kept pruned get(1)
    by (intro pruned_before_kept [OF assms(1)])
      (auto simp: terminal_entries_def turn_finished_def bt_get_mem [OF assms(1)])
qed

theorem pruning_keeps_latest_turns_witness:
  "length (terminal_entries (turns (turn_run sample_turn_ops turn_registry_new))) \<le> 256
   \<and> length (terminal_entries (prune_terminal_turns bt_empty)) = 0"
proof -
  have "length sample_turn_ops < 2 ^ 64 - 1"
    by (simp add: sample_turn_ops_def)
  from pruning_keeps_latest_turns [OF bt.ok_empty this] show ?thesis
    by (simp add: bt_empty_def terminal_entries_def)
qed

end
