(* ===== verification/Control_Events.thy ===== *)
theory Control_Events
  imports Event_Log Contracts
begin

text \<open>
  \<open>ControlPlaneManager\<close> of \<open>crates/app/src/control_plane.rs\<close>: the versions of the state lanes, the
  counts of the snapshot and the log of recent events.  Recording an event has two phases that are
  not covered by one lock, and the model keeps them apart: \<open>claim_event\<close> takes the version and the
  sequence number from the atomic counters, \<open>push_recent_event\<close> appends to the log.
\<close>

section \<open>Data\<close>

datatype state_lane = LanePresence | LaneHealth | LaneSessions | LaneApprovals | LaneAcp

datatype event_kind =
    PresenceChanged | HealthChanged | SessionChanged | SessionMessage | ApprovalRequested
  | ApprovalResolved | PairingRequested | PairingResolved | AcpSessionChanged | AcpTurnEvent

fun event_kind_as_str :: "event_kind \<Rightarrow> string" where
  "event_kind_as_str PresenceChanged = ''presence.changed''"
| "event_kind_as_str HealthChanged = ''health.changed''"
| "event_kind_as_str SessionChanged = ''session.changed''"
| "event_kind_as_str SessionMessage = ''session.message''"
| "event_kind_as_str ApprovalRequested = ''approval.requested''"
| "event_kind_as_str ApprovalResolved = ''approval.resolved''"
| "event_kind_as_str PairingRequested = ''pairing.requested''"
| "event_kind_as_str PairingResolved = ''pairing.resolved''"
| "event_kind_as_str AcpSessionChanged = ''acp.session.changed''"
| "event_kind_as_str AcpTurnEvent = ''acp.turn.event''"

record state_version =
  v_presence :: u64
  v_health :: u64
  v_sessions :: u64
  v_approvals :: u64
  v_acp :: u64

record control_event =
  cev_kind :: event_kind
  cev_name :: string
  cev_seq :: u64
  cev_version :: state_version
  cev_payload :: json
  cev_targeted :: bool

record snapshot_state =
  presence_count :: usize
  session_count :: usize
  pending_approval_count :: usize
  acp_session_count :: usize

record snapshot_summary =
  summary_version :: state_version
  summary_counts :: snapshot_state
  summary_runtime_ready :: bool

text \<open>\<open>published\<close> are the events passed to the broadcast channel.\<close>

record control_manager =
  mgr_seq :: u64
  versions :: state_version
  runtime_ready :: bool
  counts :: snapshot_state
  recent_log :: "control_event list"
  published :: "control_event list"

definition recent_event_limit :: nat where
  "recent_event_limit = 256"

definition manager_new :: control_manager where
  "manager_new =
     \<lparr>mgr_seq = 0,
      versions = \<lparr>v_presence = 0, v_health = 0, v_sessions = 0, v_approvals = 0, v_acp = 0\<rparr>,
      runtime_ready = False,
      counts = \<lparr>presence_count = 0, session_count = 0, pending_approval_count = 0, acp_session_count = 0\<rparr>,
      recent_log = [], published = []\<rparr>"

section \<open>Operations\<close>

definition manager_snapshot :: "control_manager \<Rightarrow> snapshot_summary" where
  "manager_snapshot m = \<lparr>summary_version = versions m, summary_counts = counts m,
     summary_runtime_ready = runtime_ready m\<rparr>"

fun bump_version :: "state_lane \<Rightarrow> state_version \<Rightarrow> state_version" where
  "bump_version LanePresence v = v\<lparr>v_presence := v_presence v + 1\<rparr>"
| "bump_version LaneHealth v = v\<lparr>v_health := v_health v + 1\<rparr>"
| "bump_version LaneSessions v = v\<lparr>v_sessions := v_sessions v + 1\<rparr>"
| "bump_version LaneApprovals v = v\<lparr>v_approvals := v_approvals v + 1\<rparr>"
| "bump_version LaneAcp v = v\<lparr>v_acp := v_acp v + 1\<rparr>"

definition claim_event ::
    "state_lane \<Rightarrow> event_kind \<Rightarrow> json \<Rightarrow> bool \<Rightarrow> control_manager \<Rightarrow> control_manager \<times> control_event" where
  "claim_event lane kind payload targeted m =
     (let m1 = m\<lparr>versions := bump_version lane (versions m)\<rparr>;
          seq = mgr_seq m1 + 1;
          m2 = m1\<lparr>mgr_seq := seq\<rparr> in
      (m2, \<lparr>cev_kind = kind, cev_name = event_kind_as_str kind, cev_seq = seq,
             cev_version = versions m2, cev_payload = payload, cev_targeted = targeted\<rparr>))"

definition push_recent_event :: "control_event \<Rightarrow> control_manager \<Rightarrow> control_manager" where
  "push_recent_event e m =
     m\<lparr>recent_log := push_bounded recent_event_limit (recent_log m) e, published := published m @ [e]\<rparr>"

definition record_event ::
    "state_lane \<Rightarrow> event_kind \<Rightarrow> json \<Rightarrow> bool \<Rightarrow> control_manager \<Rightarrow> control_manager \<times> control_event" where
  "record_event lane kind payload targeted m =
     (case claim_event lane kind payload targeted m of (m1, e) \<Rightarrow> (push_recent_event e m1, e))"

definition set_runtime_ready :: "bool \<Rightarrow> control_manager \<Rightarrow> control_manager" where
  "set_runtime_ready ready m = m\<lparr>runtime_ready := ready\<rparr>"

definition set_presence_count :: "usize \<Rightarrow> control_manager \<Rightarrow> control_manager" where
  "set_presence_count n m = m\<lparr>counts := (counts m)\<lparr>presence_count := n\<rparr>\<rparr>"

definition set_session_count :: "usize \<Rightarrow> control_manager \<Rightarrow> control_manager" where
  "set_session_count n m = m\<lparr>counts := (counts m)\<lparr>session_count := n\<rparr>\<rparr>"

definition set_pending_approval_count :: "usize \<Rightarrow> control_manager \<Rightarrow> control_manager" where
  "set_pending_approval_count n m = m\<lparr>counts := (counts m)\<lparr>pending_approval_count := n\<rparr>\<rparr>"

definition set_acp_session_count :: "usize \<Rightarrow> control_manager \<Rightarrow> control_manager" where
  "set_acp_session_count n m = m\<lparr>counts := (counts m)\<lparr>acp_session_count := n\<rparr>\<rparr>"

definition record_presence_changed :: "usize \<Rightarrow> json \<Rightarrow> control_manager \<Rightarrow> control_manager \<times> control_event" where
  "record_presence_changed n payload m =
     record_event LanePresence PresenceChanged payload False (set_presence_count n m)"

definition record_health_changed :: "bool \<Rightarrow> json \<Rightarrow> control_manager \<Rightarrow> control_manager \<times> control_event" where
  "record_health_changed ready payload m =
     record_event LaneHealth HealthChanged payload False (set_runtime_ready ready m)"

definition record_sessions_changed :: "usize \<Rightarrow> json \<Rightarrow> control_manager \<Rightarrow> control_manager \<times> control_event" where
  "record_sessions_changed n payload m =
     record_event LaneSessions SessionChanged payload False (set_session_count n m)"

definition record_session_message :: "json \<Rightarrow> bool \<Rightarrow> control_manager \<Rightarrow> control_manager \<times> control_event" where
  "record_session_message payload targeted m = record_event LaneSessions SessionMessage payload targeted m"

definition record_approval_requested :: "usize \<Rightarrow> json \<Rightarrow> control_manager \<Rightarrow> control_manager \<times> control_event" where
  "record_approval_requested n payload m =
     record_event LaneApprovals ApprovalRequested payload False (set_pending_approval_count n m)"

definition record_approval_resolved ::
    "usize \<Rightarrow> json \<Rightarrow> bool \<Rightarrow> control_manager \<Rightarrow> control_manager \<times> control_event" where
  "record_approval_resolved n payload targeted m =
     record_event LaneApprovals ApprovalResolved payload targeted (set_pending_approval_count n m)"

definition record_pairing_requested :: "json \<Rightarrow> control_manager \<Rightarrow> control_manager \<times> control_event" where
  "record_pairing_requested payload m = record_event LaneApprovals PairingRequested payload False m"

definition record_pairing_resolved :: "json \<Rightarrow> bool \<Rightarrow> control_manager \<Rightarrow> control_manager \<times> control_event" where
  "record_pairing_resolved payload targeted m = record_event LaneApprovals PairingResolved payload targeted m"

definition record_acp_session_changed :: "usize \<Rightarrow> json \<Rightarrow> control_manager \<Rightarrow> control_manager \<times> control_event" where
  "record_acp_session_changed n payload m =
     record_event LaneAcp AcpSessionChanged payload False (set_acp_session_count n m)"

definition record_acp_turn_event :: "json \<Rightarrow> bool \<Rightarrow> control_manager \<Rightarrow> control_manager \<times> control_event" where
  "record_acp_turn_event payload targeted m = record_event LaneAcp AcpTurnEvent payload targeted m"

definition visible_events :: "bool \<Rightarrow> control_event list \<Rightarrow> control_event list" where
  "visible_events include_targeted es = filter (\<lambda>e. include_targeted \<or> \<not> cev_targeted e) es"

definition recent_events :: "control_manager \<Rightarrow> usize \<Rightarrow> bool \<Rightarrow> control_event list" where
  "recent_events m limit include_targeted =
     (let bounded_limit = clamp 1 recent_event_limit limit;
          events = visible_events include_targeted (recent_log m);
          start = length events - bounded_limit in
      if 0 < start then drop start events else events)"

definition recent_events_after :: "control_manager \<Rightarrow> u64 \<Rightarrow> usize \<Rightarrow> bool \<Rightarrow> control_event list" where
  "recent_events_after m after limit include_targeted =
     page_after cev_seq recent_event_limit after limit (visible_events include_targeted (recent_log m))"

text \<open>
  The waiting loop.  One observation per round: the manager as the round sees it, the time, and
  whether a notification arrived before the remaining time had passed.  \<open>None\<close> means still waiting.
\<close>

definition wait_deadline :: "u64 \<Rightarrow> u64 \<Rightarrow> nat" where
  "wait_deadline start timeout_ms = unat start + unat (clamp 1 30000 timeout_ms)"

fun wait_for_recent_events ::
    "nat \<Rightarrow> u64 \<Rightarrow> usize \<Rightarrow> bool \<Rightarrow> (control_manager \<times> nat \<times> bool) list \<Rightarrow> control_event list option" where
  "wait_for_recent_events deadline after limit include_targeted [] = None"
| "wait_for_recent_events deadline after limit include_targeted ((m, now, notified) # rounds) =
     (let events = recent_events_after m after limit include_targeted in
      if events \<noteq> [] then Some events
      else if deadline \<le> now then Some []
      else if \<not> notified then Some []
      else wait_for_recent_events deadline after limit include_targeted rounds)"

section \<open>Runs\<close>

datatype manager_op =
    SetRuntimeReady bool
  | SetPresenceCount usize
  | SetSessionCount usize
  | SetPendingApprovalCount usize
  | SetAcpSessionCount usize
  | RecordPresenceChanged usize json
  | RecordHealthChanged bool json
  | RecordSessionsChanged usize json
  | RecordSessionMessage json bool
  | RecordApprovalRequested usize json
  | RecordApprovalResolved usize json bool
  | RecordPairingRequested json
  | RecordPairingResolved json bool
  | RecordAcpSessionChanged usize json
  | RecordAcpTurnEvent json bool

fun manager_step :: "manager_op \<Rightarrow> control_manager \<Rightarrow> control_manager" where
  "manager_step (SetRuntimeReady b) m = set_runtime_ready b m"
| "manager_step (SetPresenceCount n) m = set_presence_count n m"
| "manager_step (SetSessionCount n) m = set_session_count n m"
| "manager_step (SetPendingApprovalCount n) m = set_pending_approval_count n m"
| "manager_step (SetAcpSessionCount n) m = set_acp_session_count n m"
| "manager_step (RecordPresenceChanged n p) m = fst (record_presence_changed n p m)"
| "manager_step (RecordHealthChanged b p) m = fst (record_health_changed b p m)"
| "manager_step (RecordSessionsChanged n p) m = fst (record_sessions_changed n p m)"
| "manager_step (RecordSessionMessage p t) m = fst (record_session_message p t m)"
| "manager_step (RecordApprovalRequested n p) m = fst (record_approval_requested n p m)"
| "manager_step (RecordApprovalResolved n p t) m = fst (record_approval_resolved n p t m)"
| "manager_step (RecordPairingRequested p) m = fst (record_pairing_requested p m)"
| "manager_step (RecordPairingResolved p t) m = fst (record_pairing_resolved p t m)"
| "manager_step (RecordAcpSessionChanged n p) m = fst (record_acp_session_changed n p m)"
| "manager_step (RecordAcpTurnEvent p t) m = fst (record_acp_turn_event p t m)"

definition manager_run :: "manager_op list \<Rightarrow> control_manager \<Rightarrow> control_manager" where
  "manager_run ops m = fold manager_step ops m"

lemmas manager_op_defs =
  record_presence_changed_def record_health_changed_def record_sessions_changed_def
  record_session_message_def record_approval_requested_def record_approval_resolved_def
  record_pairing_requested_def record_pairing_resolved_def record_acp_session_changed_def
  record_acp_turn_event_def set_runtime_ready_def set_presence_count_def set_session_count_def
  set_pending_approval_count_def set_acp_session_count_def

section \<open>The history of a manager\<close>

fun lane_of :: "event_kind \<Rightarrow> state_lane" where
  "lane_of PresenceChanged = LanePresence"
| "lane_of HealthChanged = LaneHealth"
| "lane_of SessionChanged = LaneSessions"
| "lane_of SessionMessage = LaneSessions"
| "lane_of AcpSessionChanged = LaneAcp"
| "lane_of AcpTurnEvent = LaneAcp"
| "lane_of _ = LaneApprovals"

definition lane_count :: "state_lane \<Rightarrow> control_event list \<Rightarrow> u64" where
  "lane_count lane es = of_nat (length (filter (\<lambda>e. lane_of (cev_kind e) = lane) es))"

definition lane_versions :: "control_event list \<Rightarrow> state_version" where
  "lane_versions es =
     \<lparr>v_presence = lane_count LanePresence es, v_health = lane_count LaneHealth es,
      v_sessions = lane_count LaneSessions es, v_approvals = lane_count LaneApprovals es,
      v_acp = lane_count LaneAcp es\<rparr>"

definition history_ok :: "control_event list \<Rightarrow> bool" where
  "history_ok es \<longleftrightarrow>
     map cev_seq es = map (\<lambda>i. of_nat (Suc i)) [0..<length es]
     \<and> map cev_version es = map (\<lambda>i. lane_versions (take (Suc i) es)) [0..<length es]
     \<and> map cev_name es = map (event_kind_as_str \<circ> cev_kind) es"

definition manager_ok :: "control_manager \<Rightarrow> bool" where
  "manager_ok m \<longleftrightarrow>
     history_ok (published m)
     \<and> mgr_seq m = of_nat (length (published m))
     \<and> versions m = lane_versions (published m)
     \<and> recent_log m = drop (length (published m) - recent_event_limit) (published m)"

lemma lane_versions_snoc:
  "lane_versions (es @ [e]) = bump_version (lane_of (cev_kind e)) (lane_versions es)"
  by (cases "lane_of (cev_kind e)") (simp_all add: lane_versions_def lane_count_def)

lemma history_ok_snoc:
  "history_ok es \<Longrightarrow> cev_seq e = of_nat (Suc (length es)) \<Longrightarrow> cev_version e = lane_versions (es @ [e])
     \<Longrightarrow> cev_name e = event_kind_as_str (cev_kind e) \<Longrightarrow> history_ok (es @ [e])"
  by (simp add: history_ok_def)

lemma drop_push_bounded:
  assumes "0 < limit"
  shows "push_bounded limit (drop (length es - limit) es) e = drop (Suc (length es) - limit) (es @ [e])"
proof -
  have "Suc (length (drop (length es - limit) es)) - limit + (length es - limit) = Suc (length es) - limit"
    and "length es - limit \<le> Suc (length es) - limit"
    using assms by auto
  then have "drop (Suc (length (drop (length es - limit) es)) - limit) (drop (length es - limit) (es @ [e])) =
      drop (Suc (length es) - limit) (es @ [e])"
    by (simp only: drop_drop)
  then show ?thesis
    by (simp add: push_bounded_drop)
qed

lemma published_record_event [simp]:
  "published (fst (record_event lane kind payload targeted m)) =
     published m @ [snd (record_event lane kind payload targeted m)]"
  by (simp add: record_event_def claim_event_def push_recent_event_def Let_def)

lemma record_event_ok:
  assumes "manager_ok m" and "lane_of kind = lane"
  shows "manager_ok (fst (record_event lane kind payload targeted m))"
proof -
  let ?e = "snd (claim_event lane kind payload targeted m)"
  have m': "fst (record_event lane kind payload targeted m) =
      m\<lparr>versions := bump_version lane (versions m), mgr_seq := mgr_seq m + 1,
        recent_log := push_bounded recent_event_limit (recent_log m) ?e, published := published m @ [?e]\<rparr>"
    by (simp add: record_event_def claim_event_def push_recent_event_def Let_def)
  have e: "cev_seq ?e = mgr_seq m + 1" "cev_version ?e = bump_version lane (versions m)" "cev_kind ?e = kind"
    "cev_name ?e = event_kind_as_str kind"
    by (simp_all add: claim_event_def Let_def)
  have "history_ok (published m @ [?e])"
    using assms e by (intro history_ok_snoc) (simp_all add: manager_ok_def lane_versions_snoc)
  then show ?thesis
    using assms e unfolding m' manager_ok_def
    by (simp add: lane_versions_snoc drop_push_bounded recent_event_limit_def)
qed

lemma manager_ok_fields:
  "manager_ok (m\<lparr>counts := c\<rparr>) = manager_ok m" "manager_ok (m\<lparr>runtime_ready := r\<rparr>) = manager_ok m"
  by (simp_all add: manager_ok_def)

lemma manager_step_ok:
  "manager_ok m \<Longrightarrow> manager_ok (manager_step op m) \<and> (\<exists>es. published (manager_step op m) = published m @ es)"
  by (cases op) (simp_all add: manager_op_defs manager_ok_fields record_event_ok)

lemma manager_run_ok:
  "manager_ok m \<Longrightarrow> manager_ok (manager_run ops m) \<and> (\<exists>es. published (manager_run ops m) = published m @ es)"
proof (induction ops arbitrary: m)
  case (Cons op ops)
  from manager_step_ok [OF Cons.prems, of op] Cons.IH [of "manager_step op m"] show ?case
    by (auto simp: manager_run_def)
qed (simp add: manager_run_def)

lemma manager_new_ok: "manager_ok manager_new"
  by (simp add: manager_ok_def manager_new_def history_ok_def lane_versions_def lane_count_def)

section \<open>Cursors\<close>

lemma history_seq_nth:
  assumes "history_ok es" and "length es < 2 ^ 64" and "i < length es"
  shows "unat (cev_seq (es ! i)) = Suc i"
proof -
  have "map cev_seq es ! i = of_nat (Suc i)"
    using assms by (simp add: history_ok_def)
  then have "cev_seq (es ! i) = of_nat (Suc i)"
    using assms(3) by simp
  moreover have "Suc i < 2 ^ 64"
    using assms(2,3) by simp
  ultimately show ?thesis
    by (simp add: unat_of_nat del: of_nat_Suc)
qed

lemma filter_seq_le:
  assumes "history_ok es" and "length es < 2 ^ 64"
  shows "filter (\<lambda>e. cev_seq e \<le> after) es = take (unat after) es"
proof -
  have "\<forall>e \<in> set (take (unat after) es). cev_seq e \<le> after" "\<forall>e \<in> set (drop (unat after) es). \<not> cev_seq e \<le> after"
    using history_seq_nth [OF assms] by (auto simp: in_set_conv_nth word_le_nat_alt)
  then have "filter (\<lambda>e. cev_seq e \<le> after) (take (unat after) es) = take (unat after) es"
    "filter (\<lambda>e. cev_seq e \<le> after) (drop (unat after) es) = []"
    by (simp_all add: filter_id_conv filter_empty_conv)
  then show ?thesis
    by (metis append.right_neutral append_take_drop_id filter_append)
qed

lemma filter_seq_above:
  assumes "history_ok es" and "length es < 2 ^ 64" and "d \<le> unat after"
  shows "filter (\<lambda>e. after < cev_seq e) (drop d es) = drop (unat after) es"
proof -
  let ?mid = "take (unat after - d) (drop d es)"
  have split: "drop d es = ?mid @ drop (unat after) es"
    using assms(3) by (metis append_take_drop_id drop_drop le_add_diff_inverse2)
  have "\<forall>e \<in> set ?mid. \<not> after < cev_seq e" "\<forall>e \<in> set (drop (unat after) es). after < cev_seq e"
    using history_seq_nth [OF assms(1,2)] assms(3) by (auto simp: in_set_conv_nth word_less_nat_alt)
  then show ?thesis
    by (subst split) (simp add: filter_id_conv filter_empty_conv)
qed

lemma history_distinct:
  assumes "history_ok es" and "length es < 2 ^ 64"
  shows "distinct es"
proof -
  have "i = j" if "i < length es" "j < length es" "es ! i = es ! j" for i j
    using trans [OF sym [OF history_seq_nth [OF assms that(1), unfolded that(3)]] history_seq_nth [OF assms that(2)]]
    by (rule Suc_inject)
  then show ?thesis
    unfolding distinct_conv_nth by blast
qed

lemma prefix_same_last:
  assumes "distinct ys" and "prefix p ys" and "prefix q ys" and "p \<noteq> []" and "q \<noteq> []" and "last p = last q"
  shows "p = q"
proof -
  have at: "last r = ys ! (length r - 1)" if "prefix r ys" "r \<noteq> []" for r
    using that by (auto simp: prefix_def nth_append last_conv_nth)
  have "ys ! (length p - 1) = ys ! (length q - 1)"
    using at [of p] at [of q] assms by simp
  moreover have "length p - 1 < length ys" "length q - 1 < length ys"
    using assms prefix_length_le [of p ys] prefix_length_le [of q ys] by (cases p; cases q; force)+
  ultimately have "length p = length q"
    using assms by (metis Suc_pred' length_greater_0_conv nth_eq_iff_index_eq)
  with assms(2,3) show ?thesis
    by (metis append_eq_append_conv prefixE)
qed

lemma filter_take_page:
  assumes "distinct xs" and page: "page = take k (filter P xs)" "page \<noteq> []"
    and j: "j < length xs" "last page = xs ! j"
  shows "filter P (take (Suc j) xs) = page"
proof (rule prefix_same_last [of "filter P xs"])
  have "last page \<in> set (filter P xs)"
    using page by (metis in_set_takeD last_in_set)
  then have "P (xs ! j)"
    using j(2) by simp
  then have q: "filter P (take (Suc j) xs) = filter P (take j xs) @ [xs ! j]"
    using j(1) by (simp add: take_Suc_conv_app_nth)
  then show "filter P (take (Suc j) xs) \<noteq> []" "last (filter P (take (Suc j) xs)) = last page"
    using j(2) by simp_all
  show "prefix (filter P (take (Suc j) xs)) (filter P xs)"
    by (metis append_take_drop_id filter_append prefixI)
qed (use assms in \<open>simp_all add: take_is_prefix\<close>)

lemma recent_events_after_page:
  assumes "manager_ok m" and "length (published m) < 2 ^ 64" and "length (published m) \<le> unat after + 256"
  shows "recent_events_after m after limit b =
    take (clamp 1 256 limit) (visible_events b (drop (unat after) (published m)))"
proof -
  have "filter (\<lambda>e. after < cev_seq e) (visible_events b (recent_log m)) =
      visible_events b (filter (\<lambda>e. after < cev_seq e) (recent_log m))"
    by (simp add: visible_events_def conj_commute)
  also have "\<dots> = visible_events b (drop (unat after) (published m))"
    using assms filter_seq_above [of "published m" "length (published m) - recent_event_limit" after]
    by (simp add: manager_ok_def recent_event_limit_def)
  finally show ?thesis
    by (simp add: recent_events_after_def page_after_def recent_event_limit_def)
qed

section \<open>Properties\<close>

text \<open>
  The manager's counters are the history.  In every state of a manager, the events it ever published
  are numbered one after the other from one; each carries the name of its kind and the versions of
  the lanes at that moment, which count the events of each lane up to and including it; the current
  versions and sequence number are those of the whole history, and the log is its newest part.
\<close>

theorem control_log_is_history:
  "map cev_seq (published (manager_run ops manager_new)) =
     map (\<lambda>i. of_nat (Suc i)) [0..<length (published (manager_run ops manager_new))]
   \<and> map cev_version (published (manager_run ops manager_new)) =
     map (\<lambda>i. lane_versions (take (Suc i) (published (manager_run ops manager_new))))
       [0..<length (published (manager_run ops manager_new))]
   \<and> map cev_name (published (manager_run ops manager_new)) =
     map (event_kind_as_str \<circ> cev_kind) (published (manager_run ops manager_new))
   \<and> summary_version (manager_snapshot (manager_run ops manager_new)) =
     lane_versions (published (manager_run ops manager_new))
   \<and> recent_log (manager_run ops manager_new) =
     drop (length (published (manager_run ops manager_new)) - 256) (published (manager_run ops manager_new))"
  using manager_run_ok [OF manager_new_ok, of ops]
  by (simp add: manager_ok_def history_ok_def manager_snapshot_def recent_event_limit_def)

text \<open>
  C24: a poller that keeps up receives every event once, as long as recordings do not overlap.  Take a
  manager after any sequence of operations, each recording run to its end before the next starts.  A
  client that has received the visible events up to its cursor, and whose cursor is at most 256
  events behind, polls and moves its cursor to the last event of the page.  It then has received
  exactly the visible events up to the new cursor; a page below the limit means that it has caught
  up; and what is recorded later does not change this.
\<close>

theorem poller_receives_each_event_once:
  assumes "manager_run ops manager_new = m" and "length (published m) < 2 ^ 64"
    and "unat after \<le> length (published m)" and "length (published m) \<le> unat after + 256"
    and "received = visible_events b (filter (\<lambda>e. cev_seq e \<le> after) (published m))"
    and "recent_events_after m after limit b = page"
    and "after' = (if page = [] then after else cev_seq (last page))"
  shows "received @ page = visible_events b (filter (\<lambda>e. cev_seq e \<le> after') (published m))
     \<and> (length page < clamp 1 256 limit \<longrightarrow> received @ page = visible_events b (published m))
     \<and> unat after' \<le> length (published m)
     \<and> (length (published (manager_run ops' m)) < 2 ^ 64 \<longrightarrow>
          visible_events b (filter (\<lambda>e. cev_seq e \<le> after') (published (manager_run ops' m))) = received @ page)"
proof -
  let ?es = "published m"
  have ok: "manager_ok m"
    using manager_run_ok [OF manager_new_ok, of ops] assms(1) by simp
  then have hist: "history_ok ?es" by (simp add: manager_ok_def)
  have rec: "received = visible_events b (take (unat after) ?es)"
    using assms(5) filter_seq_le [OF hist assms(2)] by simp
  have page: "page = take (clamp 1 256 limit) (visible_events b (drop (unat after) ?es))"
    using assms(6) recent_events_after_page [OF ok assms(2,4)] by simp
  have new: "received @ page = visible_events b (take (unat after') ?es) \<and> unat after' \<le> length ?es"
  proof (cases "page = []")
    case False
    then have "last page \<in> set (drop (unat after) ?es)"
      using page by (metis filter_is_subset in_set_takeD last_in_set subsetD visible_events_def)
    then obtain j where j: "j < length (drop (unat after) ?es)" "last page = drop (unat after) ?es ! j"
      by (metis in_set_conv_nth)
    then have seq: "unat after' = unat after + Suc j"
      using False history_seq_nth [OF hist assms(2), of "unat after + j"] assms(7) by simp
    have "visible_events b (take (Suc j) (drop (unat after) ?es)) = page"
      using filter_take_page [OF distinct_drop [OF history_distinct [OF hist assms(2)]], of page
          "clamp 1 256 limit" _ "unat after" j] page False j unfolding visible_events_def by blast
    moreover have "take (unat after') ?es = take (unat after) ?es @ take (Suc j) (drop (unat after) ?es)"
      unfolding seq by (rule take_add)
    ultimately have "received @ page = visible_events b (take (unat after') ?es)"
      by (simp add: rec visible_events_def)
    then show ?thesis
      using j(1) seq by simp
  qed (simp add: rec assms(3,7))
  have "received @ page = visible_events b ?es" if "length page < clamp 1 256 limit"
  proof -
    have "page = visible_events b (drop (unat after) ?es)"
      using that unfolding page by simp
    then show ?thesis
      unfolding rec visible_events_def by (simp add: filter_append [symmetric])
  qed
  moreover have "visible_events b (filter (\<lambda>e. cev_seq e \<le> after') (published (manager_run ops' m))) = received @ page"
    if "length (published (manager_run ops' m)) < 2 ^ 64"
  proof -
    obtain later where later: "manager_ok (manager_run ops' m)" "published (manager_run ops' m) = ?es @ later"
      using manager_run_ok [OF ok, of ops'] by blast
    then show ?thesis
      using filter_seq_le [OF _ that, of after'] new by (simp add: manager_ok_def)
  qed
  ultimately show ?thesis
    using new filter_seq_le [OF hist assms(2), of after'] by simp
qed

definition sample_manager_ops :: "manager_op list" where
  "sample_manager_ops = [RecordPairingRequested JNull, RecordSessionMessage JNull True]"

theorem poller_receives_each_event_once_witness:
  "recent_events_after (manager_run sample_manager_ops manager_new) 0 10 False =
     visible_events False (published (manager_run sample_manager_ops manager_new))"
proof -
  have len: "length (published (manager_run sample_manager_ops manager_new)) = 2"
    by code_simp
  have page: "length (recent_events_after (manager_run sample_manager_ops manager_new) 0 10 False) < clamp 1 256 10"
    by code_simp
  have none: "visible_events False (filter (\<lambda>e. cev_seq e \<le> 0) (published (manager_run sample_manager_ops manager_new))) = []"
    by code_simp
  show ?thesis
    using poller_receives_each_event_once [OF refl _ _ _ refl refl refl, of sample_manager_ops 0 False 10 "[]"]
      len page none by simp
qed

text \<open>
  A wait that ends without events has seen none, and it ends at the latest with the first round that
  starts at the deadline.
\<close>

lemma wait_result:
  assumes "wait_for_recent_events deadline after limit b rounds = Some events" and "events \<noteq> []"
  shows "\<exists>r \<in> set rounds. events = recent_events_after (fst r) after limit b"
  using assms(1)
proof (induction rounds)
  case (Cons r rounds)
  obtain m now notified where r: "r = (m, now, notified)" by (cases r)
  show ?case
  proof (cases "recent_events_after m after limit b = []")
    case True
    with Cons assms(2) show ?thesis
      by (simp add: r Let_def split: if_splits)
  next
    case False
    with Cons.prems show ?thesis
      by (simp add: r Let_def)
  qed
qed simp

lemma wait_ends_at_deadline:
  "(m, now, notified) \<in> set rounds \<Longrightarrow> deadline \<le> now \<Longrightarrow>
     wait_for_recent_events deadline after limit b rounds \<noteq> None"
  by (induction rounds) (auto simp: Let_def)

text \<open>
  C36: concurrent recording loses events for pollers.  In any state of a manager with room for two more
  numbers, let two recordings overlap so that the one with the later number reaches the log first, and
  let a client poll in between from the current end.  It receives the later event and moves its cursor
  past the earlier one; the earlier event then enters the log, but no poll from that cursor returns
  it.
\<close>

theorem overlapping_records_lose_event:
  assumes "manager_run ops manager_new = m" and "length (published m) + 2 < 2 ^ 64"
    and "claim_event lane1 kind1 payload1 targeted1 m = (m1, first)"
    and "claim_event lane2 kind2 payload2 targeted2 m1 = (m2, second)"
  shows "recent_events_after (push_recent_event second m2) (mgr_seq m) limit True = [second]
     \<and> first \<in> set (recent_log (push_recent_event first (push_recent_event second m2)))
     \<and> cev_seq first < cev_seq second
     \<and> recent_events_after (push_recent_event first (push_recent_event second m2)) (cev_seq second) limit True = []"
proof -
  have ok: "manager_ok m"
    using manager_run_ok [OF manager_new_ok, of ops] assms(1) by simp
  let ?n = "length (published m)"
  have n: "unat (mgr_seq m) = ?n" "unat (mgr_seq m + 1) = Suc ?n" "unat (mgr_seq m + 1 + 1) = Suc (Suc ?n)"
  proof -
    show 1: "unat (mgr_seq m) = ?n"
      using ok assms(2) by (simp add: manager_ok_def unat_of_nat)
    have inc: "unat (w + 1) = Suc (unat w)" if "unat w < 2 ^ 64 - 1" for w :: u64
    proof (rule unat_inc_u64)
      show "w \<noteq> - 1" using that unat_minus_one_u64 by auto
    qed
    show 2: "unat (mgr_seq m + 1) = Suc ?n"
      using inc [of "mgr_seq m"] 1 assms(2) by simp
    show "unat (mgr_seq m + 1 + 1) = Suc (Suc ?n)"
      using inc [of "mgr_seq m + 1"] 2 assms(2) by (simp del: add_left_cancel)
  qed
  have seqs: "cev_seq first = mgr_seq m + 1" "cev_seq second = mgr_seq m + 1 + 1"
    and m2: "recent_log m2 = recent_log m"
    using assms(3,4) by (auto simp: claim_event_def Let_def)
  have old: "\<forall>e \<in> set (recent_log m). unat (cev_seq e) \<le> ?n"
  proof
    fix e
    assume "e \<in> set (recent_log m)"
    then have "e \<in> set (published m)"
      using ok by (auto simp: manager_ok_def dest: in_set_dropD)
    then obtain i where "i < ?n" "e = published m ! i"
      by (metis in_set_conv_nth)
    then show "unat (cev_seq e) \<le> ?n"
      using history_seq_nth [of "published m" i] ok assms(2) by (simp add: manager_ok_def)
  qed
  have lim: "0 < clamp 1 recent_event_limit limit"
    using clamp_bounds [of 1 recent_event_limit limit] by (simp add: recent_event_limit_def)
  have vis: "visible_events True es = es" for es
    by (simp add: visible_events_def)
  define xs where "xs = drop (Suc (length (recent_log m)) - recent_event_limit) (recent_log m)"
  have log3: "recent_log (push_recent_event second m2) = xs @ [second]" "length xs < recent_event_limit"
    by (auto simp: push_recent_event_def push_bounded_drop m2 xs_def recent_event_limit_def)
  define ys where "ys = drop (Suc (length (xs @ [second])) - recent_event_limit) (xs @ [second])"
  have log4: "recent_log (push_recent_event first (push_recent_event second m2)) = ys @ [first]"
    using log3 by (auto simp: push_recent_event_def push_bounded_drop m2 ys_def recent_event_limit_def)
  have xs: "\<forall>e \<in> set xs. unat (cev_seq e) \<le> ?n"
    using old by (auto simp: xs_def dest: in_set_dropD)
  then have ys: "\<forall>e \<in> set ys. unat (cev_seq e) \<le> Suc (Suc ?n)"
    using seqs n by (auto simp: ys_def dest!: in_set_dropD)
  have "filter (\<lambda>e. mgr_seq m < cev_seq e) (xs @ [second]) = [second]"
    using xs n seqs by (auto simp: word_less_nat_alt filter_empty_conv)
  then have "recent_events_after (push_recent_event second m2) (mgr_seq m) limit True = [second]"
    using lim by (simp add: recent_events_after_def page_after_def vis log3(1))
  moreover have "filter (\<lambda>e. cev_seq second < cev_seq e) (ys @ [first]) = []"
    using ys n seqs by (auto simp: word_less_nat_alt filter_empty_conv)
  then have "recent_events_after (push_recent_event first (push_recent_event second m2)) (cev_seq second) limit True = []"
    by (simp add: recent_events_after_def page_after_def vis log4)
  ultimately show ?thesis
    using n seqs log4 by (simp add: word_less_nat_alt)
qed

theorem overlapping_records_lose_event_witness:
  "\<exists>m1 m2 first second. claim_event LaneAcp AcpTurnEvent JNull False manager_new = (m1, first)
     \<and> claim_event LaneAcp AcpTurnEvent JNull False m1 = (m2, second)
     \<and> recent_events_after (push_recent_event first (push_recent_event second m2)) (cev_seq second) 9 True = []
     \<and> first \<in> set (recent_log (push_recent_event first (push_recent_event second m2)))"
proof -
  obtain m1 m2 first second where c: "claim_event LaneAcp AcpTurnEvent JNull False manager_new = (m1, first)"
      "claim_event LaneAcp AcpTurnEvent JNull False m1 = (m2, second)"
    by fastforce
  have run: "manager_run [] manager_new = manager_new" "length (published manager_new) + 2 < 2 ^ 64"
    by (simp_all add: manager_run_def manager_new_def)
  from overlapping_records_lose_event [OF run c, of 9] c show ?thesis by blast
qed

end
