(* ===== verification/Control_Leases.thy ===== *)
theory Control_Leases
  imports Contracts Btree_Map
begin

text \<open>
  \<open>ControlPlaneConnectionRegistry\<close> and \<open>ControlPlaneChallengeRegistry\<close> of
  \<open>crates/app/src/control_plane.rs\<close>: connection tokens that expire and can be revoked, and challenge
  nonces that can be consumed once.  The clock and the random component are arguments.  The locale
  \<open>lease_table\<close> states what the two tables have in common: which operations end an entry, and that
  no other operation touches it.
\<close>

section \<open>Connections\<close>

record connection_principal =
  connection_id :: string
  client_id :: string
  principal_role :: string
  scopes :: "string set"
  device_id :: "string option"

record connection_lease =
  lease_token :: string
  lease_principal :: connection_principal
  lease_issued_at_ms :: u64
  lease_expires_at_ms :: u64

record connection_record =
  conn_principal :: connection_principal
  conn_issued_at_ms :: u64
  conn_expires_at_ms :: u64

record connection_registry =
  conn_nonce :: u64
  connections :: "(string, connection_record) btree_map"

definition connection_registry_new :: connection_registry where
  "connection_registry_new = \<lparr>conn_nonce = 0, connections = bt_empty\<rparr>"

definition connection_ttl_ms :: u64 where
  "connection_ttl_ms = 15 * 60 * 1000"

definition connection_token_of :: "u64 \<Rightarrow> u64 \<Rightarrow> string" where
  "connection_token_of sequence rnd = ''cpt-'' @ hex16 sequence @ ''-'' @ hex16 rnd"

definition connection_issue_with_ttl ::
    "u64 \<Rightarrow> u64 \<Rightarrow> connection_principal \<Rightarrow> u64 \<Rightarrow> connection_registry \<Rightarrow> connection_registry \<times> connection_lease" where
  "connection_issue_with_ttl now rnd who ttl reg =
     (let expires = sat_add_u64 now (max ttl 1);
          sequence = conn_nonce reg + 1;
          token = connection_token_of sequence rnd;
          rec = \<lparr>conn_principal = who, conn_issued_at_ms = now, conn_expires_at_ms = expires\<rparr> in
      (reg\<lparr>conn_nonce := sequence, connections := bt_insert token rec (connections reg)\<rparr>,
       \<lparr>lease_token = token, lease_principal = who, lease_issued_at_ms = now,
        lease_expires_at_ms = expires\<rparr>))"

definition connection_issue ::
    "u64 \<Rightarrow> u64 \<Rightarrow> connection_principal \<Rightarrow> connection_registry \<Rightarrow> connection_registry \<times> connection_lease" where
  "connection_issue now rnd who reg = connection_issue_with_ttl now rnd who connection_ttl_ms reg"

definition lease_of :: "string \<Rightarrow> connection_record \<Rightarrow> connection_lease" where
  "lease_of token rec =
     \<lparr>lease_token = token, lease_principal = conn_principal rec,
      lease_issued_at_ms = conn_issued_at_ms rec, lease_expires_at_ms = conn_expires_at_ms rec\<rparr>"

definition connection_resolve ::
    "u64 \<Rightarrow> string \<Rightarrow> connection_registry \<Rightarrow> connection_registry \<times> connection_lease option" where
  "connection_resolve now raw reg =
     (let token = trim raw in
      if token = [] then (reg, None)
      else
        let kept = bt_retain (\<lambda>_ rec. now < conn_expires_at_ms rec) (connections reg) in
        (reg\<lparr>connections := kept\<rparr>, map_option (lease_of token) (bt_get kept token)))"

definition connection_revoke :: "string \<Rightarrow> connection_registry \<Rightarrow> connection_registry \<times> bool" where
  "connection_revoke raw reg =
     (let token = trim raw in
      if token = [] then (reg, False)
      else (reg\<lparr>connections := bt_remove token (connections reg)\<rparr>, bt_get (connections reg) token \<noteq> None))"

section \<open>Challenges\<close>

record challenge =
  challenge_nonce :: string
  challenge_issued_at_ms :: u64
  challenge_expires_at_ms :: u64

record challenge_registry =
  chal_nonce :: u64
  challenges :: "(string, challenge) btree_map"

definition challenge_registry_new :: challenge_registry where
  "challenge_registry_new = \<lparr>chal_nonce = 0, challenges = bt_empty\<rparr>"

definition challenge_ttl_ms :: u64 where
  "challenge_ttl_ms = 60 * 1000"

definition challenge_nonce_of :: "u64 \<Rightarrow> u64 \<Rightarrow> string" where
  "challenge_nonce_of sequence rnd = ''cpc-'' @ hex16 sequence @ ''-'' @ hex16 rnd"

definition challenge_issue_with_ttl ::
    "u64 \<Rightarrow> u64 \<Rightarrow> u64 \<Rightarrow> challenge_registry \<Rightarrow> challenge_registry \<times> challenge" where
  "challenge_issue_with_ttl now rnd ttl reg =
     (let expires = sat_add_u64 now (max ttl 1);
          sequence = chal_nonce reg + 1;
          c = \<lparr>challenge_nonce = challenge_nonce_of sequence rnd, challenge_issued_at_ms = now,
               challenge_expires_at_ms = expires\<rparr> in
      (reg\<lparr>chal_nonce := sequence, challenges := bt_insert (challenge_nonce c) c (challenges reg)\<rparr>, c))"

definition challenge_issue :: "u64 \<Rightarrow> u64 \<Rightarrow> challenge_registry \<Rightarrow> challenge_registry \<times> challenge" where
  "challenge_issue now rnd reg = challenge_issue_with_ttl now rnd challenge_ttl_ms reg"

definition challenge_consume ::
    "u64 \<Rightarrow> string \<Rightarrow> challenge_registry \<Rightarrow> challenge_registry \<times> challenge option" where
  "challenge_consume now raw reg =
     (let nonce = trim raw in
      if nonce = [] then (reg, None)
      else
        let kept = bt_retain (\<lambda>_ c. now < challenge_expires_at_ms c) (challenges reg) in
        (reg\<lparr>challenges := bt_remove nonce kept\<rparr>, bt_get kept nonce))"

section \<open>Tables of leases\<close>

text \<open>
  The contract of a table: \<open>issued s k\<close> says that \<open>k\<close> was handed out at some time, and \<open>ends op k v\<close>
  that the operation \<open>op\<close> removes the entry \<open>v\<close> of \<open>k\<close>.
\<close>

locale lease_table =
  fixes step :: "'op \<Rightarrow> 's \<Rightarrow> 's"
    and lookup :: "'s \<Rightarrow> string \<Rightarrow> 'v option"
    and issued :: "'s \<Rightarrow> string \<Rightarrow> bool"
    and ends :: "'op \<Rightarrow> string \<Rightarrow> 'v \<Rightarrow> bool"
    and inv :: "nat \<Rightarrow> 's \<Rightarrow> bool"
  assumes inv_step: "inv n s \<Longrightarrow> Suc n < 2 ^ 64 \<Longrightarrow> inv (Suc n) (step op s)"
    and issued_step: "inv n s \<Longrightarrow> Suc n < 2 ^ 64 \<Longrightarrow> issued s k \<Longrightarrow> issued (step op s) k"
    and lookup_step: "inv n s \<Longrightarrow> Suc n < 2 ^ 64 \<Longrightarrow> issued s k \<Longrightarrow> lookup (step op s) k =
      (case lookup s k of None \<Rightarrow> None | Some v \<Rightarrow> if ends op k v then None else Some v)"
begin

text \<open>An entry lives until the first operation that ends it, and never comes back.\<close>

lemma inv_run: "inv n s \<Longrightarrow> n + length ops < 2 ^ 64 \<Longrightarrow> inv (n + length ops) (fold step ops s)"
proof (induction ops arbitrary: n s)
  case (Cons op ops)
  from Cons.IH [OF inv_step [OF Cons.prems(1), of op]] Cons.prems(2) show ?case by simp
qed simp

lemma issued_run: "inv n s \<Longrightarrow> n + length ops < 2 ^ 64 \<Longrightarrow> issued s k \<Longrightarrow> issued (fold step ops s) k"
proof (induction ops arbitrary: n s)
  case (Cons op ops)
  from Cons.IH [OF inv_step [OF Cons.prems(1), of op] _ issued_step [OF Cons.prems(1) _ Cons.prems(3), of op]]
    Cons.prems(2) show ?case by simp
qed simp

lemma lookup_run:
  assumes "inv n s" and "n + length ops < 2 ^ 64" and "issued s k"
  shows "lookup (fold step ops s) k =
    (case lookup s k of None \<Rightarrow> None | Some v \<Rightarrow> if \<exists>op \<in> set ops. ends op k v then None else Some v)"
  using assms
proof (induction ops arbitrary: n s)
  case (Cons op ops)
  have n: "Suc n < 2 ^ 64" "Suc n + length ops < 2 ^ 64"
    using Cons.prems(2) by simp_all
  show ?case
    using Cons.IH [OF inv_step [OF Cons.prems(1) n(1), of op] n(2)
        issued_step [OF Cons.prems(1) n(1) Cons.prems(3), of op]]
      lookup_step [OF Cons.prems(1) n(1) Cons.prems(3), of op]
    by (simp split: option.split)
qed (simp split: option.split)

end

section \<open>The two tables\<close>

datatype connection_op =
    ConnectionIssue u64 u64 connection_principal u64
  | ConnectionResolve u64 string
  | ConnectionRevoke string

fun connection_step :: "connection_op \<Rightarrow> connection_registry \<Rightarrow> connection_registry" where
  "connection_step (ConnectionIssue now rnd who ttl) reg = fst (connection_issue_with_ttl now rnd who ttl reg)"
| "connection_step (ConnectionResolve now raw) reg = fst (connection_resolve now raw reg)"
| "connection_step (ConnectionRevoke raw) reg = fst (connection_revoke raw reg)"

fun connection_ends :: "connection_op \<Rightarrow> string \<Rightarrow> connection_record \<Rightarrow> bool" where
  "connection_ends (ConnectionIssue _ _ _ _) token rec = False"
| "connection_ends (ConnectionResolve now raw) token rec \<longleftrightarrow> trim raw \<noteq> [] \<and> conn_expires_at_ms rec \<le> now"
| "connection_ends (ConnectionRevoke raw) token rec \<longleftrightarrow> trim raw = token"

definition connection_issued :: "connection_registry \<Rightarrow> string \<Rightarrow> bool" where
  "connection_issued reg token \<longleftrightarrow> (\<exists>s r. token = connection_token_of s r \<and> unat s \<le> unat (conn_nonce reg))"

definition connection_inv :: "nat \<Rightarrow> connection_registry \<Rightarrow> bool" where
  "connection_inv n reg \<longleftrightarrow> bt_ok (connections reg) \<and> unat (conn_nonce reg) \<le> n"

datatype challenge_op =
    ChallengeIssue u64 u64 u64
  | ChallengeConsume u64 string

fun challenge_step :: "challenge_op \<Rightarrow> challenge_registry \<Rightarrow> challenge_registry" where
  "challenge_step (ChallengeIssue now rnd ttl) reg = fst (challenge_issue_with_ttl now rnd ttl reg)"
| "challenge_step (ChallengeConsume now raw) reg = fst (challenge_consume now raw reg)"

fun challenge_ends :: "challenge_op \<Rightarrow> string \<Rightarrow> challenge \<Rightarrow> bool" where
  "challenge_ends (ChallengeIssue _ _ _) nonce c = False"
| "challenge_ends (ChallengeConsume now raw) nonce c \<longleftrightarrow>
     trim raw \<noteq> [] \<and> (trim raw = nonce \<or> challenge_expires_at_ms c \<le> now)"

definition challenge_issued :: "challenge_registry \<Rightarrow> string \<Rightarrow> bool" where
  "challenge_issued reg nonce \<longleftrightarrow> (\<exists>s r. nonce = challenge_nonce_of s r \<and> unat s \<le> unat (chal_nonce reg))"

definition challenge_inv :: "nat \<Rightarrow> challenge_registry \<Rightarrow> bool" where
  "challenge_inv n reg \<longleftrightarrow> bt_ok (challenges reg) \<and> unat (chal_nonce reg) \<le> n"

lemma token_of_inj [simp]:
  "connection_token_of s r = connection_token_of s' r' \<longleftrightarrow> s = s' \<and> r = r'"
  "challenge_nonce_of s r = challenge_nonce_of s' r' \<longleftrightarrow> s = s' \<and> r = r'"
  by (auto simp: connection_token_of_def challenge_nonce_of_def)

lemma token_not_empty [simp]: "connection_token_of s r \<noteq> []" "challenge_nonce_of s r \<noteq> []"
  by (simp_all add: connection_token_of_def challenge_nonce_of_def)

interpretation conn_table: lease_table connection_step "\<lambda>reg. bt_get (connections reg)" connection_issued
  connection_ends connection_inv
proof
  fix n reg op token
  assume inv: "connection_inv n reg" and n: "Suc n < (2 :: nat) ^ 64"
  then have inc: "unat (conn_nonce reg + 1) = Suc (unat (conn_nonce reg))" and bt: "bt_ok (connections reg)"
    by (auto simp: connection_inv_def intro: unat_inc_below)
  show "connection_inv (Suc n) (connection_step op reg)"
    using inv inc by (cases op) (auto simp: connection_inv_def connection_issue_with_ttl_def
        connection_resolve_def connection_revoke_def Let_def)
  assume "connection_issued reg token"
  then obtain s r where token: "token = connection_token_of s r" "unat s \<le> unat (conn_nonce reg)"
    by (auto simp: connection_issued_def)
  then have "unat s \<le> unat (conn_nonce reg + 1)"
    using inc by simp
  with token show "connection_issued (connection_step op reg) token"
    by (cases op) (auto simp: connection_issued_def connection_issue_with_ttl_def connection_resolve_def
        connection_revoke_def Let_def)
  have "s \<noteq> conn_nonce reg + 1"
    using token(2) inc by auto
  then show "bt_get (connections (connection_step op reg)) token =
      (case bt_get (connections reg) token of None \<Rightarrow> None
       | Some v \<Rightarrow> if connection_ends op token v then None else Some v)"
    using bt token(1) by (cases op) (auto simp: connection_issue_with_ttl_def connection_resolve_def
        connection_revoke_def Let_def not_less split: option.split)
qed

interpretation chal_table: lease_table challenge_step "\<lambda>reg. bt_get (challenges reg)" challenge_issued
  challenge_ends challenge_inv
proof
  fix n reg op nonce
  assume inv: "challenge_inv n reg" and n: "Suc n < (2 :: nat) ^ 64"
  then have inc: "unat (chal_nonce reg + 1) = Suc (unat (chal_nonce reg))" and bt: "bt_ok (challenges reg)"
    by (auto simp: challenge_inv_def intro: unat_inc_below)
  show "challenge_inv (Suc n) (challenge_step op reg)"
    using inv inc by (cases op) (auto simp: challenge_inv_def challenge_issue_with_ttl_def
        challenge_consume_def Let_def)
  assume "challenge_issued reg nonce"
  then obtain s r where nonce: "nonce = challenge_nonce_of s r" "unat s \<le> unat (chal_nonce reg)"
    by (auto simp: challenge_issued_def)
  then have "unat s \<le> unat (chal_nonce reg + 1)"
    using inc by simp
  with nonce show "challenge_issued (challenge_step op reg) nonce"
    by (cases op) (auto simp: challenge_issued_def challenge_issue_with_ttl_def challenge_consume_def Let_def)
  have "s \<noteq> chal_nonce reg + 1"
    using nonce(2) inc by auto
  then show "bt_get (challenges (challenge_step op reg)) nonce =
      (case bt_get (challenges reg) nonce of None \<Rightarrow> None
       | Some v \<Rightarrow> if challenge_ends op nonce v then None else Some v)"
    using bt nonce(1) by (cases op) (auto simp: challenge_issue_with_ttl_def challenge_consume_def
        Let_def not_less split: option.split)
qed

lemma connection_new_inv: "connection_inv 0 connection_registry_new"
  by (simp add: connection_inv_def connection_registry_new_def)

lemma challenge_new_inv: "challenge_inv 0 challenge_registry_new"
  by (simp add: challenge_inv_def challenge_registry_new_def)

lemma connection_issue_facts:
  assumes inv: "connection_inv n reg"
    and new: "connection_issue_with_ttl t0 rnd who ttl reg = (reg1, lease)"
  shows "\<exists>rec. bt_get (connections reg1) (lease_token lease) = Some rec \<and> lease_of (lease_token lease) rec = lease
     \<and> conn_expires_at_ms rec = lease_expires_at_ms lease
     \<and> connection_issued reg1 (lease_token lease) \<and> lease_token lease \<noteq> []
     \<and> lease_expires_at_ms lease = sat_add_u64 t0 (max ttl 1) \<and> lease_principal lease = who
     \<and> reg1 = connection_step (ConnectionIssue t0 rnd who ttl) reg"
  using assms
  by (auto simp: connection_issue_with_ttl_def Let_def connection_inv_def lease_of_def connection_issued_def)

lemma challenge_issue_facts:
  assumes inv: "challenge_inv n reg"
    and new: "challenge_issue_with_ttl t0 rnd ttl reg = (reg1, c)"
  shows "bt_get (challenges reg1) (challenge_nonce c) = Some c
     \<and> challenge_issued reg1 (challenge_nonce c) \<and> challenge_nonce c \<noteq> []
     \<and> challenge_expires_at_ms c = sat_add_u64 t0 (max ttl 1)
     \<and> reg1 = challenge_step (ChallengeIssue t0 rnd ttl) reg"
  using assms
  by (auto simp: challenge_issue_with_ttl_def Let_def challenge_inv_def challenge_issued_def)

section \<open>Properties\<close>

text \<open>
  A connection token lives until its expiry or its revocation.  For a token issued in any state of
  the registry, after any further issues, lookups and revocations, a lookup at a time not before those
  resolves to the lease that was issued, with its principal, exactly when the token was not revoked
  and the expiry has not been reached.
\<close>

theorem connection_lease_lifetime:
  assumes "reg = fold connection_step ops connection_registry_new"
    and "length ops + length ops' + 1 < 2 ^ 64"
    and "connection_issue_with_ttl t0 rnd who ttl reg = (reg1, lease)"
    and "\<forall>t raw'. ConnectionResolve t raw' \<in> set ops' \<longrightarrow> t \<le> now"
    and "trim raw = lease_token lease"
  shows "snd (connection_resolve now raw (fold connection_step ops' reg1)) =
       (if (\<exists>raw'. ConnectionRevoke raw' \<in> set ops' \<and> trim raw' = lease_token lease)
           \<or> sat_add_u64 t0 (max ttl 1) \<le> now
        then None else Some lease)"
proof -
  have inv: "connection_inv (length ops) reg"
    using conn_table.inv_run [OF connection_new_inv, of ops] assms(1,2) by simp
  obtain rec where rec: "bt_get (connections reg1) (lease_token lease) = Some rec"
      "lease_of (lease_token lease) rec = lease" "conn_expires_at_ms rec = sat_add_u64 t0 (max ttl 1)"
      "connection_issued reg1 (lease_token lease)" "lease_token lease \<noteq> []"
      "reg1 = connection_step (ConnectionIssue t0 rnd who ttl) reg"
    using connection_issue_facts [OF inv assms(3)] by auto
  have inv1: "connection_inv (Suc (length ops)) reg1"
    unfolding rec(6) by (rule conn_table.inv_step [OF inv]) (use assms(2) in simp)
  have n: "Suc (length ops) + length ops' < 2 ^ 64" using assms(2) by simp
  let ?reg2 = "fold connection_step ops' reg1"
  have bt: "bt_ok (connections ?reg2)"
    using conn_table.inv_run [OF inv1 n] by (simp add: connection_inv_def)
  have look: "bt_get (connections ?reg2) (lease_token lease) =
      (if \<exists>op \<in> set ops'. connection_ends op (lease_token lease) rec then None else Some rec)"
    using conn_table.lookup_run [OF inv1 n rec(4)] rec(1) by simp
  have "(\<exists>op \<in> set ops'. connection_ends op (lease_token lease) rec) \<or> conn_expires_at_ms rec \<le> now \<longleftrightarrow>
      (\<exists>raw'. ConnectionRevoke raw' \<in> set ops' \<and> trim raw' = lease_token lease) \<or> conn_expires_at_ms rec \<le> now"
  proof -
    have "conn_expires_at_ms rec \<le> now \<or> (\<exists>raw'. op = ConnectionRevoke raw' \<and> trim raw' = lease_token lease)"
      if "op \<in> set ops'" "connection_ends op (lease_token lease) rec" for op
      by (rule connection_op.exhaust [of op]) (use that assms(4) in \<open>auto intro: order_trans\<close>)
    then show ?thesis by (metis connection_ends.simps(3))
  qed
  then show ?thesis
    using look bt rec(2,3,5) assms(5) by (auto simp: connection_resolve_def Let_def not_less)
qed

theorem connection_lease_lifetime_witness:
  "\<exists>reg1 lease. connection_issue_with_ttl 100 7
       \<lparr>connection_id = ''c'', client_id = ''d'', principal_role = ''r'', scopes = {}, device_id = None\<rparr> 50
       connection_registry_new = (reg1, lease)
     \<and> snd (connection_resolve 120 (connection_token_of 1 7) reg1) = Some lease"
proof -
  let ?who = "\<lparr>connection_id = ''c'', client_id = ''d'', principal_role = ''r'', scopes = {}, device_id = None\<rparr>"
  obtain reg1 lease where new: "connection_issue_with_ttl 100 7 ?who 50 connection_registry_new = (reg1, lease)"
    by fastforce
  then have token: "lease_token lease = connection_token_of 1 7"
    by (auto simp: connection_issue_with_ttl_def Let_def connection_registry_new_def)
  have "trim (connection_token_of 1 7) = connection_token_of 1 7"
    by code_simp
  then have trim: "trim (connection_token_of 1 7) = lease_token lease"
    by (simp add: token)
  have live: "\<not> sat_add_u64 100 (max 50 1) \<le> (120 :: u64)"
    by (simp add: sat_add_u64_def max_def word_le_nat_alt)
  have reg: "connection_registry_new = fold connection_step [] connection_registry_new"
    by simp
  from connection_lease_lifetime [OF reg _ new _ trim, of "[]" 120] new live show ?thesis
    by simp
qed

text \<open>
  C31: a challenge is answered at most once.  For a challenge issued in any state of the registry, after
  any further issues and attempts, an attempt at a time not before those is accepted exactly when it
  is the first one for that nonce and the expiry has not been reached.
\<close>

theorem challenge_single_use:
  assumes "reg = fold challenge_step ops challenge_registry_new"
    and "length ops + length ops' + 1 < 2 ^ 64"
    and "challenge_issue_with_ttl t0 rnd ttl reg = (reg1, c)"
    and "\<forall>t raw'. ChallengeConsume t raw' \<in> set ops' \<longrightarrow> t \<le> now"
    and "trim raw = challenge_nonce c"
  shows "snd (challenge_consume now raw (fold challenge_step ops' reg1)) =
       (if (\<exists>t raw'. ChallengeConsume t raw' \<in> set ops' \<and> trim raw' = challenge_nonce c)
           \<or> sat_add_u64 t0 (max ttl 1) \<le> now
        then None else Some c)"
proof -
  have inv: "challenge_inv (length ops) reg"
    using chal_table.inv_run [OF challenge_new_inv, of ops] assms(1,2) by simp
  have c: "bt_get (challenges reg1) (challenge_nonce c) = Some c" "challenge_issued reg1 (challenge_nonce c)"
      "challenge_nonce c \<noteq> []" "challenge_expires_at_ms c = sat_add_u64 t0 (max ttl 1)"
      "reg1 = challenge_step (ChallengeIssue t0 rnd ttl) reg"
    using challenge_issue_facts [OF inv assms(3)] by auto
  have inv1: "challenge_inv (Suc (length ops)) reg1"
    unfolding c(5) by (rule chal_table.inv_step [OF inv]) (use assms(2) in simp)
  have n: "Suc (length ops) + length ops' < 2 ^ 64" using assms(2) by simp
  let ?reg2 = "fold challenge_step ops' reg1"
  have bt: "bt_ok (challenges ?reg2)"
    using chal_table.inv_run [OF inv1 n] by (simp add: challenge_inv_def)
  have look: "bt_get (challenges ?reg2) (challenge_nonce c) =
      (if \<exists>op \<in> set ops'. challenge_ends op (challenge_nonce c) c then None else Some c)"
    using chal_table.lookup_run [OF inv1 n c(2)] c(1) by simp
  have "(\<exists>op \<in> set ops'. challenge_ends op (challenge_nonce c) c) \<or> challenge_expires_at_ms c \<le> now \<longleftrightarrow>
      (\<exists>t raw'. ChallengeConsume t raw' \<in> set ops' \<and> trim raw' = challenge_nonce c) \<or> challenge_expires_at_ms c \<le> now"
  proof -
    have "challenge_expires_at_ms c \<le> now \<or> (\<exists>t raw'. op = ChallengeConsume t raw' \<and> trim raw' = challenge_nonce c)"
      if "op \<in> set ops'" "challenge_ends op (challenge_nonce c) c" for op
      by (rule challenge_op.exhaust [of op]) (use that assms(4) in \<open>auto intro: order_trans\<close>)
    then show ?thesis using c(3) by (metis challenge_ends.simps(2))
  qed
  then show ?thesis
    using look bt c(3,4) assms(5) by (auto simp: challenge_consume_def Let_def not_less)
qed

theorem challenge_single_use_witness:
  "\<exists>reg1 c. challenge_issue_with_ttl 100 7 50 challenge_registry_new = (reg1, c)
     \<and> snd (challenge_consume 120 (challenge_nonce_of 1 7) reg1) = Some c
     \<and> snd (challenge_consume 120 (challenge_nonce_of 1 7)
         (fst (challenge_consume 120 (challenge_nonce_of 1 7) reg1))) = None"
proof -
  obtain reg1 c where new: "challenge_issue_with_ttl 100 7 50 challenge_registry_new = (reg1, c)"
    by fastforce
  then have nonce: "challenge_nonce c = challenge_nonce_of 1 7"
    by (auto simp: challenge_issue_with_ttl_def Let_def challenge_registry_new_def)
  have tr: "trim (challenge_nonce_of 1 7) = challenge_nonce_of 1 7"
    by code_simp
  then have trim: "trim (challenge_nonce_of 1 7) = challenge_nonce c"
    by (simp add: nonce)
  have live: "\<not> sat_add_u64 100 (max 50 1) \<le> (120 :: u64)"
    by (simp add: sat_add_u64_def max_def word_le_nat_alt)
  have reg: "challenge_registry_new = fold challenge_step [] challenge_registry_new"
    by simp
  from challenge_single_use [OF reg _ new _ trim, of "[]" 120]
    challenge_single_use [OF reg _ new _ trim, of "[ChallengeConsume 120 (challenge_nonce_of 1 7)]" 120]
    new live nonce tr show ?thesis
    by auto
qed

end
