(* ===== verification/Pairing_Store.thy ===== *)
theory Pairing_Store
  imports Contracts
begin

text \<open>
  The control-plane part of \<open>SessionRepository\<close> (\<open>crates/app/src/session/repository.rs\<close>): the tables
  of pairing requests and device tokens and the statements that the code runs on them.  A table is
  the list of its rows; a statement is written as what it does to the rows, and the failures of the
  database are arguments (\<open>store_io\<close>).  \<open>serde_json\<close> for sets of strings is the parameter \<open>scope_codec\<close>.
  A signed 64-bit integer is a \<open>64 word\<close>, so that the casts between \<open>u64\<close> and \<open>i64\<close> keep the bits.
\<close>

section \<open>Rows and records\<close>

type_synonym i64 = "64 word"

datatype pairing_status = PairingPending | PairingApproved | PairingRejected

fun pairing_status_as_str :: "pairing_status \<Rightarrow> string" where
  "pairing_status_as_str PairingPending = ''pending''"
| "pairing_status_as_str PairingApproved = ''approved''"
| "pairing_status_as_str PairingRejected = ''rejected''"

definition pairing_status_from_db :: "string \<Rightarrow> string + pairing_status" where
  "pairing_status_from_db v =
     (if v = ''pending'' then Inr PairingPending
      else if v = ''approved'' then Inr PairingApproved
      else if v = ''rejected'' then Inr PairingRejected
      else Inl (''unknown control-plane pairing status `'' @ v @ ''`''))"

record pairing_row =
  row_request_id :: string
  row_device_id :: string
  row_client_id :: string
  row_public_key :: string
  row_role :: string
  row_scopes_json :: string
  row_status :: string
  row_requested_at_ms :: i64
  row_resolved_at_ms :: "i64 option"
  row_issued_token_id :: "string option"
  row_last_error :: "string option"

record stored_request =
  sr_request_id :: string
  sr_device_id :: string
  sr_client_id :: string
  sr_public_key :: string
  sr_role :: string
  sr_scopes :: "string set"
  sr_status :: pairing_status
  sr_requested_at_ms :: i64
  sr_resolved_at_ms :: "i64 option"
  sr_issued_token_id :: "string option"
  sr_last_error :: "string option"

record new_pairing_request =
  np_request_id :: string
  np_device_id :: string
  np_client_id :: string
  np_public_key :: string
  np_role :: string
  np_scopes :: "string set"

record device_row =
  dev_token_id :: string
  dev_device_id :: string
  dev_public_key :: string
  dev_role :: string
  dev_scopes_json :: string
  dev_token_hash :: string
  dev_issued_at_ms :: i64
  dev_expires_at_ms :: "i64 option"
  dev_revoked_at_ms :: "i64 option"
  dev_last_used_at_ms :: "i64 option"
  dev_request_id :: "string option"

record stored_device =
  sd_token_id :: string
  sd_device_id :: string
  sd_public_key :: string
  sd_role :: string
  sd_scopes :: "string set"
  sd_token_hash :: string
  sd_issued_at_ms :: i64
  sd_expires_at_ms :: "i64 option"
  sd_revoked_at_ms :: "i64 option"
  sd_last_used_at_ms :: "i64 option"
  sd_request_id :: "string option"

record new_device_token =
  nd_token_id :: string
  nd_device_id :: string
  nd_public_key :: string
  nd_role :: string
  nd_scopes :: "string set"
  nd_token_hash :: string
  nd_expires_at_ms :: "i64 option"
  nd_revoked_at_ms :: "i64 option"
  nd_last_used_at_ms :: "i64 option"
  nd_request_id :: "string option"

record pairing_transition =
  expected_status :: pairing_status
  next_status :: pairing_status
  transition_token_id :: "string option"
  transition_error :: "string option"

record pairing_store =
  pairing_rows :: "pairing_row list"
  device_rows :: "device_row list"

text \<open>
  The calls of the database that may fail, in the order of the code: opening a connection, the
  transaction (or preparing a statement), the first statement, the statement on the tokens, the
  commit, the final load with its own connection, and the steps of a query over its rows.
\<close>

record store_io =
  io_open :: "string option"
  io_transaction :: "string option"
  io_statement :: "string option"
  io_token :: "string option"
  io_commit :: "string option"
  io_load_open :: "string option"
  io_load :: "string option"
  io_rows :: "string option list"

record scope_codec =
  scopes_to_string :: "string set \<Rightarrow> string + string"
  scopes_from_str :: "string \<Rightarrow> string + string set"

section \<open>Helpers\<close>

definition repo_required_text :: "string \<Rightarrow> string \<Rightarrow> string + string" where
  "repo_required_text value field =
     (let trimmed = trim value in
      if trimmed = [] then Inl (''session repository requires '' @ field) else Inr trimmed)"

definition normalize_optional_text :: "string option \<Rightarrow> string option" where
  "normalize_optional_text value =
     (case value of
        None \<Rightarrow> None
      | Some raw \<Rightarrow> let trimmed = trim raw in if trimmed \<noteq> [] then Some trimmed else None)"

definition trimmed_scopes :: "string set \<Rightarrow> string set" where
  "trimmed_scopes S = Set.remove [] (trim ` S)"

definition encode_string_set_json :: "scope_codec \<Rightarrow> string set \<Rightarrow> string + string" where
  "encode_string_set_json sc S =
     map_err (\<lambda>e. ''encode control-plane scope set failed: '' @ e) (scopes_to_string sc (trimmed_scopes S))"

definition decode_string_set_json :: "scope_codec \<Rightarrow> string \<Rightarrow> string + string set" where
  "decode_string_set_json sc s =
     and_then (map_err (\<lambda>e. ''decode control-plane scope set failed: '' @ e) (scopes_from_str sc s))
       (\<lambda>decoded. Inr (trimmed_scopes decoded))"

definition request_from_raw :: "scope_codec \<Rightarrow> pairing_row \<Rightarrow> string + stored_request" where
  "request_from_raw sc raw =
     and_then (decode_string_set_json sc (row_scopes_json raw)) (\<lambda>scopes.
     and_then (pairing_status_from_db (row_status raw)) (\<lambda>status.
       Inr \<lparr>sr_request_id = row_request_id raw, sr_device_id = row_device_id raw,
            sr_client_id = row_client_id raw, sr_public_key = row_public_key raw,
            sr_role = row_role raw, sr_scopes = scopes, sr_status = status,
            sr_requested_at_ms = row_requested_at_ms raw, sr_resolved_at_ms = row_resolved_at_ms raw,
            sr_issued_token_id = row_issued_token_id raw, sr_last_error = row_last_error raw\<rparr>))"

definition device_from_raw :: "scope_codec \<Rightarrow> device_row \<Rightarrow> string + stored_device" where
  "device_from_raw sc raw =
     and_then (decode_string_set_json sc (dev_scopes_json raw)) (\<lambda>scopes.
       Inr \<lparr>sd_token_id = dev_token_id raw, sd_device_id = dev_device_id raw,
            sd_public_key = dev_public_key raw, sd_role = dev_role raw, sd_scopes = scopes,
            sd_token_hash = dev_token_hash raw, sd_issued_at_ms = dev_issued_at_ms raw,
            sd_expires_at_ms = dev_expires_at_ms raw, sd_revoked_at_ms = dev_revoked_at_ms raw,
            sd_last_used_at_ms = dev_last_used_at_ms raw, sd_request_id = dev_request_id raw\<rparr>)"

text \<open>A call of the database that may fail with an error text.\<close>

definition db_call :: "string \<Rightarrow> string option \<Rightarrow> string + unit" where
  "db_call what failure = (case failure of None \<Rightarrow> Inr () | Some e \<Rightarrow> Inl (what @ e))"

definition open_connection :: "string option \<Rightarrow> string + unit" where
  "open_connection failure = db_call ''open session repository sqlite db failed: '' failure"

section \<open>Pairing requests\<close>

definition load_pairing_request ::
    "scope_codec \<Rightarrow> store_io \<Rightarrow> string \<Rightarrow> pairing_store \<Rightarrow> string + stored_request option" where
  "load_pairing_request sc io rid st =
     and_then (repo_required_text rid ''pairing_request_id'') (\<lambda>rid.
     and_then (open_connection (io_load_open io)) (\<lambda>_.
     and_then (db_call ''load control-plane pairing request row failed: '' (io_load io)) (\<lambda>_.
       case find (\<lambda>r. row_request_id r = rid) (pairing_rows st) of
         None \<Rightarrow> Inr None
       | Some raw \<Rightarrow> and_then (request_from_raw sc raw) (\<lambda>r. Inr (Some r)))))"

definition require_loaded :: "string \<Rightarrow> string \<Rightarrow> string + stored_request option \<Rightarrow> string + stored_request" where
  "require_loaded rid what loaded =
     and_then loaded (\<lambda>r. ok_or (''control-plane pairing request `'' @ rid @ what) r)"

definition ensure_pairing_request ::
    "scope_codec \<Rightarrow> store_io \<Rightarrow> i64 \<Rightarrow> new_pairing_request \<Rightarrow> pairing_store
       \<Rightarrow> pairing_store \<times> (string + stored_request)" where
  "ensure_pairing_request sc io now new st =
     try_bind (st, repo_required_text (np_request_id new) ''pairing_request_id'') (\<lambda>st rid.
     try_bind (st, repo_required_text (np_device_id new) ''device_id'') (\<lambda>st device.
     try_bind (st, repo_required_text (np_client_id new) ''client_id'') (\<lambda>st client.
     try_bind (st, repo_required_text (np_public_key new) ''public_key'') (\<lambda>st key.
     try_bind (st, repo_required_text (np_role new) ''role'') (\<lambda>st role.
     try_bind (st, encode_string_set_json sc (np_scopes new)) (\<lambda>st scopes_json.
     try_bind (st, open_connection (io_open io)) (\<lambda>st _.
       case io_statement io of
         Some e \<Rightarrow>
           if sublist ''UNIQUE constraint failed'' e
           then (st, require_loaded rid ''` missing after concurrent insert'' (load_pairing_request sc io rid st))
           else (st, Inl (''insert control-plane pairing request row failed: '' @ e))
       | None \<Rightarrow>
           if \<exists>r \<in> set (pairing_rows st). row_request_id r = rid
           then (st, require_loaded rid ''` missing after concurrent insert'' (load_pairing_request sc io rid st))
           else
             let st' = st\<lparr>pairing_rows := pairing_rows st @
               [\<lparr>row_request_id = rid, row_device_id = device, row_client_id = client,
                 row_public_key = key, row_role = role, row_scopes_json = scopes_json,
                 row_status = pairing_status_as_str PairingPending, row_requested_at_ms = now,
                 row_resolved_at_ms = None, row_issued_token_id = None, row_last_error = None\<rparr>]\<rparr> in
             (st', require_loaded rid ''` disappeared after insert'' (load_pairing_request sc io rid st')))))))))"

text \<open>An \<open>UPDATE\<close> changes the rows that match and counts them.\<close>

definition update_rows :: "('r \<Rightarrow> bool) \<Rightarrow> ('r \<Rightarrow> 'r) \<Rightarrow> 'r list \<Rightarrow> 'r list \<times> nat" where
  "update_rows P f rows = (map (\<lambda>r. if P r then f r else r) rows, length (filter P rows))"

definition transition_pairing_request ::
    "scope_codec \<Rightarrow> store_io \<Rightarrow> i64 \<Rightarrow> string \<Rightarrow> pairing_transition \<Rightarrow> pairing_store
       \<Rightarrow> pairing_store \<times> (string + stored_request option)" where
  "transition_pairing_request sc io now rid tr st =
     try_bind (st, repo_required_text rid ''pairing_request_id'') (\<lambda>st rid.
     let last_error = normalize_optional_text (transition_error tr);
         resolution_ts = (if next_status tr = PairingApproved \<or> next_status tr = PairingRejected
                          then Some now else None) in
     try_bind (st, open_connection (io_open io)) (\<lambda>st _.
     try_bind (st, db_call ''conditionally update control-plane pairing request failed: '' (io_statement io))
       (\<lambda>st _.
       case update_rows
           (\<lambda>r. row_request_id r = rid \<and> row_status r = pairing_status_as_str (expected_status tr))
           (\<lambda>r. r\<lparr>row_status := pairing_status_as_str (next_status tr),
                  row_resolved_at_ms := (case resolution_ts of None \<Rightarrow> row_resolved_at_ms r | Some t \<Rightarrow> Some t),
                  row_issued_token_id := (case transition_token_id tr of
                     None \<Rightarrow> row_issued_token_id r | Some t \<Rightarrow> Some t),
                  row_last_error := last_error\<rparr>)
           (pairing_rows st) of
         (rows, affected) \<Rightarrow>
           let st' = st\<lparr>pairing_rows := rows\<rparr> in
           if affected = 0 then (st', Inr None)
           else (st', and_then (require_loaded rid ''` missing after conditional update''
                        (load_pairing_request sc io rid st')) (\<lambda>r. Inr (Some r))))))"

section \<open>Approval\<close>

text \<open>
  \<open>INSERT ... ON CONFLICT(device_id) DO UPDATE\<close>: the row of the device is replaced; a different
  device with the same primary key is a constraint failure.
\<close>

definition upsert_device_row :: "device_row \<Rightarrow> device_row list \<Rightarrow> string + device_row list" where
  "upsert_device_row new rows =
     (if \<exists>r \<in> set rows. dev_token_id r = dev_token_id new \<and> dev_device_id r \<noteq> dev_device_id new then
        Inl ''UNIQUE constraint failed: control_plane_device_tokens.token_id''
      else if \<exists>r \<in> set rows. dev_device_id r = dev_device_id new then
        Inr (map (\<lambda>r. if dev_device_id r = dev_device_id new then new else r) rows)
      else Inr (rows @ [new]))"

text \<open>The transaction either commits both changes or none.\<close>

definition approve_pairing_request ::
    "scope_codec \<Rightarrow> store_io \<Rightarrow> stored_request \<Rightarrow> new_device_token \<Rightarrow> pairing_store
       \<Rightarrow> pairing_store \<times> (string + stored_request option)" where
  "approve_pairing_request sc io request token st =
     (if sr_status request \<noteq> PairingApproved then
        (st, Inl ''control-plane pairing approval persistence requires approved status'')
      else
        try_bind (st, repo_required_text (sr_request_id request) ''pairing_request_id'') (\<lambda>st rid.
        try_bind (st, ok_or ''approved control-plane pairing request requires resolved_at_ms''
          (sr_resolved_at_ms request)) (\<lambda>st resolved_at.
        try_bind (st, ok_or ''approved control-plane pairing request requires issued_token_id''
          (sr_issued_token_id request)) (\<lambda>st issued_id.
        try_bind (st, repo_required_text (nd_token_id token) ''token_id'') (\<lambda>st tid.
        try_bind (st, repo_required_text (nd_device_id token) ''device_id'') (\<lambda>st device.
        try_bind (st, repo_required_text (nd_public_key token) ''public_key'') (\<lambda>st key.
        try_bind (st, repo_required_text (nd_role token) ''role'') (\<lambda>st role.
        try_bind (st, repo_required_text (nd_token_hash token) ''token_hash'') (\<lambda>st hash.
        try_bind (st, encode_string_set_json sc (nd_scopes token)) (\<lambda>st scopes_json.
        try_bind (st, open_connection (io_open io)) (\<lambda>st _.
        try_bind (st, db_call ''open control-plane pairing approval transaction failed: '' (io_transaction io))
          (\<lambda>st _.
        try_bind (st, db_call ''approve control-plane pairing request transaction update failed: ''
          (io_statement io)) (\<lambda>st _.
          case update_rows (\<lambda>r. row_request_id r = rid \<and> row_status r = pairing_status_as_str PairingPending)
              (\<lambda>r. r\<lparr>row_status := pairing_status_as_str PairingApproved,
                     row_resolved_at_ms := Some resolved_at, row_issued_token_id := Some issued_id,
                     row_last_error := None\<rparr>)
              (pairing_rows st) of
            (rows, affected) \<Rightarrow>
              if affected = 0 then (st, Inr None)
              else
                try_bind (st, map_err (\<lambda>e. ''approve control-plane pairing request token upsert failed: '' @ e)
                  (case io_token io of
                     Some e \<Rightarrow> Inl e
                   | None \<Rightarrow> upsert_device_row
                       \<lparr>dev_token_id = tid, dev_device_id = device, dev_public_key = key, dev_role = role,
                        dev_scopes_json = scopes_json, dev_token_hash = hash, dev_issued_at_ms = resolved_at,
                        dev_expires_at_ms = nd_expires_at_ms token, dev_revoked_at_ms = nd_revoked_at_ms token,
                        dev_last_used_at_ms = nd_last_used_at_ms token, dev_request_id = nd_request_id token\<rparr>
                       (device_rows st)))
                  (\<lambda>st devices.
                try_bind (st, db_call ''commit control-plane pairing approval transaction failed: ''
                  (io_commit io)) (\<lambda>st _.
                  let st' = st\<lparr>pairing_rows := rows, device_rows := devices\<rparr> in
                  (st', and_then (require_loaded rid ''` missing after approval commit''
                          (load_pairing_request sc io rid st')) (\<lambda>r. Inr (Some r))))))))))))))))))"

section \<open>Device tokens\<close>

definition load_device_token_by_device_id ::
    "scope_codec \<Rightarrow> store_io \<Rightarrow> string \<Rightarrow> pairing_store \<Rightarrow> string + stored_device option" where
  "load_device_token_by_device_id sc io device st =
     and_then (repo_required_text device ''device_id'') (\<lambda>device.
     and_then (open_connection (io_load_open io)) (\<lambda>_.
     and_then (db_call ''load control-plane device token failed: '' (io_load io)) (\<lambda>_.
       case find (\<lambda>r. dev_device_id r = device) (device_rows st) of
         None \<Rightarrow> Inr None
       | Some raw \<Rightarrow> and_then (device_from_raw sc raw) (\<lambda>d. Inr (Some d)))))"

definition upsert_device_token ::
    "scope_codec \<Rightarrow> store_io \<Rightarrow> i64 \<Rightarrow> new_device_token \<Rightarrow> pairing_store
       \<Rightarrow> pairing_store \<times> (string + stored_device)" where
  "upsert_device_token sc io now token st =
     try_bind (st, repo_required_text (nd_token_id token) ''token_id'') (\<lambda>st tid.
     try_bind (st, repo_required_text (nd_device_id token) ''device_id'') (\<lambda>st device.
     try_bind (st, repo_required_text (nd_public_key token) ''public_key'') (\<lambda>st key.
     try_bind (st, repo_required_text (nd_role token) ''role'') (\<lambda>st role.
     try_bind (st, repo_required_text (nd_token_hash token) ''token_hash'') (\<lambda>st hash.
     try_bind (st, encode_string_set_json sc (nd_scopes token)) (\<lambda>st scopes_json.
     try_bind (st, open_connection (io_open io)) (\<lambda>st _.
     try_bind (st, map_err (\<lambda>e. ''upsert control-plane device token failed: '' @ e)
       (case io_statement io of
          Some e \<Rightarrow> Inl e
        | None \<Rightarrow> upsert_device_row
            \<lparr>dev_token_id = tid, dev_device_id = device, dev_public_key = key, dev_role = role,
             dev_scopes_json = scopes_json, dev_token_hash = hash, dev_issued_at_ms = now,
             dev_expires_at_ms = nd_expires_at_ms token, dev_revoked_at_ms = nd_revoked_at_ms token,
             dev_last_used_at_ms = nd_last_used_at_ms token, dev_request_id = nd_request_id token\<rparr>
            (device_rows st))) (\<lambda>st devices.
       let st' = st\<lparr>device_rows := devices\<rparr> in
       (st', and_then (load_device_token_by_device_id sc io device st')
          (\<lambda>d. ok_or (''control-plane device token for `'' @ device @ ''` disappeared after upsert'') d))))))))))"

section \<open>Listings\<close>

text \<open>Each step of the loop over the rows may fail in the database before the row is decoded.\<close>

definition next_failure :: "string option list \<Rightarrow> string option" where
  "next_failure fails = (case fails of [] \<Rightarrow> None | e # _ \<Rightarrow> e)"

fun collect_rows ::
    "string \<Rightarrow> ('r \<Rightarrow> string + 'a) \<Rightarrow> string option list \<Rightarrow> 'r list \<Rightarrow> string + 'a list" where
  "collect_rows what f fails [] = and_then (db_call what (next_failure fails)) (\<lambda>_. Inr [])"
| "collect_rows what f fails (r # rs) =
     and_then (db_call what (next_failure fails)) (\<lambda>_.
     and_then (f r) (\<lambda>x.
     and_then (collect_rows what f (tl fails) rs) (\<lambda>xs. Inr (x # xs))))"

definition list_pairing_requests ::
    "scope_codec \<Rightarrow> store_io \<Rightarrow> pairing_status option \<Rightarrow> pairing_store \<Rightarrow> string + stored_request list" where
  "list_pairing_requests sc io status st =
     and_then (open_connection (io_open io)) (\<lambda>_.
     and_then (db_call ''prepare control-plane pairing request list query failed: '' (io_transaction io)) (\<lambda>_.
     and_then (db_call ''query control-plane pairing request list failed: '' (io_statement io)) (\<lambda>_.
       collect_rows ''decode control-plane pairing request row failed: '' (request_from_raw sc) (io_rows io)
         (sort_key (\<lambda>r. (- sint (row_requested_at_ms r), row_request_id r))
            (filter (\<lambda>r. case status of None \<Rightarrow> True | Some s \<Rightarrow> row_status r = pairing_status_as_str s)
              (pairing_rows st))))))"

definition list_device_tokens :: "scope_codec \<Rightarrow> store_io \<Rightarrow> pairing_store \<Rightarrow> string + stored_device list" where
  "list_device_tokens sc io st =
     and_then (open_connection (io_open io)) (\<lambda>_.
     and_then (db_call ''prepare control-plane device token list query failed: '' (io_transaction io)) (\<lambda>_.
     and_then (db_call ''query control-plane device token list failed: '' (io_statement io)) (\<lambda>_.
       collect_rows ''decode control-plane device token row failed: '' (device_from_raw sc) (io_rows io)
         (sort_key (\<lambda>r. (- sint (dev_issued_at_ms r), dev_token_id r)) (device_rows st)))))"

text \<open>A listed device is the decoding of a row of the table.\<close>

lemma collect_rows_decoded:
  "collect_rows what f fails rows = Inr xs \<Longrightarrow> x \<in> set xs \<Longrightarrow> \<exists>r. r \<in> set rows \<and> f r = Inr x"
proof (induction rows arbitrary: fails xs)
  case Nil
  then show ?case by (auto simp: and_then_Inr)
next
  case (Cons r rs)
  then obtain y ys where "f r = Inr y" "collect_rows what f (tl fails) rs = Inr ys" "xs = y # ys"
    by (auto simp: and_then_Inr)
  with Cons.IH [of "tl fails" ys] Cons.prems(2) show ?case by auto
qed

lemma list_device_tokens_decoded:
  "list_device_tokens sc io st = Inr ds \<Longrightarrow> d \<in> set ds \<Longrightarrow>
     \<exists>row. row \<in> set (device_rows st) \<and> device_from_raw sc row = Inr d"
  by (auto simp: list_device_tokens_def and_then_Inr dest!: collect_rows_decoded)

end
