(* ===== verification/Control_Pairing.thy ===== *)
theory Control_Pairing
  imports Pairing_Store Btree_Map
begin

text \<open>
  \<open>ControlPlanePairingRegistry\<close> of \<open>crates/app/src/control_plane.rs\<close>: devices ask to be paired, an
  operator approves or rejects, and an approved device connects with the token issued to it.  The
  registry keeps its maps in memory and, when it has a store, writes them through to it first.
  \<open>Sha256\<close> is the parameter \<open>sha\<close>; the clocks and the random components are arguments.
\<close>

section \<open>Data\<close>

record pairing_request =
  pr_request_id :: string
  pr_device_id :: string
  pr_client_id :: string
  pr_public_key :: string
  pr_role :: string
  pr_scopes :: "string set"
  pr_status :: pairing_status
  pr_requested_at_ms :: u64
  pr_resolved_at_ms :: "u64 option"
  pr_issued_token_id :: "string option"
  pr_device_token :: "string option"

datatype connect_decision =
    Authorized
  | PairingRequired pairing_request bool
  | DeviceTokenRequired
  | DeviceTokenInvalid

record approved_device =
  ad_device_id :: string
  ad_public_key :: string
  ad_role :: string
  ad_scopes :: "string set"
  ad_token_id :: string
  ad_token_hash :: string
  ad_approved_at_ms :: u64

text \<open>\<open>pairing_db\<close> is the store behind \<open>memory_config\<close>, when there is one.\<close>

record pairing_registry =
  pair_nonce :: u64
  requests :: "(string, pairing_request) btree_map"
  approved_devices :: "(string, approved_device) btree_map"
  pairing_db :: "pairing_store option"

definition pairing_registry_new :: pairing_registry where
  "pairing_registry_new =
     \<lparr>pair_nonce = 0, requests = bt_empty, approved_devices = bt_empty, pairing_db = None\<rparr>"

text \<open>What an operation takes from outside: clocks, random components, failures of the store.\<close>

record pairing_env =
  env_now :: u64
  env_db_now :: i64
  env_rnd :: u64
  env_rnd2 :: u64
  env_repo :: "string option"
  env_io :: store_io
  env_io2 :: store_io

section \<open>Conversions\<close>

definition try_into_i64 :: "u64 \<Rightarrow> i64" where
  "try_into_i64 w = (if unat w < 2 ^ 63 then w else 2 ^ 63 - 1)"

definition request_from_persisted :: "stored_request \<Rightarrow> pairing_request" where
  "request_from_persisted p =
     \<lparr>pr_request_id = sr_request_id p, pr_device_id = sr_device_id p, pr_client_id = sr_client_id p,
      pr_public_key = sr_public_key p, pr_role = sr_role p, pr_scopes = sr_scopes p,
      pr_status = sr_status p, pr_requested_at_ms = sr_requested_at_ms p,
      pr_resolved_at_ms = sr_resolved_at_ms p, pr_issued_token_id = sr_issued_token_id p,
      pr_device_token = None\<rparr>"

definition request_to_persisted :: "pairing_request \<Rightarrow> stored_request" where
  "request_to_persisted r =
     \<lparr>sr_request_id = pr_request_id r, sr_device_id = pr_device_id r, sr_client_id = pr_client_id r,
      sr_public_key = pr_public_key r, sr_role = pr_role r, sr_scopes = pr_scopes r,
      sr_status = pr_status r, sr_requested_at_ms = try_into_i64 (pr_requested_at_ms r),
      sr_resolved_at_ms = map_option try_into_i64 (pr_resolved_at_ms r),
      sr_issued_token_id = pr_issued_token_id r, sr_last_error = None\<rparr>"

definition approved_device_from_persisted :: "stored_device \<Rightarrow> approved_device" where
  "approved_device_from_persisted p =
     \<lparr>ad_device_id = sd_device_id p, ad_public_key = sd_public_key p, ad_role = sd_role p,
      ad_scopes = sd_scopes p, ad_token_id = sd_token_id p, ad_token_hash = sd_token_hash p,
      ad_approved_at_ms = sd_issued_at_ms p\<rparr>"

definition required_text :: "string \<Rightarrow> string \<Rightarrow> string + string" where
  "required_text value field =
     (let trimmed = trim value in if trimmed = [] then Inl (field @ '' is required'') else Inr trimmed)"

definition approved_device_requires_pairing :: "approved_device \<Rightarrow> string \<Rightarrow> string set \<Rightarrow> bool" where
  "approved_device_requires_pairing approved role scopes =
     (if ad_role approved \<noteq> role then True else \<not> scopes \<subseteq> ad_scopes approved)"

definition pairing_id_of :: "u64 \<Rightarrow> u64 \<Rightarrow> string" where
  "pairing_id_of sequence rnd = ''pair-'' @ hex16 sequence @ ''-'' @ hex16 rnd"

definition device_token_id_of :: "u64 \<Rightarrow> u64 \<Rightarrow> string" where
  "device_token_id_of sequence rnd = ''cpdt-'' @ hex16 sequence @ ''-'' @ hex16 rnd"

definition device_token_of :: "u64 \<Rightarrow> u64 \<Rightarrow> string" where
  "device_token_of sequence rnd = ''cpd-'' @ hex16 sequence @ ''-'' @ hex16 rnd"

section \<open>Persistence\<close>

definition persist_request ::
    "scope_codec \<Rightarrow> pairing_env \<Rightarrow> pairing_request \<Rightarrow> pairing_registry \<Rightarrow> pairing_registry \<times> (string + unit)" where
  "persist_request sc env request reg =
     (case pairing_db reg of
        None \<Rightarrow> (reg, Inr ())
      | Some st \<Rightarrow>
          try_bind (reg, case env_repo env of Some e \<Rightarrow> Inl e | None \<Rightarrow> Inr ()) (\<lambda>reg _.
          case ensure_pairing_request sc (env_io env) (env_db_now env)
              \<lparr>np_request_id = pr_request_id request, np_device_id = pr_device_id request,
               np_client_id = pr_client_id request, np_public_key = pr_public_key request,
               np_role = pr_role request, np_scopes = pr_scopes request\<rparr> st of
            (st', r) \<Rightarrow>
              try_bind (reg\<lparr>pairing_db := Some st'\<rparr>, r) (\<lambda>reg _.
              if pr_status request \<noteq> PairingPending then
                (case transition_pairing_request sc (env_io2 env) (env_db_now env) (pr_request_id request)
                    \<lparr>expected_status = PairingPending, next_status = pr_status request,
                     transition_token_id = pr_issued_token_id request, transition_error = None\<rparr> st' of
                   (st'', r') \<Rightarrow> try_bind (reg\<lparr>pairing_db := Some st''\<rparr>, r') (\<lambda>reg _. (reg, Inr ())))
              else (reg, Inr ()))))"

definition persist_approved_device ::
    "(string \<Rightarrow> string) \<Rightarrow> scope_codec \<Rightarrow> pairing_env \<Rightarrow> pairing_request \<Rightarrow> u64 \<Rightarrow> string
       \<Rightarrow> pairing_registry \<Rightarrow> pairing_registry \<times> (string + unit)" where
  "persist_approved_device sha sc env request resolved_at tid reg =
     (case pairing_db reg of
        None \<Rightarrow> (reg, Inr ())
      | Some st \<Rightarrow>
          (case pr_device_token request of
             None \<Rightarrow> (reg, Inl ''control-plane pairing approval requires device_token'')
           | Some device_token \<Rightarrow>
               try_bind (reg, case env_repo env of Some e \<Rightarrow> Inl e | None \<Rightarrow> Inr ()) (\<lambda>reg _.
               case approve_pairing_request sc (env_io env) (request_to_persisted request)
                   \<lparr>nd_token_id = tid, nd_device_id = pr_device_id request,
                    nd_public_key = pr_public_key request, nd_role = pr_role request,
                    nd_scopes = pr_scopes request, nd_token_hash = sha device_token,
                    nd_expires_at_ms = None, nd_revoked_at_ms = None,
                    nd_last_used_at_ms = Some resolved_at,
                    nd_request_id = Some (pr_request_id request)\<rparr> st of
                 (st', r) \<Rightarrow>
                   try_bind (reg\<lparr>pairing_db := Some st'\<rparr>, r) (\<lambda>reg persisted.
                     (reg, if persisted = None
                           then Inl (''control-plane pairing request `'' @ pr_request_id request
                                  @ ''` changed before approval persistence completed'')
                           else Inr ())))))"

definition with_memory_config ::
    "scope_codec \<Rightarrow> pairing_env \<Rightarrow> pairing_store \<Rightarrow> string + pairing_registry" where
  "with_memory_config sc env st =
     and_then (case env_repo env of Some e \<Rightarrow> Inl e | None \<Rightarrow> Inr ()) (\<lambda>_.
     and_then (list_pairing_requests sc (env_io env) None st) (\<lambda>persisted_requests.
     and_then (list_device_tokens sc (env_io2 env) st) (\<lambda>persisted_devices.
       Inr \<lparr>pair_nonce = 0,
            requests = fold (\<lambda>r. bt_insert (pr_request_id r) r) (map request_from_persisted persisted_requests) bt_empty,
            approved_devices = fold (\<lambda>d. bt_insert (ad_device_id d) d)
              (map approved_device_from_persisted persisted_devices) bt_empty,
            pairing_db = Some st\<rparr>)))"

section \<open>Connecting\<close>

definition same_pending ::
    "string \<Rightarrow> string \<Rightarrow> string \<Rightarrow> string set \<Rightarrow> pairing_request \<Rightarrow> bool" where
  "same_pending device key role scopes r \<longleftrightarrow>
     pr_status r = PairingPending \<and> pr_device_id r = device \<and> pr_public_key r = key
     \<and> pr_role r = role \<and> pr_scopes r = scopes"

definition request_pairing ::
    "scope_codec \<Rightarrow> pairing_env \<Rightarrow> string \<Rightarrow> string \<Rightarrow> string \<Rightarrow> string \<Rightarrow> string set \<Rightarrow> pairing_registry
       \<Rightarrow> pairing_registry \<times> (string + connect_decision)" where
  "request_pairing sc env device client key role scopes reg =
     (case find (same_pending device key role scopes) (bt_values (requests reg)) of
        Some existing \<Rightarrow> (reg, Inr (PairingRequired existing False))
      | None \<Rightarrow>
          let reg1 = reg\<lparr>pair_nonce := pair_nonce reg + 1\<rparr>;
              rid = pairing_id_of (pair_nonce reg1) (env_rnd env);
              request = \<lparr>pr_request_id = rid, pr_device_id = device, pr_client_id = client,
                pr_public_key = key, pr_role = role, pr_scopes = scopes, pr_status = PairingPending,
                pr_requested_at_ms = env_now env, pr_resolved_at_ms = None, pr_issued_token_id = None,
                pr_device_token = None\<rparr> in
          try_bind (persist_request sc env request reg1) (\<lambda>reg2 _.
            (reg2\<lparr>requests := bt_insert rid request (requests reg2)\<rparr>,
             Inr (PairingRequired request True))))"

definition evaluate_connect ::
    "(string \<Rightarrow> string) \<Rightarrow> scope_codec \<Rightarrow> pairing_env \<Rightarrow> string \<Rightarrow> string \<Rightarrow> string \<Rightarrow> string
       \<Rightarrow> string set \<Rightarrow> string option \<Rightarrow> pairing_registry \<Rightarrow> pairing_registry \<times> (string + connect_decision)" where
  "evaluate_connect sha sc env raw_device raw_client raw_key raw_role raw_scopes raw_token reg =
     try_bind (reg, required_text raw_device ''device_id'') (\<lambda>reg device.
     try_bind (reg, required_text raw_client ''client_id'') (\<lambda>reg client.
     try_bind (reg, required_text raw_key ''public_key'') (\<lambda>reg key.
     try_bind (reg, required_text raw_role ''role'') (\<lambda>reg role.
     let scopes = trimmed_scopes raw_scopes;
         device_token = (case raw_token of
            None \<Rightarrow> None | Some t \<Rightarrow> if trim t \<noteq> [] then Some (trim t) else None) in
     case bt_get (approved_devices reg) device of
       Some approved \<Rightarrow>
         if ad_public_key approved = key \<and> \<not> approved_device_requires_pairing approved role scopes then
           (reg, Inr (case device_token of
              Some t \<Rightarrow> if sha t = ad_token_hash approved then Authorized else DeviceTokenInvalid
            | None \<Rightarrow> DeviceTokenRequired))
         else request_pairing sc env device client key role scopes reg
     | None \<Rightarrow> request_pairing sc env device client key role scopes reg))))"

definition pairing_list_requests ::
    "pairing_status option \<Rightarrow> usize \<Rightarrow> pairing_registry \<Rightarrow> pairing_request list" where
  "pairing_list_requests status limit reg =
     take (max limit 1)
       (sort_key (\<lambda>r. (- int (unat (pr_requested_at_ms r)), pr_request_id r))
          (filter (\<lambda>r. case status of None \<Rightarrow> True | Some s \<Rightarrow> pr_status r = s) (bt_values (requests reg))))"

section \<open>Resolving\<close>

definition resolve_request ::
    "(string \<Rightarrow> string) \<Rightarrow> scope_codec \<Rightarrow> pairing_env \<Rightarrow> string \<Rightarrow> bool \<Rightarrow> pairing_registry
       \<Rightarrow> pairing_registry \<times> (string + pairing_request option)" where
  "resolve_request sha sc env raw_id approve reg =
     try_bind (reg, required_text raw_id ''pairing_request_id'') (\<lambda>reg rid.
     case bt_get (requests reg) rid of
       None \<Rightarrow> (reg, Inr None)
     | Some rec \<Rightarrow>
         if pr_status rec \<noteq> PairingPending then (reg, Inr (Some rec))
         else
           let resolved_at = env_now env in
           if approve then
             let reg1 = reg\<lparr>pair_nonce := pair_nonce reg + 1\<rparr>;
                 tid = device_token_id_of (pair_nonce reg1) (env_rnd env);
                 reg2 = reg1\<lparr>pair_nonce := pair_nonce reg1 + 1\<rparr>;
                 device_token = device_token_of (pair_nonce reg2) (env_rnd2 env);
                 device = \<lparr>ad_device_id = pr_device_id rec, ad_public_key = pr_public_key rec,
                   ad_role = pr_role rec, ad_scopes = pr_scopes rec, ad_token_id = tid,
                   ad_token_hash = sha device_token, ad_approved_at_ms = resolved_at\<rparr>;
                 updated = rec\<lparr>pr_status := PairingApproved, pr_resolved_at_ms := Some resolved_at,
                   pr_issued_token_id := Some tid, pr_device_token := Some device_token\<rparr> in
             try_bind (persist_approved_device sha sc env updated resolved_at tid reg2) (\<lambda>reg3 _.
               (reg3\<lparr>approved_devices := bt_insert (pr_device_id updated) device (approved_devices reg3),
                     requests := bt_insert rid updated (requests reg3)\<rparr>, Inr (Some updated)))
           else
             let updated = rec\<lparr>pr_status := PairingRejected, pr_resolved_at_ms := Some resolved_at,
                   pr_issued_token_id := None, pr_device_token := None\<rparr> in
             try_bind (persist_request sc env updated reg) (\<lambda>reg1 _.
               (reg1\<lparr>requests := bt_insert rid updated (requests reg1)\<rparr>, Inr (Some updated))))"

section \<open>Runs\<close>

datatype pairing_op =
    EvaluateConnect pairing_env string string string string "string set" "string option"
  | ResolveRequest pairing_env string bool

fun pairing_apply ::
    "(string \<Rightarrow> string) \<Rightarrow> scope_codec \<Rightarrow> pairing_op \<Rightarrow> pairing_registry \<Rightarrow> pairing_registry \<times> (string + unit)" where
  "pairing_apply sha sc (EvaluateConnect env device client key role scopes token) reg =
     try_bind (evaluate_connect sha sc env device client key role scopes token reg) (\<lambda>reg _. (reg, Inr ()))"
| "pairing_apply sha sc (ResolveRequest env rid approve) reg =
     try_bind (resolve_request sha sc env rid approve reg) (\<lambda>reg _. (reg, Inr ()))"

definition pairing_run ::
    "(string \<Rightarrow> string) \<Rightarrow> scope_codec \<Rightarrow> pairing_op list \<Rightarrow> pairing_registry \<Rightarrow> pairing_registry" where
  "pairing_run sha sc ops reg = fold (\<lambda>op reg. fst (pairing_apply sha sc op reg)) ops reg"

section \<open>What the writes keep\<close>

text \<open>Persisting changes nothing but the store.\<close>

lemma persist_request_frame:
  "\<exists>db. fst (persist_request sc env request reg) = reg\<lparr>pairing_db := db\<rparr>"
proof (cases "pairing_db reg")
  case None
  then show ?thesis
    by (intro exI [of _ None]) (simp add: persist_request_def)
next
  case (Some st)
  show ?thesis
    by (cases "env_repo env") (auto simp: persist_request_def Some try_bind_def
        split: prod.splits sum.splits intro: exI [of _ "Some st"])
qed

lemma persist_approved_device_frame:
  "\<exists>db. fst (persist_approved_device sha sc env request resolved_at tid reg) = reg\<lparr>pairing_db := db\<rparr>"
proof (cases "pairing_db reg")
  case None
  then show ?thesis
    by (intro exI [of _ None]) (simp add: persist_approved_device_def)
next
  case (Some st)
  show ?thesis
    by (cases "env_repo env") (auto simp: persist_approved_device_def Some try_bind_def
        split: prod.splits sum.splits option.splits intro: exI [of _ "Some st"])
qed

lemma request_pairing_cases:
  obtains (known) existing where "existing \<in> set (bt_values (requests reg))"
      "same_pending device key role scopes existing"
      "request_pairing sc env device client key role scopes reg = (reg, Inr (PairingRequired existing False))"
  | (refused) db e where "request_pairing sc env device client key role scopes reg =
      (reg\<lparr>pair_nonce := pair_nonce reg + 1, pairing_db := db\<rparr>, Inl e)"
  | (created) db request where
      "request = \<lparr>pr_request_id = pairing_id_of (pair_nonce reg + 1) (env_rnd env), pr_device_id = device,
         pr_client_id = client, pr_public_key = key, pr_role = role, pr_scopes = scopes,
         pr_status = PairingPending, pr_requested_at_ms = env_now env, pr_resolved_at_ms = None,
         pr_issued_token_id = None, pr_device_token = None\<rparr>"
      "persist_request sc env request (reg\<lparr>pair_nonce := pair_nonce reg + 1\<rparr>) =
         (reg\<lparr>pair_nonce := pair_nonce reg + 1, pairing_db := db\<rparr>, Inr ())"
      "\<forall>r \<in> set (bt_values (requests reg)). \<not> same_pending device key role scopes r"
      "request_pairing sc env device client key role scopes reg =
         (reg\<lparr>pair_nonce := pair_nonce reg + 1, pairing_db := db,
              requests := bt_insert (pr_request_id request) request (requests reg)\<rparr>,
          Inr (PairingRequired request True))"
proof (cases "find (same_pending device key role scopes) (bt_values (requests reg))")
  case (Some existing)
  then have "existing \<in> set (bt_values (requests reg))" "same_pending device key role scopes existing"
    by (auto simp: find_Some_iff)
  moreover have "request_pairing sc env device client key role scopes reg = (reg, Inr (PairingRequired existing False))"
    by (simp add: request_pairing_def Some)
  ultimately show ?thesis by (rule known)
next
  case None
  define request where "request = \<lparr>pr_request_id = pairing_id_of (pair_nonce reg + 1) (env_rnd env),
      pr_device_id = device, pr_client_id = client, pr_public_key = key, pr_role = role, pr_scopes = scopes,
      pr_status = PairingPending, pr_requested_at_ms = env_now env, pr_resolved_at_ms = None,
      pr_issued_token_id = None, pr_device_token = None\<rparr>"
  obtain db where db: "fst (persist_request sc env request (reg\<lparr>pair_nonce := pair_nonce reg + 1\<rparr>)) =
      reg\<lparr>pair_nonce := pair_nonce reg + 1, pairing_db := db\<rparr>"
    using persist_request_frame [of sc env request "reg\<lparr>pair_nonce := pair_nonce reg + 1\<rparr>"] by auto
  have rp: "request_pairing sc env device client key role scopes reg =
      try_bind (persist_request sc env request (reg\<lparr>pair_nonce := pair_nonce reg + 1\<rparr>)) (\<lambda>reg2 _.
        (reg2\<lparr>requests := bt_insert (pr_request_id request) request (requests reg2)\<rparr>,
         Inr (PairingRequired request True)))"
    by (simp add: request_pairing_def None request_def Let_def)
  show ?thesis
  proof (cases "snd (persist_request sc env request (reg\<lparr>pair_nonce := pair_nonce reg + 1\<rparr>))")
    case (Inl e)
    then show ?thesis
      using refused [of db e] db rp by (simp add: try_bind_def split: prod.splits)
  next
    case (Inr u)
    then have p: "persist_request sc env request (reg\<lparr>pair_nonce := pair_nonce reg + 1\<rparr>) =
        (reg\<lparr>pair_nonce := pair_nonce reg + 1, pairing_db := db\<rparr>, Inr ())"
      using db by (metis prod.collapse unit.exhaust)
    show ?thesis
      using created [OF request_def p _ _] None rp by (simp add: p find_None_iff)
  qed
qed

lemma evaluate_connect_cases:
  obtains (invalid) e where "evaluate_connect sha sc env device client key role scopes token reg = (reg, Inl e)"
  | (known) approved where "bt_get (approved_devices reg) (trim device) = Some approved"
      "ad_public_key approved = trim key" "ad_role approved = trim role" "trimmed_scopes scopes \<subseteq> ad_scopes approved"
      "evaluate_connect sha sc env device client key role scopes token reg =
        (reg, Inr (case token of
           None \<Rightarrow> DeviceTokenRequired
         | Some t \<Rightarrow> if trim t = [] then DeviceTokenRequired
                     else if sha (trim t) = ad_token_hash approved then Authorized else DeviceTokenInvalid))"
  | (pairing) "trim device \<noteq> []" "trim client \<noteq> []" "trim key \<noteq> []" "trim role \<noteq> []"
      "evaluate_connect sha sc env device client key role scopes token reg =
        request_pairing sc env (trim device) (trim client) (trim key) (trim role) (trimmed_scopes scopes) reg"
proof (cases "trim device = [] \<or> trim client = [] \<or> trim key = [] \<or> trim role = []")
  case True
  then have "\<exists>e. evaluate_connect sha sc env device client key role scopes token reg = (reg, Inl e)"
    by (cases "trim device = []"; cases "trim client = []"; cases "trim key = []")
      (simp_all add: evaluate_connect_def required_text_def Let_def)
  then show ?thesis
    using invalid by blast
next
  case False
  then have ec: "evaluate_connect sha sc env device client key role scopes token reg =
     (case bt_get (approved_devices reg) (trim device) of
       Some approved \<Rightarrow>
         if ad_public_key approved = trim key \<and> \<not> approved_device_requires_pairing approved (trim role) (trimmed_scopes scopes) then
           (reg, Inr (case token of
           None \<Rightarrow> DeviceTokenRequired
         | Some t \<Rightarrow> if trim t = [] then DeviceTokenRequired
                     else if sha (trim t) = ad_token_hash approved then Authorized else DeviceTokenInvalid))
         else request_pairing sc env (trim device) (trim client) (trim key) (trim role) (trimmed_scopes scopes) reg
     | None \<Rightarrow> request_pairing sc env (trim device) (trim client) (trim key) (trim role) (trimmed_scopes scopes) reg)"
    by (simp add: evaluate_connect_def required_text_def Let_def split: option.split)
  show ?thesis
  proof (cases "bt_get (approved_devices reg) (trim device)")
    case None
    then show ?thesis using pairing ec False by simp
  next
    case (Some approved)
    show ?thesis
    proof (cases "ad_public_key approved = trim key
        \<and> \<not> approved_device_requires_pairing approved (trim role) (trimmed_scopes scopes)")
      case True
      then show ?thesis
        using known [OF Some] ec Some by (simp add: approved_device_requires_pairing_def split: if_splits)
    next
      case no: False
      have "evaluate_connect sha sc env device client key role scopes token reg =
          request_pairing sc env (trim device) (trim client) (trim key) (trim role) (trimmed_scopes scopes) reg"
        unfolding ec Some using no by auto
      then show ?thesis using pairing False by blast
    qed
  qed
qed

definition approve_update :: "pairing_env \<Rightarrow> pairing_registry \<Rightarrow> pairing_request \<Rightarrow> pairing_request" where
  "approve_update env reg rec =
     rec\<lparr>pr_status := PairingApproved, pr_resolved_at_ms := Some (env_now env),
         pr_issued_token_id := Some (device_token_id_of (pair_nonce reg + 1) (env_rnd env)),
         pr_device_token := Some (device_token_of (pair_nonce reg + 1 + 1) (env_rnd2 env))\<rparr>"

definition reject_update :: "pairing_env \<Rightarrow> pairing_request \<Rightarrow> pairing_request" where
  "reject_update env rec =
     rec\<lparr>pr_status := PairingRejected, pr_resolved_at_ms := Some (env_now env),
         pr_issued_token_id := None, pr_device_token := None\<rparr>"

definition approved_of :: "(string \<Rightarrow> string) \<Rightarrow> pairing_env \<Rightarrow> pairing_registry \<Rightarrow> pairing_request \<Rightarrow> approved_device" where
  "approved_of sha env reg rec =
     \<lparr>ad_device_id = pr_device_id rec, ad_public_key = pr_public_key rec, ad_role = pr_role rec,
      ad_scopes = pr_scopes rec, ad_token_id = device_token_id_of (pair_nonce reg + 1) (env_rnd env),
      ad_token_hash = sha (device_token_of (pair_nonce reg + 1 + 1) (env_rnd2 env)),
      ad_approved_at_ms = env_now env\<rparr>"

lemma resolve_request_cases:
  obtains (same) r where "resolve_request sha sc env raw approve reg = (reg, r)"
      "\<And>rec. bt_get (requests reg) (trim raw) = Some rec \<Longrightarrow> trim raw \<noteq> [] \<Longrightarrow>
         pr_status rec \<noteq> PairingPending \<and> r = Inr (Some rec)"
  | (refused) nonce db e where "resolve_request sha sc env raw approve reg =
      (reg\<lparr>pair_nonce := nonce, pairing_db := db\<rparr>, Inl e)" "nonce = pair_nonce reg \<or> nonce = pair_nonce reg + 1 + 1"
  | (approved) rec db where "trim raw \<noteq> []" "bt_get (requests reg) (trim raw) = Some rec" "pr_status rec = PairingPending"
      "persist_approved_device sha sc env (approve_update env reg rec) (env_now env)
         (device_token_id_of (pair_nonce reg + 1) (env_rnd env)) (reg\<lparr>pair_nonce := pair_nonce reg + 1 + 1\<rparr>) =
         (reg\<lparr>pair_nonce := pair_nonce reg + 1 + 1, pairing_db := db\<rparr>, Inr ())"
      "resolve_request sha sc env raw approve reg =
        (reg\<lparr>pair_nonce := pair_nonce reg + 1 + 1, pairing_db := db,
             approved_devices := bt_insert (pr_device_id rec) (approved_of sha env reg rec) (approved_devices reg),
             requests := bt_insert (trim raw) (approve_update env reg rec) (requests reg)\<rparr>,
         Inr (Some (approve_update env reg rec)))" "approve"
  | (rejected) rec db where "trim raw \<noteq> []" "bt_get (requests reg) (trim raw) = Some rec" "pr_status rec = PairingPending"
      "persist_request sc env (reject_update env rec) reg = (reg\<lparr>pairing_db := db\<rparr>, Inr ())"
      "resolve_request sha sc env raw approve reg =
        (reg\<lparr>pairing_db := db, requests := bt_insert (trim raw) (reject_update env rec) (requests reg)\<rparr>,
         Inr (Some (reject_update env rec)))" "\<not> approve"
proof (cases "trim raw = [] \<or> bt_get (requests reg) (trim raw) = None
    \<or> (\<exists>rec. bt_get (requests reg) (trim raw) = Some rec \<and> pr_status rec \<noteq> PairingPending)")
  case True
  have "fst (resolve_request sha sc env raw approve reg) = reg"
    using True by (auto simp: resolve_request_def required_text_def Let_def split: if_splits)
  moreover have "pr_status rec \<noteq> PairingPending \<and> snd (resolve_request sha sc env raw approve reg) = Inr (Some rec)"
    if "bt_get (requests reg) (trim raw) = Some rec" "trim raw \<noteq> []" for rec
    using True that by (auto simp: resolve_request_def required_text_def Let_def split: if_splits)
  ultimately show ?thesis
    using same [of "snd (resolve_request sha sc env raw approve reg)"] by (metis prod.collapse)
next
  case False
  then obtain rec where rec: "trim raw \<noteq> []" "bt_get (requests reg) (trim raw) = Some rec" "pr_status rec = PairingPending"
    by auto
  show ?thesis
  proof (cases approve)
    case True
    let ?p = "persist_approved_device sha sc env (approve_update env reg rec) (env_now env)
         (device_token_id_of (pair_nonce reg + 1) (env_rnd env)) (reg\<lparr>pair_nonce := pair_nonce reg + 1 + 1\<rparr>)"
    have r: "resolve_request sha sc env raw approve reg = try_bind ?p (\<lambda>reg3 _.
        (reg3\<lparr>approved_devices := bt_insert (pr_device_id rec) (approved_of sha env reg rec) (approved_devices reg3),
              requests := bt_insert (trim raw) (approve_update env reg rec) (requests reg3)\<rparr>,
         Inr (Some (approve_update env reg rec))))"
      using rec True by (simp add: resolve_request_def required_text_def Let_def approve_update_def approved_of_def)
    obtain db where db: "fst ?p = reg\<lparr>pair_nonce := pair_nonce reg + 1 + 1, pairing_db := db\<rparr>"
      using persist_approved_device_frame [of sha sc env "approve_update env reg rec" "env_now env"
          "device_token_id_of (pair_nonce reg + 1) (env_rnd env)" "reg\<lparr>pair_nonce := pair_nonce reg + 1 + 1\<rparr>"]
      by auto
    show ?thesis
    proof (cases "snd ?p")
      case (Inl e)
      then have "?p = (reg\<lparr>pair_nonce := pair_nonce reg + 1 + 1, pairing_db := db\<rparr>, Inl e)"
        using db by (metis prod.collapse)
      then have "resolve_request sha sc env raw approve reg =
          (reg\<lparr>pair_nonce := pair_nonce reg + 1 + 1, pairing_db := db\<rparr>, Inl e)"
        unfolding r by (simp only: try_bind_simps)
      then show ?thesis using refused by blast
    next
      case (Inr u)
      then have p: "?p = (reg\<lparr>pair_nonce := pair_nonce reg + 1 + 1, pairing_db := db\<rparr>, Inr ())"
        using db by (metis prod.collapse unit.exhaust)
      have "resolve_request sha sc env raw approve reg =
        (reg\<lparr>pair_nonce := pair_nonce reg + 1 + 1, pairing_db := db,
             approved_devices := bt_insert (pr_device_id rec) (approved_of sha env reg rec) (approved_devices reg),
             requests := bt_insert (trim raw) (approve_update env reg rec) (requests reg)\<rparr>,
         Inr (Some (approve_update env reg rec)))"
        unfolding r p by simp
      then show ?thesis using approved [OF rec p _ True] by blast
    qed
  next
    case no: False
    let ?p = "persist_request sc env (reject_update env rec) reg"
    have r: "resolve_request sha sc env raw approve reg = try_bind ?p (\<lambda>reg1 _.
        (reg1\<lparr>requests := bt_insert (trim raw) (reject_update env rec) (requests reg1)\<rparr>,
         Inr (Some (reject_update env rec))))"
      using rec no by (simp add: resolve_request_def required_text_def Let_def reject_update_def)
    obtain db where db: "fst ?p = reg\<lparr>pairing_db := db\<rparr>"
      using persist_request_frame by blast
    show ?thesis
    proof (cases "snd ?p")
      case (Inl e)
      then have "?p = (reg\<lparr>pairing_db := db\<rparr>, Inl e)"
        using db by (metis prod.collapse)
      then have "resolve_request sha sc env raw approve reg =
          (reg\<lparr>pair_nonce := pair_nonce reg, pairing_db := db\<rparr>, Inl e)"
        unfolding r by simp
      then show ?thesis using refused by blast
    next
      case (Inr u)
      then have p: "?p = (reg\<lparr>pairing_db := db\<rparr>, Inr ())"
        using db by (metis prod.collapse unit.exhaust)
      show ?thesis
        using rejected [OF rec p _ no] r by (simp add: p)
    qed
  qed
qed

end
