(* ===== verification/Pairing_Guarantees.thy ===== *)
theory Pairing_Guarantees
  imports Control_Pairing
begin

text \<open>
  What the pairing registry guarantees over every sequence of operations: a connection is
  authorised only on the strength of a request that an operator approved, a decision on a request
  is final, an operation that fails changes neither map, and the token handed out on approval opens
  the connection.
\<close>

section \<open>The invariant\<close>

definition approved_by :: "(string \<Rightarrow> string) \<Rightarrow> pairing_registry \<Rightarrow> approved_device \<Rightarrow> bool" where
  "approved_by sha reg a \<longleftrightarrow>
     (\<exists>k r tok. bt_get (requests reg) k = Some r \<and> pr_status r = PairingApproved
        \<and> pr_device_id r = ad_device_id a \<and> pr_public_key r = ad_public_key a \<and> pr_role r = ad_role a
        \<and> pr_scopes r = ad_scopes a \<and> pr_issued_token_id r = Some (ad_token_id a)
        \<and> pr_device_token r = Some tok \<and> sha tok = ad_token_hash a)"

definition pairing_ok :: "(string \<Rightarrow> string) \<Rightarrow> pairing_registry \<Rightarrow> bool" where
  "pairing_ok sha reg \<longleftrightarrow>
     bt_ok (requests reg) \<and> bt_ok (approved_devices reg)
     \<and> (\<forall>k r. bt_get (requests reg) k = Some r \<longrightarrow>
          pr_request_id r = k \<and> (\<exists>s q. k = pairing_id_of s q \<and> unat s \<le> unat (pair_nonce reg)))
     \<and> (\<forall>d a. bt_get (approved_devices reg) d = Some a \<longrightarrow> ad_device_id a = d \<and> approved_by sha reg a)"

definition decided_kept :: "pairing_registry \<Rightarrow> pairing_registry \<Rightarrow> bool" where
  "decided_kept reg reg' \<longleftrightarrow>
     (\<forall>k r. bt_get (requests reg) k = Some r \<longrightarrow> pr_status r \<noteq> PairingPending \<longrightarrow>
        bt_get (requests reg') k = Some r)"

lemma pairing_id_of_inj [simp]:
  "pairing_id_of s q = pairing_id_of s' q' \<longleftrightarrow> s = s' \<and> q = q'"
  by (auto simp: pairing_id_of_def)

lemma pairing_ids_clean [simp]:
  "trim (pairing_id_of s q) = pairing_id_of s q" "pairing_id_of s q \<noteq> []"
  "trim (device_token_id_of s q) = device_token_id_of s q" "device_token_id_of s q \<noteq> []"
  "trim (device_token_of s q) = device_token_of s q" "device_token_of s q \<noteq> []"
proof -
  have letters: "\<forall>c \<in> set ''pair-cdt''. \<not> is_ws c"
    by (simp add: is_ws_def Let_def)
  then show "trim (pairing_id_of s q) = pairing_id_of s q" "trim (device_token_id_of s q) = device_token_id_of s q"
    "trim (device_token_of s q) = device_token_of s q"
    by (auto simp: pairing_id_of_def device_token_id_of_def device_token_of_def
        intro!: trim_no_ws dest: hex16_no_ws)
qed (simp_all add: pairing_id_of_def device_token_id_of_def device_token_of_def)

lemma decided_kept_refl [simp]: "decided_kept reg reg"
  by (simp add: decided_kept_def)

lemma decided_kept_trans: "decided_kept a b \<Longrightarrow> decided_kept b c \<Longrightarrow> decided_kept a c"
  by (auto simp: decided_kept_def)

lemma approved_by_kept: "decided_kept reg reg' \<Longrightarrow> approved_by sha reg a \<Longrightarrow> approved_by sha reg' a"
  unfolding approved_by_def decided_kept_def by (metis pairing_status.distinct(1))

lemma pairing_ok_new [simp]: "pairing_ok sha pairing_registry_new"
  by (simp add: pairing_ok_def pairing_registry_new_def)

lemma pairing_ok_requestE:
  assumes "pairing_ok sha reg" "bt_get (requests reg) k = Some r"
  obtains s q where "pr_request_id r = k" "k = pairing_id_of s q" "unat s \<le> unat (pair_nonce reg)"
  using assms unfolding pairing_ok_def by blast

lemma pairing_ok_frame:
  assumes "pairing_ok sha reg" "requests reg' = requests reg" "approved_devices reg' = approved_devices reg"
    "unat (pair_nonce reg) \<le> unat (pair_nonce reg')"
  shows "pairing_ok sha reg' \<and> decided_kept reg reg'"
proof
  show kept: "decided_kept reg reg'"
    by (simp add: decided_kept_def assms(2))
  have "ad_device_id a = d \<and> approved_by sha reg' a" if "bt_get (approved_devices reg') d = Some a" for d a
    using assms(1,3) that approved_by_kept [OF kept] by (simp add: pairing_ok_def)
  moreover have "pr_request_id r = k \<and> (\<exists>s q. k = pairing_id_of s q \<and> unat s \<le> unat (pair_nonce reg'))"
    if "bt_get (requests reg') k = Some r" for k r
  proof -
    have "bt_get (requests reg) k = Some r"
      using that assms(2) by simp
    then obtain s q where "pr_request_id r = k" "k = pairing_id_of s q" "unat s \<le> unat (pair_nonce reg)"
      by (rule pairing_ok_requestE [OF assms(1)])
    then show ?thesis
      using assms(4) le_trans by blast
  qed
  moreover have "bt_ok (requests reg')" "bt_ok (approved_devices reg')"
    using assms(1-3) by (simp_all add: pairing_ok_def)
  ultimately show "pairing_ok sha reg'"
    unfolding pairing_ok_def by blast
qed

text \<open>Writing one request, and possibly the device it approves, keeps the invariant.\<close>

lemma pairing_ok_write:
  assumes ok: "pairing_ok sha reg"
    and req: "requests reg' = bt_insert k r (requests reg)" "pr_request_id r = k"
    and k: "k = pairing_id_of s q" "unat s \<le> unat (pair_nonce reg')" "unat (pair_nonce reg) \<le> unat (pair_nonce reg')"
    and old: "\<And>r0. bt_get (requests reg) k = Some r0 \<Longrightarrow> pr_status r0 = PairingPending"
    and dev: "approved_devices reg' = approved_devices reg \<or>
      (\<exists>a. approved_devices reg' = bt_insert (ad_device_id a) a (approved_devices reg) \<and> approved_by sha reg' a)"
  shows "pairing_ok sha reg' \<and> decided_kept reg reg'"
proof
  have bt: "bt_ok (requests reg)" "bt_ok (approved_devices reg)"
    using ok by (auto simp: pairing_ok_def)
  show kept: "decided_kept reg reg'"
    using old by (auto simp: decided_kept_def req bt_get_insert [OF bt(1)])
  have "pr_request_id r' = k' \<and> (\<exists>s q. k' = pairing_id_of s q \<and> unat s \<le> unat (pair_nonce reg'))"
    if "bt_get (requests reg') k' = Some r'" for k' r'
  proof (cases "k' = k")
    case True
    then show ?thesis
      using that req k by (auto simp: bt_get_insert [OF bt(1)])
  next
    case False
    then have "bt_get (requests reg) k' = Some r'"
      using that by (simp add: req bt_get_insert [OF bt(1)])
    then obtain s q where "pr_request_id r' = k'" "k' = pairing_id_of s q" "unat s \<le> unat (pair_nonce reg)"
      by (rule pairing_ok_requestE [OF ok])
    then show ?thesis
      using k(3) le_trans by blast
  qed
  moreover have "ad_device_id a = d \<and> approved_by sha reg' a" if "bt_get (approved_devices reg') d = Some a" for d a
    using dev
  proof
    assume "approved_devices reg' = approved_devices reg"
    then show ?thesis
      using ok that approved_by_kept [OF kept] by (simp add: pairing_ok_def)
  next
    assume "\<exists>a. approved_devices reg' = bt_insert (ad_device_id a) a (approved_devices reg) \<and> approved_by sha reg' a"
    then obtain a' where a': "approved_devices reg' = bt_insert (ad_device_id a') a' (approved_devices reg)"
      "approved_by sha reg' a'" by blast
    then show ?thesis
      using ok that approved_by_kept [OF kept]
      by (cases "d = ad_device_id a'") (auto simp: pairing_ok_def bt_get_insert [OF bt(2)])
  qed
  moreover have "bt_ok (requests reg')" "bt_ok (approved_devices reg')"
    using bt dev by (auto simp: req bt_ok_insert)
  ultimately show "pairing_ok sha reg'"
    unfolding pairing_ok_def by blast
qed

definition pairing_step_ok :: "(string \<Rightarrow> string) \<Rightarrow> pairing_registry \<Rightarrow> pairing_registry \<Rightarrow> bool" where
  "pairing_step_ok sha reg reg' \<longleftrightarrow>
     pairing_ok sha reg' \<and> decided_kept reg reg' \<and> unat (pair_nonce reg') \<le> unat (pair_nonce reg) + 2"

lemma pairing_nonce_room:
  assumes "unat (w :: u64) + 2 < 2 ^ 64"
  shows "unat (w + 1) = Suc (unat w)" "unat (w + 1 + 1) = Suc (Suc (unat w))"
proof -
  show 1: "unat (w + 1) = Suc (unat w)"
    by (rule unat_inc_below [of w "unat w"]) (use assms in auto)
  show "unat (w + 1 + 1) = Suc (Suc (unat w))"
    using unat_inc_below [of "w + 1" "Suc (unat w)"] assms 1 by auto
qed

lemma request_pairing_step:
  assumes ok: "pairing_ok sha reg" and room: "unat (pair_nonce reg) + 2 < 2 ^ 64"
  shows "pairing_step_ok sha reg (fst (request_pairing sc env device client key role scopes reg))"
proof (cases rule: request_pairing_cases [of reg device key role scopes sc env client])
  case (known existing)
  then show ?thesis using ok by (simp add: pairing_step_ok_def)
next
  case (refused db e)
  then show ?thesis
    using pairing_ok_frame [OF ok, of "fst (request_pairing sc env device client key role scopes reg)"]
      pairing_nonce_room [OF room] by (simp add: pairing_step_ok_def)
next
  case (created db request)
  let ?reg' = "fst (request_pairing sc env device client key role scopes reg)"
  have fresh: "pr_status r0 = PairingPending" if r0: "bt_get (requests reg) (pr_request_id request) = Some r0" for r0
  proof -
    obtain s q where "pr_request_id request = pairing_id_of s q" "unat s \<le> unat (pair_nonce reg)"
      using pairing_ok_requestE [OF ok r0] by blast
    then show ?thesis
      using created(1) pairing_nonce_room [OF room] by simp
  qed
  have "pairing_ok sha ?reg' \<and> decided_kept reg ?reg'"
    by (rule pairing_ok_write [OF ok, where k = "pr_request_id request" and r = request
          and s = "pair_nonce reg + 1" and q = "env_rnd env"])
      (use pairing_nonce_room [OF room] fresh created(1,4) in simp_all)
  then show ?thesis
    using pairing_nonce_room [OF room] created(4) by (simp add: pairing_step_ok_def)
qed

lemma evaluate_connect_step:
  assumes ok: "pairing_ok sha reg" and room: "unat (pair_nonce reg) + 2 < 2 ^ 64"
  shows "pairing_step_ok sha reg (fst (evaluate_connect sha sc env device client key role scopes token reg))"
proof (cases rule: evaluate_connect_cases [of sha sc env device client key role scopes token reg])
  case (pairing)
  then show ?thesis using request_pairing_step [OF ok room] by simp
qed (use ok in \<open>simp_all add: pairing_step_ok_def\<close>)

lemma resolve_request_step:
  assumes ok: "pairing_ok sha reg" and room: "unat (pair_nonce reg) + 2 < 2 ^ 64"
  shows "pairing_step_ok sha reg (fst (resolve_request sha sc env raw approve reg))"
proof (cases rule: resolve_request_cases [of sha sc env raw approve reg])
  case (same r)
  then show ?thesis using ok by (simp add: pairing_step_ok_def)
next
  case (refused nonce db e)
  then show ?thesis
    using pairing_ok_frame [OF ok, of "fst (resolve_request sha sc env raw approve reg)"]
      pairing_nonce_room [OF room] by (auto simp: pairing_step_ok_def)
next
  case (approved rec db)
  let ?reg' = "fst (resolve_request sha sc env raw approve reg)"
  obtain s q where rec: "pr_request_id rec = trim raw" "trim raw = pairing_id_of s q" "unat s \<le> unat (pair_nonce reg)"
    using pairing_ok_requestE [OF ok approved(2)] by blast
  have bt: "bt_ok (requests reg)"
    using ok by (simp add: pairing_ok_def)
  have "approved_by sha ?reg' (approved_of sha env reg rec)"
    unfolding approved_by_def
    by (rule exI [of _ "trim raw"], rule exI [of _ "approve_update env reg rec"],
        rule exI [of _ "device_token_of (pair_nonce reg + 1 + 1) (env_rnd2 env)"])
      (simp add: approved(5) approve_update_def approved_of_def bt_get_insert [OF bt])
  then have dev: "\<exists>a. approved_devices ?reg' = bt_insert (ad_device_id a) a (approved_devices reg) \<and> approved_by sha ?reg' a"
    by (intro exI [of _ "approved_of sha env reg rec"] conjI) (simp_all add: approved(5) approved_of_def)
  have "pairing_ok sha ?reg' \<and> decided_kept reg ?reg'"
    by (rule pairing_ok_write [OF ok _ _ rec(2) _ _ _ disjI2 [OF dev], where r = "approve_update env reg rec"])
      (use pairing_nonce_room [OF room] approved(2,3,5) rec(1,3) in \<open>simp_all add: approve_update_def\<close>)
  then show ?thesis
    using pairing_nonce_room [OF room] approved(5) by (simp add: pairing_step_ok_def)
next
  case (rejected rec db)
  let ?reg' = "fst (resolve_request sha sc env raw approve reg)"
  obtain s q where rec: "pr_request_id rec = trim raw" "trim raw = pairing_id_of s q" "unat s \<le> unat (pair_nonce reg)"
    using pairing_ok_requestE [OF ok rejected(2)] by blast
  have "pairing_ok sha ?reg' \<and> decided_kept reg ?reg'"
    by (rule pairing_ok_write [OF ok, where k = "trim raw" and r = "reject_update env rec" and s = s and q = q])
      (use rejected rec in \<open>simp_all add: reject_update_def\<close>)
  then show ?thesis
    using rejected(5) by (simp add: pairing_step_ok_def)
qed

section \<open>Runs\<close>

lemma pairing_apply_fst:
  "fst (pairing_apply sha sc (EvaluateConnect env device client key role scopes token) reg) =
     fst (evaluate_connect sha sc env device client key role scopes token reg)"
  "fst (pairing_apply sha sc (ResolveRequest env rid approve) reg) = fst (resolve_request sha sc env rid approve reg)"
  by (simp_all add: try_bind_def split: prod.split sum.split)

lemma pairing_run_simps [simp]:
  "pairing_run sha sc [] reg = reg"
  "pairing_run sha sc (op # ops) reg = pairing_run sha sc ops (fst (pairing_apply sha sc op reg))"
  "pairing_run sha sc (ops @ later) reg = pairing_run sha sc later (pairing_run sha sc ops reg)"
  by (simp_all add: pairing_run_def)

lemma pairing_apply_step:
  "pairing_ok sha reg \<Longrightarrow> unat (pair_nonce reg) + 2 < 2 ^ 64 \<Longrightarrow>
     pairing_step_ok sha reg (fst (pairing_apply sha sc op reg))"
  by (cases op) (simp_all add: pairing_apply_fst evaluate_connect_step resolve_request_step del: pairing_apply.simps)

lemma pairing_run_ok:
  assumes "pairing_ok sha reg" "unat (pair_nonce reg) + 2 * length ops < 2 ^ 64"
  shows "pairing_ok sha (pairing_run sha sc ops reg) \<and> decided_kept reg (pairing_run sha sc ops reg)
    \<and> unat (pair_nonce (pairing_run sha sc ops reg)) \<le> unat (pair_nonce reg) + 2 * length ops"
  using assms
proof (induction ops arbitrary: reg)
  case (Cons op ops)
  let ?reg = "fst (pairing_apply sha sc op reg)"
  have "pairing_step_ok sha reg ?reg"
    by (rule pairing_apply_step) (use Cons.prems in auto)
  then have step: "pairing_ok sha ?reg" "decided_kept reg ?reg" "unat (pair_nonce ?reg) \<le> unat (pair_nonce reg) + 2"
    by (auto simp: pairing_step_ok_def)
  have "unat (pair_nonce ?reg) + 2 * length ops < 2 ^ 64"
    using step(3) Cons.prems(2) by simp
  then show ?case
    using Cons.IH [OF step(1)] step(2,3) decided_kept_trans by fastforce
qed simp

lemma pairing_run_new:
  assumes "2 * length ops < 2 ^ 64"
  shows "pairing_ok sha (pairing_run sha sc ops pairing_registry_new)
    \<and> unat (pair_nonce (pairing_run sha sc ops pairing_registry_new)) \<le> 2 * length ops"
proof -
  have "unat (pair_nonce pairing_registry_new) = 0"
    by (simp add: pairing_registry_new_def)
  then show ?thesis
    using pairing_run_ok [OF pairing_ok_new [of sha], of ops sc] assms by simp
qed

text \<open>How a registry starts: empty and without a store, or from what its store holds.\<close>

definition starts :: "scope_codec \<Rightarrow> pairing_env \<Rightarrow> pairing_store \<Rightarrow> pairing_registry \<Rightarrow> bool" where
  "starts sc env0 st reg \<longleftrightarrow> reg = pairing_registry_new \<or> with_memory_config sc env0 st = Inr reg"

definition maps_ok :: "pairing_registry \<Rightarrow> bool" where
  "maps_ok reg \<longleftrightarrow> bt_ok (requests reg) \<and> bt_ok (approved_devices reg)"

lemma bt_fold_ok: "bt_ok m \<Longrightarrow> bt_ok (fold (\<lambda>x. bt_insert (key x) x) xs m)"
  by (induction xs arbitrary: m) (simp_all add: bt_ok_insert)

lemma bt_fold_get:
  "bt_ok m \<Longrightarrow> bt_get (fold (\<lambda>x. bt_insert (key x) x) xs m) k = Some x \<Longrightarrow>
     bt_get m k = Some x \<or> x \<in> set xs \<and> key x = k"
proof (induction xs arbitrary: m)
  case (Cons y ys)
  have "bt_get (fold (\<lambda>x. bt_insert (key x) x) ys (bt_insert (key y) y m)) k = Some x"
    using Cons.prems(2) by simp
  from Cons.IH [OF bt_ok_insert [OF Cons.prems(1)] this] show ?case
    by (auto simp: bt_get_insert [OF Cons.prems(1)] split: if_splits)
qed simp

lemma with_memory_config_Inr:
  assumes "with_memory_config sc env0 st = Inr reg"
  obtains rs ds where "list_device_tokens sc (env_io2 env0) st = Inr ds"
    "requests reg = fold (\<lambda>r. bt_insert (pr_request_id r) r) (map request_from_persisted rs) bt_empty"
    "approved_devices reg = fold (\<lambda>d. bt_insert (ad_device_id d) d)
       (map approved_device_from_persisted ds) bt_empty"
proof -
  from assms obtain rs ds where ds: "list_device_tokens sc (env_io2 env0) st = Inr ds" and "reg =
      \<lparr>pair_nonce = 0,
       requests = fold (\<lambda>r. bt_insert (pr_request_id r) r) (map request_from_persisted rs) bt_empty,
       approved_devices = fold (\<lambda>d. bt_insert (ad_device_id d) d) (map approved_device_from_persisted ds) bt_empty,
       pairing_db = Some st\<rparr>"
    unfolding with_memory_config_def and_then_Inr sum.inject by blast
  then show thesis
    by (intro that [OF ds, of rs]) simp_all
qed

lemma starts_ok:
  assumes "starts sc env0 st reg"
  shows "maps_ok reg"
  using assms unfolding starts_def
proof
  assume "with_memory_config sc env0 st = Inr reg"
  then obtain rs ds where
      "requests reg = fold (\<lambda>r. bt_insert (pr_request_id r) r) (map request_from_persisted rs) bt_empty"
      "approved_devices reg = fold (\<lambda>d. bt_insert (ad_device_id d) d)
         (map approved_device_from_persisted ds) bt_empty"
    by (rule with_memory_config_Inr)
  then show ?thesis
    by (simp only: maps_ok_def bt_fold_ok [OF bt_empty_ok(1)] simp_thms)
qed (simp add: maps_ok_def pairing_registry_new_def)

lemma starts_devices:
  assumes "starts sc env0 st reg" and "bt_get (approved_devices reg) device = Some a"
  shows "ad_device_id a = device \<and> (\<exists>row d. with_memory_config sc env0 st = Inr reg
    \<and> row \<in> set (device_rows st) \<and> device_from_raw sc row = Inr d \<and> a = approved_device_from_persisted d)"
  using assms(1) unfolding starts_def
proof
  assume w: "with_memory_config sc env0 st = Inr reg"
  then obtain ds where ds: "list_device_tokens sc (env_io2 env0) st = Inr ds"
      "approved_devices reg = fold (\<lambda>d. bt_insert (ad_device_id d) d)
         (map approved_device_from_persisted ds) bt_empty"
    by (rule with_memory_config_Inr)
  have "a \<in> set (map approved_device_from_persisted ds) \<and> ad_device_id a = device"
    using bt_fold_get [OF bt_empty_ok(1) assms(2) [unfolded ds(2)]] by (simp only: bt_empty_ok(2)) simp
  then obtain d where d: "d \<in> set ds" "a = approved_device_from_persisted d" "ad_device_id a = device"
    by auto
  from list_device_tokens_decoded [OF ds(1) d(1)] d w show ?thesis by blast
qed (use assms(2) in \<open>simp add: pairing_registry_new_def\<close>)

text \<open>
  A device enters the map of approved devices only by an approving resolution of a pending
  request, with the fields of that request and the hash of the token in the answer.
\<close>

definition approval ::
    "(string \<Rightarrow> string) \<Rightarrow> scope_codec \<Rightarrow> pairing_registry \<Rightarrow> pairing_op \<Rightarrow> approved_device \<Rightarrow> bool" where
  "approval sha sc reg op a \<longleftrightarrow>
     (\<exists>env raw rec reg' rec' tok. op = ResolveRequest env raw True
        \<and> bt_get (requests reg) (trim raw) = Some rec \<and> pr_status rec = PairingPending
        \<and> resolve_request sha sc env raw True reg = (reg', Inr (Some rec'))
        \<and> pr_device_token rec' = Some tok \<and> ad_token_hash a = sha tok
        \<and> pr_device_id rec = ad_device_id a \<and> pr_public_key rec = ad_public_key a
        \<and> pr_role rec = ad_role a \<and> pr_scopes rec = ad_scopes a)"

lemma approve_update_simps:
  "pr_device_token (approve_update env reg rec)
     = Some (device_token_of (pair_nonce reg + 1 + 1) (env_rnd2 env))"
  by (simp add: approve_update_def)

lemma pairing_apply_maps:
  assumes "maps_ok reg"
  shows "maps_ok (fst (pairing_apply sha sc op reg))"
proof (cases op)
  case (EvaluateConnect env device client key role scopes token)
  have "maps_ok (fst (evaluate_connect sha sc env device client key role scopes token reg))"
  proof (cases rule: evaluate_connect_cases [of sha sc env device client key role scopes token reg])
    case pairing
    then show ?thesis
      using assms by (cases rule: request_pairing_cases [of reg "trim device" "trim key" "trim role"
          "trimmed_scopes scopes" sc env "trim client"]) (auto simp: maps_ok_def bt_ok_insert)
  qed (use assms in simp_all)
  with EvaluateConnect show ?thesis by (simp add: pairing_apply_fst del: pairing_apply.simps)
next
  case (ResolveRequest env raw approve)
  have "maps_ok (fst (resolve_request sha sc env raw approve reg))"
    by (cases rule: resolve_request_cases [of sha sc env raw approve reg])
      (use assms in \<open>auto simp: maps_ok_def bt_ok_insert\<close>)
  with ResolveRequest show ?thesis by (simp add: pairing_apply_fst del: pairing_apply.simps)
qed

lemma pairing_run_maps: "maps_ok reg \<Longrightarrow> maps_ok (pairing_run sha sc ops reg)"
  by (induction ops arbitrary: reg) (simp_all add: pairing_apply_maps)

lemma pairing_apply_devices:
  assumes "maps_ok reg" "bt_get (approved_devices (fst (pairing_apply sha sc op reg))) d = Some a"
  shows "bt_get (approved_devices reg) d = Some a \<or> approval sha sc reg op a \<and> ad_device_id a = d"
proof (cases op)
  case (EvaluateConnect env device client key role scopes token)
  have "approved_devices (fst (evaluate_connect sha sc env device client key role scopes token reg))
      = approved_devices reg"
  proof (cases rule: evaluate_connect_cases [of sha sc env device client key role scopes token reg])
    case pairing
    then show ?thesis
      by (cases rule: request_pairing_cases [of reg "trim device" "trim key" "trim role"
          "trimmed_scopes scopes" sc env "trim client"]) auto
  qed simp_all
  with EvaluateConnect assms(2) show ?thesis by (simp add: pairing_apply_fst del: pairing_apply.simps)
next
  case (ResolveRequest env raw approve)
  then have e: "bt_get (approved_devices (fst (resolve_request sha sc env raw approve reg))) d = Some a"
    using assms(2) by (simp add: pairing_apply_fst del: pairing_apply.simps)
  have bt: "bt_ok (approved_devices reg)" using assms(1) by (simp add: maps_ok_def)
  show ?thesis
  proof (cases rule: resolve_request_cases [of sha sc env raw approve reg])
    case (approved rec db)
    have "approval sha sc reg op (approved_of sha env reg rec)"
      unfolding approval_def
      by (rule exI [of _ env], rule exI [of _ raw], rule exI [of _ rec],
          rule exI [of _ "fst (resolve_request sha sc env raw approve reg)"],
          rule exI [of _ "approve_update env reg rec"],
          rule exI [of _ "device_token_of (pair_nonce reg + 1 + 1) (env_rnd2 env)"])
        (use approved(2,3,5,6) ResolveRequest in \<open>simp add: approve_update_simps approved_of_def\<close>)
    moreover have "ad_device_id (approved_of sha env reg rec) = pr_device_id rec"
      by (simp add: approved_of_def)
    ultimately show ?thesis
      using e approved(5) by (auto simp: bt_get_insert [OF bt] split: if_splits)
  qed (use e in simp_all)
qed

lemma approved_in_run:
  assumes "maps_ok reg" "bt_get (approved_devices (pairing_run sha sc ops reg)) d = Some a"
  shows "bt_get (approved_devices reg) d = Some a
    \<or> (\<exists>before op after. ops = before @ op # after \<and> approval sha sc (pairing_run sha sc before reg) op a
         \<and> ad_device_id a = d)"
  using assms(2)
proof (induction ops rule: rev_induct)
  case (snoc op ops)
  then have "bt_get (approved_devices (fst (pairing_apply sha sc op (pairing_run sha sc ops reg)))) d = Some a"
    by simp
  from pairing_apply_devices [OF pairing_run_maps [OF assms(1)] this] show ?case
  proof
    assume "bt_get (approved_devices (pairing_run sha sc ops reg)) d = Some a"
    from snoc.IH [OF this] show ?thesis by (metis append.assoc append_Cons)
  qed blast
qed simp

section \<open>A small history\<close>

text \<open>
  One device asks to be paired and is approved; the registry has no store.  The witnesses below
  evaluate the operations on it.
\<close>

definition demo_io :: store_io where
  "demo_io = \<lparr>io_open = None, io_transaction = None, io_statement = None, io_token = None, io_commit = None,
     io_load_open = None, io_load = None, io_rows = []\<rparr>"

definition demo_env :: pairing_env where
  "demo_env = \<lparr>env_now = 5, env_db_now = 5, env_rnd = 7, env_rnd2 = 9, env_repo = None,
     env_io = demo_io, env_io2 = demo_io\<rparr>"

definition demo_codec :: scope_codec where
  "demo_codec = \<lparr>scopes_to_string = (\<lambda>_. Inl ''unused''), scopes_from_str = (\<lambda>_. Inl ''unused'')\<rparr>"

definition demo_ops :: "pairing_op list" where
  "demo_ops = [EvaluateConnect demo_env ''dev'' ''cli'' ''key'' ''operator'' {''read''} None,
               ResolveRequest demo_env (pairing_id_of 1 7) True]"

definition demo_registry :: "pairing_op list \<Rightarrow> pairing_registry" where
  "demo_registry ops = pairing_run (\<lambda>s. s) demo_codec ops pairing_registry_new"

section \<open>The guarantees\<close>

text \<open>
  C10: a connection is authorised only on the strength of an approval.  Take a registry that starts
  empty or from its store, after any operations.  When it authorises a connection, a token was
  presented, and either an approving resolution of a pending request among the operations issued a
  token with the same hash, for that device, key and role and for scopes that cover those asked
  for; or the registry started from a store with a row of device tokens for that device, key and
  role, scopes that cover those asked for, and the hash of the token presented.
\<close>

theorem authorized_only_by_approval:
  assumes start: "starts sc env0 st reg0"
    and reg: "reg = pairing_run sha sc ops reg0"
    and auth: "evaluate_connect sha sc env device client key role scopes token reg = (reg', Inr Authorized)"
  shows "\<exists>t a. token = Some t \<and> sha (trim t) = ad_token_hash a
    \<and> ad_device_id a = trim device \<and> ad_public_key a = trim key \<and> ad_role a = trim role
    \<and> trimmed_scopes scopes \<subseteq> ad_scopes a
    \<and> ((\<exists>before op after. ops = before @ op # after \<and> approval sha sc (pairing_run sha sc before reg0) op a)
       \<or> (\<exists>row d. with_memory_config sc env0 st = Inr reg0 \<and> row \<in> set (device_rows st)
            \<and> device_from_raw sc row = Inr d \<and> a = approved_device_from_persisted d))"
proof (cases rule: evaluate_connect_cases [of sha sc env device client key role scopes token reg])
  case (invalid e)
  then show ?thesis using auth by simp
next
  case pairing
  then show ?thesis
    using auth by (cases rule: request_pairing_cases [of reg "trim device" "trim key" "trim role"
          "trimmed_scopes scopes" sc env "trim client"]) simp_all
next
  case (known a)
  then obtain t where t: "token = Some t" "sha (trim t) = ad_token_hash a"
    using auth by (auto split: option.splits if_splits)
  from approved_in_run [OF starts_ok [OF start] known(1) [unfolded reg]]
    starts_devices [OF start, of "trim device" a]
  have "ad_device_id a = trim device
    \<and> ((\<exists>before op after. ops = before @ op # after \<and> approval sha sc (pairing_run sha sc before reg0) op a)
       \<or> (\<exists>row d. with_memory_config sc env0 st = Inr reg0 \<and> row \<in> set (device_rows st)
            \<and> device_from_raw sc row = Inr d \<and> a = approved_device_from_persisted d))"
    by blast
  with t known(2-4) show ?thesis by blast
qed

theorem authorized_only_by_approval_witness:
  "\<exists>a before op after. demo_ops = before @ op # after \<and> ad_device_id a = ''dev''
     \<and> approval (\<lambda>s. s) demo_codec (demo_registry before) op a"
proof -
  have "snd (evaluate_connect (\<lambda>s. s) demo_codec demo_env ''dev'' ''cli'' ''key'' ''operator'' {''read''}
      (Some (device_token_of 3 9)) (demo_registry demo_ops)) = Inr Authorized"
    by code_simp
  then have auth: "evaluate_connect (\<lambda>s. s) demo_codec demo_env ''dev'' ''cli'' ''key'' ''operator'' {''read''}
      (Some (device_token_of 3 9)) (demo_registry demo_ops) =
    (fst (evaluate_connect (\<lambda>s. s) demo_codec demo_env ''dev'' ''cli'' ''key'' ''operator'' {''read''}
      (Some (device_token_of 3 9)) (demo_registry demo_ops)), Inr Authorized)"
    by (metis prod.collapse)
  let ?st = "\<lparr>pairing_rows = [], device_rows = []\<rparr>"
  have start: "starts demo_codec demo_env ?st pairing_registry_new"
    by (simp add: starts_def)
  have "trim ''dev'' = ''dev''"
    by code_simp
  with authorized_only_by_approval [OF start demo_registry_def auth] show ?thesis
    unfolding demo_registry_def by auto
qed

text \<open>An operation that does not draw the identifier of a decided request keeps its record.\<close>

definition draws :: "string \<Rightarrow> pairing_op \<Rightarrow> bool" where
  "draws rid op = (case op of
     EvaluateConnect env _ _ _ _ _ _ \<Rightarrow> suffix (hex16 (env_rnd env)) rid | ResolveRequest _ _ _ \<Rightarrow> False)"

lemma pairing_apply_keeps_decided:
  assumes "maps_ok reg" "bt_get (requests reg) rid = Some rec" "pr_status rec \<noteq> PairingPending" "\<not> draws rid op"
  shows "bt_get (requests (fst (pairing_apply sha sc op reg))) rid = Some rec"
proof (cases op)
  case (EvaluateConnect env device client key role scopes token)
  have bt: "bt_ok (requests reg)" using assms(1) by (simp add: maps_ok_def)
  have new: "rid \<noteq> pairing_id_of n (env_rnd env)" for n
    using assms(4) EvaluateConnect by (auto simp: draws_def pairing_id_of_def suffix_def)
  have "bt_get (requests (fst (evaluate_connect sha sc env device client key role scopes token reg))) rid = Some rec"
  proof (cases rule: evaluate_connect_cases [of sha sc env device client key role scopes token reg])
    case pairing
    then show ?thesis
      by (cases rule: request_pairing_cases [of reg "trim device" "trim key" "trim role"
          "trimmed_scopes scopes" sc env "trim client"])
        (use assms(2) new in \<open>simp_all add: bt_get_insert [OF bt]\<close>)
  qed (use assms(2) in simp_all)
  with EvaluateConnect show ?thesis by (simp add: pairing_apply_fst del: pairing_apply.simps)
next
  case (ResolveRequest env raw approve)
  have bt: "bt_ok (requests reg)" using assms(1) by (simp add: maps_ok_def)
  have "bt_get (requests (fst (resolve_request sha sc env raw approve reg))) rid = Some rec"
    by (cases rule: resolve_request_cases [of sha sc env raw approve reg])
      (use assms(2,3) in \<open>auto simp: bt_get_insert [OF bt]\<close>)
  with ResolveRequest show ?thesis by (simp add: pairing_apply_fst del: pairing_apply.simps)
qed

lemma pairing_run_keeps_decided:
  "maps_ok reg \<Longrightarrow> bt_get (requests reg) rid = Some rec \<Longrightarrow> pr_status rec \<noteq> PairingPending \<Longrightarrow>
     list_all (\<lambda>op. \<not> draws rid op) ops \<Longrightarrow> bt_get (requests (pairing_run sha sc ops reg)) rid = Some rec"
  by (induction ops arbitrary: reg) (simp_all add: pairing_apply_maps pairing_apply_keeps_decided)

text \<open>
  C26: a decision on a pairing request is final.  In a registry that started empty, whatever
  operations follow (up to the range of the nonce), the record stays as it was decided, and resolving
  it again, either way, answers with it and changes nothing.  A registry that starts from its store
  restarts the nonce, so there the same holds as long as no later connection draws a random component
  that ends the identifier of the decided request.
\<close>

theorem pairing_decision_is_final:
  assumes start: "starts sc env0 st reg0" and reg: "reg = pairing_run sha sc ops reg0"
    and fresh: "(reg0 = pairing_registry_new \<and> 2 * length (ops @ later) < 2 ^ 64)
      \<or> list_all (\<lambda>op. \<not> draws rid op) later"
    and rec: "bt_get (requests reg) rid = Some rec" "pr_status rec \<noteq> PairingPending"
    and end_reg: "end_reg = pairing_run sha sc later reg"
  shows "bt_get (requests end_reg) rid = Some rec
    \<and> (rid \<noteq> [] \<and> trim raw = rid \<longrightarrow> resolve_request sha sc env raw approve end_reg = (end_reg, Inr (Some rec)))"
proof -
  have maps: "maps_ok reg"
    unfolding reg by (rule pairing_run_maps [OF starts_ok [OF start]])
  from fresh have kept: "bt_get (requests end_reg) rid = Some rec"
  proof
    assume new: "reg0 = pairing_registry_new \<and> 2 * length (ops @ later) < 2 ^ 64"
    then have "2 * length ops < 2 ^ 64" by simp
    from pairing_run_new [OF this, of sha sc] new
    have ok: "pairing_ok sha reg" and "unat (pair_nonce reg) \<le> 2 * length ops"
      by (simp_all add: reg)
    then have "decided_kept reg end_reg"
      using pairing_run_ok [OF ok, of later sc] new by (simp add: end_reg)
    then show ?thesis using rec by (simp add: decided_kept_def)
  next
    assume "list_all (\<lambda>op. \<not> draws rid op) later"
    then show ?thesis unfolding end_reg by (rule pairing_run_keeps_decided [OF maps rec])
  qed
  moreover have "resolve_request sha sc env raw approve end_reg = (end_reg, Inr (Some rec))"
    if "rid \<noteq> []" "trim raw = rid"
    using kept rec(2) that by (simp add: resolve_request_def required_text_def)
  ultimately show ?thesis by blast
qed

theorem pairing_decision_is_final_witness:
  "\<exists>rec. resolve_request (\<lambda>s. s) demo_codec demo_env (pairing_id_of 1 7) False (demo_registry demo_ops) =
      (demo_registry demo_ops, Inr (Some rec)) \<and> pr_status rec = PairingApproved"
proof -
  have "map_option pr_status (bt_get (requests (demo_registry demo_ops)) (pairing_id_of 1 7)) = Some PairingApproved"
    by code_simp
  then obtain rec where rec: "bt_get (requests (demo_registry demo_ops)) (pairing_id_of 1 7) = Some rec"
    "pr_status rec = PairingApproved" by auto
  let ?st = "\<lparr>pairing_rows = [], device_rows = []\<rparr>"
  have start: "starts demo_codec demo_env ?st pairing_registry_new"
    by (simp add: starts_def)
  show ?thesis
    using pairing_decision_is_final [OF start demo_registry_def [of demo_ops], of "[]" "pairing_id_of 1 7" rec
        "demo_registry demo_ops" "pairing_id_of 1 7" demo_env False] rec
    by (auto simp: demo_ops_def)
qed

text \<open>
  An operation that reports an error has changed neither the requests nor the approved
  devices, whichever call of the store failed.
\<close>

theorem failed_pairing_changes_nothing:
  assumes "pairing_apply sha sc op reg = (reg', Inl e)"
  shows "requests reg' = requests reg \<and> approved_devices reg' = approved_devices reg"
proof (rule pairing_op.exhaust [of op])
  fix env device client key role scopes token
  assume op: "op = EvaluateConnect env device client key role scopes token"
  then have e: "evaluate_connect sha sc env device client key role scopes token reg = (reg', Inl e)"
    using assms by (simp add: try_bind_Inl)
  show ?thesis
  proof (cases rule: evaluate_connect_cases [of sha sc env device client key role scopes token reg])
    case pairing
    then show ?thesis
      using e by (cases rule: request_pairing_cases [of reg "trim device" "trim key" "trim role"
          "trimmed_scopes scopes" sc env "trim client"]) auto
  qed (use e in simp_all)
next
  fix env raw approve
  assume op: "op = ResolveRequest env raw approve"
  then have e: "resolve_request sha sc env raw approve reg = (reg', Inl e)"
    using assms by (simp add: try_bind_Inl)
  show ?thesis
    by (cases rule: resolve_request_cases [of sha sc env raw approve reg]) (use e in auto)
qed

theorem failed_pairing_changes_nothing_witness:
  "\<exists>reg'. pairing_apply (\<lambda>s. s) demo_codec
      (EvaluateConnect demo_env ''dev'' ''cli'' ''key'' ''operator'' {} None)
      (pairing_registry_new\<lparr>pairing_db := Some \<lparr>pairing_rows = [], device_rows = []\<rparr>\<rparr>) =
      (reg', Inl ''encode control-plane scope set failed: unused'')
    \<and> requests reg' = []"
proof -
  let ?op = "EvaluateConnect demo_env ''dev'' ''cli'' ''key'' ''operator'' {} None"
  let ?reg = "pairing_registry_new\<lparr>pairing_db := Some \<lparr>pairing_rows = [], device_rows = []\<rparr>\<rparr>"
  have "snd (pairing_apply (\<lambda>s. s) demo_codec ?op ?reg) = Inl ''encode control-plane scope set failed: unused''"
    by code_simp
  then obtain reg' where "pairing_apply (\<lambda>s. s) demo_codec ?op ?reg =
      (reg', Inl ''encode control-plane scope set failed: unused'')"
    by (metis prod.collapse)
  with failed_pairing_changes_nothing [OF this] show ?thesis
    by (simp add: pairing_registry_new_def bt_empty_def)
qed

text \<open>
  C27: the token handed out on approval opens the connection: after a pending request is approved,
  its device connecting with its key and role, scopes within the approved ones and that token is
  authorised.
\<close>

theorem issued_token_opens_connection:
  assumes "bt_ok (approved_devices reg)"
    and "bt_get (requests reg) (trim raw) = Some rec" "pr_status rec = PairingPending"
    and "resolve_request sha sc env raw True reg = (reg', Inr (Some rec'))"
    and "pr_device_token rec' = Some (trim t)"
    and "trim device = pr_device_id rec" "trim key = pr_public_key rec" "trim role = pr_role rec"
    and "trim device \<noteq> []" "trim client \<noteq> []" "trim key \<noteq> []" "trim role \<noteq> []"
    and "trimmed_scopes scopes \<subseteq> pr_scopes rec"
  shows "evaluate_connect sha sc env2 device client key role scopes (Some t) reg' = (reg', Inr Authorized)"
proof (cases rule: resolve_request_cases [of sha sc env raw True reg])
  case (same r)
  have "trim raw \<noteq> []"
    using assms(4) by (auto simp: resolve_request_def required_text_def)
  then show ?thesis using same(2) [OF assms(2)] assms(3) by simp
next
  case (refused nonce db e)
  then show ?thesis using assms(4) by simp
next
  case (rejected rec db)
  then show ?thesis by simp
next
  case (approved rec0 db)
  have r: "rec0 = rec" using approved(2) assms(2) by simp
  have reg': "bt_get (approved_devices reg') (trim device) = Some (approved_of sha env reg rec)"
    and rec': "rec' = approve_update env reg rec"
    using approved(5) assms(1,4,6) by (auto simp: r bt_get_insert)
  have "trim t = device_token_of (pair_nonce reg + 1 + 1) (env_rnd2 env)"
    using assms(5) by (simp add: rec' approve_update_def)
  then show ?thesis
    using reg' assms(6-13)
    by (simp add: evaluate_connect_def required_text_def Let_def approved_of_def approved_device_requires_pairing_def)
qed

theorem issued_token_opens_connection_witness:
  "\<exists>reg'. evaluate_connect (\<lambda>s. s) demo_codec demo_env ''dev'' ''cli'' ''key'' ''operator'' {''read''}
     (Some (device_token_of 3 9)) reg' = (reg', Inr Authorized)"
proof -
  let ?reg = "demo_registry (take 1 demo_ops)"
  let ?rec = "the (bt_get (requests ?reg) (pairing_id_of 1 7))"
  let ?res = "resolve_request (\<lambda>s. s) demo_codec demo_env (pairing_id_of 1 7) True ?reg"
  have bt: "bt_ok (approved_devices ?reg)"
    and rec: "bt_get (requests ?reg) (trim (pairing_id_of 1 7)) = Some ?rec" "pr_status ?rec = PairingPending"
    and fields: "trim ''dev'' = pr_device_id ?rec" "trim ''key'' = pr_public_key ?rec" "trim ''operator'' = pr_role ?rec"
    and scopes: "trimmed_scopes {''read''} \<subseteq> pr_scopes ?rec"
    and set: "trim ''dev'' \<noteq> []" "trim ''cli'' \<noteq> []" "trim ''key'' \<noteq> []" "trim ''operator'' \<noteq> []"
    by code_simp+
  have tok: "(case snd ?res of Inr (Some r) \<Rightarrow> pr_device_token r | _ \<Rightarrow> None) = Some (trim (device_token_of 3 9))"
    by code_simp
  then obtain rec' where "snd ?res = Inr (Some rec')"
    by (auto split: sum.splits option.splits)
  then have res: "?res = (fst ?res, Inr (Some rec'))" and tok': "pr_device_token rec' = Some (trim (device_token_of 3 9))"
    using tok by (metis prod.collapse, simp)
  from issued_token_opens_connection [OF bt rec res tok' fields set scopes] show ?thesis
    by blast
qed

end
