(* ===== verification/Plan_Graph.thy ===== *)
theory Plan_Graph
  imports Rust_Strings Btree_Map
begin

text \<open>
  \<open>crates/app/src/conversation/plan_ir.rs\<close>: plans of the hybrid lane as graphs of nodes with budgets,
  and \<open>PlanGraph::validate\<close>.  The traversal of the graph is a loop that ends only when the degrees
  and the adjacency agree; it is a partial function, and that it returns on every plan is proved.
\<close>

section \<open>Data\<close>

datatype plan_node_kind = NodeTool | NodeTransform | NodeVerify | NodeRespond

datatype risk_tier = RiskLow | RiskMedium | RiskHigh

record plan_node =
  node_id :: string
  node_kind :: plan_node_kind
  node_label :: string
  node_tool_name :: "string option"
  node_timeout_ms :: u64
  node_max_attempts :: u8
  node_risk_tier :: risk_tier

record plan_edge =
  edge_from :: string
  edge_to :: string

record plan_budget =
  max_nodes :: usize
  max_total_attempts :: usize
  max_wall_time_ms :: u64

definition default_plan_budget :: plan_budget where
  "default_plan_budget = \<lparr>max_nodes = 16, max_total_attempts = 32, max_wall_time_ms = 60000\<rparr>"

record plan_graph =
  plan_version :: string
  plan_nodes :: "plan_node list"
  plan_edges :: "plan_edge list"
  plan_budget_of :: plan_budget

section \<open>Validation\<close>

definition sat_add_usize :: "usize \<Rightarrow> usize \<Rightarrow> usize" where
  "sat_add_usize a b = min (a + b) usize_max"

text \<open>\<open>slice::get\<close>.\<close>

definition vec_get :: "'a list \<Rightarrow> usize \<Rightarrow> 'a option" where
  "vec_get xs i = (if i < length xs then Some (xs ! i) else None)"

fun index_nodes ::
    "plan_node list \<Rightarrow> (string, usize) btree_map \<Rightarrow> usize \<Rightarrow> string + (string, usize) btree_map \<times> usize" where
  "index_nodes [] idx total_attempts = Inr (idx, total_attempts)"
| "index_nodes (node # rest) idx total_attempts =
     (if trim (node_id node) = [] then Inl ''plan node id must not be empty''
      else if node_timeout_ms node = 0 then
        Inl (''plan node `'' @ node_id node @ ''` has invalid timeout_ms=0'')
      else if node_max_attempts node = 0 then
        Inl (''plan node `'' @ node_id node @ ''` has invalid max_attempts=0'')
      else if bt_contains_key idx (node_id node) then
        Inl (''duplicate plan node id `'' @ node_id node @ ''`'')
      else index_nodes rest (bt_insert (node_id node) (length idx) idx)
             (sat_add_usize total_attempts (unat (node_max_attempts node))))"

fun link_edges ::
    "(string, usize) btree_map \<Rightarrow> plan_edge list \<Rightarrow> usize list \<Rightarrow> usize list \<Rightarrow> usize list list
       \<Rightarrow> string + usize list \<times> usize list \<times> usize list list" where
  "link_edges idx [] indegree outdegree adjacency = Inr (indegree, outdegree, adjacency)"
| "link_edges idx (edge # rest) indegree outdegree adjacency =
     (case bt_get idx (edge_from edge) of
        None \<Rightarrow> Inl (''plan edge references unknown `from` node `'' @ edge_from edge @ ''`'')
      | Some from_index \<Rightarrow>
     (case bt_get idx (edge_to edge) of
        None \<Rightarrow> Inl (''plan edge references unknown `to` node `'' @ edge_to edge @ ''`'')
      | Some to_index \<Rightarrow>
          if from_index = to_index then Inl (''plan edge has self-loop at `'' @ edge_from edge @ ''`'')
          else (case vec_get indegree to_index of
             None \<Rightarrow> Inl ''plan graph indegree index out of bounds''
           | Some to_degree \<Rightarrow>
          (case vec_get outdegree from_index of
             None \<Rightarrow> Inl ''plan graph outdegree index out of bounds''
           | Some from_degree \<Rightarrow>
          (case vec_get adjacency from_index of
             None \<Rightarrow> Inl ''plan graph adjacency index out of bounds''
           | Some neighbors \<Rightarrow>
               link_edges idx rest (indegree[to_index := sat_inc to_degree])
                 (outdegree[from_index := sat_inc from_degree])
                 (adjacency[from_index := neighbors @ [to_index]]))))))"

text \<open>The indexes of degree zero, in order: the initial queue.\<close>

definition zero_indexes :: "usize list \<Rightarrow> usize list" where
  "zero_indexes degrees = filter (\<lambda>i. degrees ! i = 0) [0..<length degrees]"

text \<open>The inner loop over the neighbours of a node: it lowers degrees and extends the queue.\<close>

fun relax :: "usize list \<Rightarrow> usize list \<Rightarrow> usize list \<Rightarrow> (usize list \<times> usize list) option" where
  "relax [] degrees queue = Some (degrees, queue)"
| "relax (n # rest) degrees queue =
     (case vec_get degrees n of
        None \<Rightarrow> None
      | Some d \<Rightarrow> relax rest (degrees[n := d - 1]) (if d - 1 = 0 then queue @ [n] else queue))"

partial_function (option) visit_loop ::
    "usize list list \<Rightarrow> usize list \<Rightarrow> usize list \<Rightarrow> usize \<Rightarrow> (string + usize) option" where
  "visit_loop adjacency degrees queue visited =
     (case queue of
        [] \<Rightarrow> Some (Inr visited)
      | index # queue \<Rightarrow>
          (case vec_get adjacency index of
             None \<Rightarrow> Some (Inl ''plan graph adjacency traversal index out of bounds'')
           | Some neighbors \<Rightarrow>
               (case relax neighbors degrees queue of
                  None \<Rightarrow> Some (Inl ''plan graph indegree traversal index out of bounds'')
                | Some (degrees, queue) \<Rightarrow> visit_loop adjacency degrees queue (sat_inc visited))))"

declare visit_loop.simps [code]

definition validate :: "plan_graph \<Rightarrow> (string + unit) option" where
  "validate g =
     (if plan_nodes g = [] then Some (Inl ''plan graph must include at least one node'')
      else if max_nodes (plan_budget_of g) < length (plan_nodes g) then
        Some (Inl (''plan graph node budget exceeded actual='' @ show_nat (length (plan_nodes g))
          @ '' limit='' @ show_nat (max_nodes (plan_budget_of g))))
      else case index_nodes (plan_nodes g) bt_empty 0 of
        Inl e \<Rightarrow> Some (Inl e)
      | Inr (idx, total_attempts) \<Rightarrow>
          if max_total_attempts (plan_budget_of g) < total_attempts then
            Some (Inl (''plan attempt budget exceeded actual='' @ show_nat total_attempts
              @ '' limit='' @ show_nat (max_total_attempts (plan_budget_of g))))
          else
            let n = length (plan_nodes g) in
            case link_edges idx (plan_edges g) (replicate n 0) (replicate n 0) (replicate n []) of
              Inl e \<Rightarrow> Some (Inl e)
            | Inr (indegree, outdegree, adjacency) \<Rightarrow>
                if filter (\<lambda>d. d = 0) indegree = [] then
                  Some (Inl ''plan graph must include at least one entry node'')
                else if filter (\<lambda>d. d = 0) outdegree = [] then
                  Some (Inl ''plan graph must include at least one terminal node'')
                else case visit_loop adjacency indegree (zero_indexes indegree) 0 of
                  None \<Rightarrow> None
                | Some (Inl e) \<Rightarrow> Some (Inl e)
                | Some (Inr visited) \<Rightarrow>
                    Some (if visited \<noteq> n then Inl ''plan graph must be acyclic'' else Inr ()))"

section \<open>Topological order\<close>

text \<open>\<open>topological_order\<close> of \<open>plan_executor.rs\<close>; the inner \<open>None\<close> is the one that the code returns.\<close>

fun count_edges ::
    "(string, usize) btree_map \<Rightarrow> plan_edge list \<Rightarrow> usize list \<Rightarrow> usize list list
       \<Rightarrow> (usize list \<times> usize list list) option" where
  "count_edges idx [] indegree adjacency = Some (indegree, adjacency)"
| "count_edges idx (edge # rest) indegree adjacency =
     (case bt_get idx (edge_from edge) of
        None \<Rightarrow> None
      | Some from_index \<Rightarrow>
     (case bt_get idx (edge_to edge) of
        None \<Rightarrow> None
      | Some to_index \<Rightarrow>
     (case vec_get indegree to_index of
        None \<Rightarrow> None
      | Some degree \<Rightarrow>
     (case vec_get adjacency from_index of
        None \<Rightarrow> None
      | Some neighbors \<Rightarrow>
          count_edges idx rest (indegree[to_index := sat_inc degree])
            (adjacency[from_index := neighbors @ [to_index]])))))"

partial_function (option) order_loop ::
    "usize list list \<Rightarrow> usize list \<Rightarrow> usize list \<Rightarrow> usize list \<Rightarrow> usize list option option" where
  "order_loop adjacency degrees queue order =
     (case queue of
        [] \<Rightarrow> Some (Some order)
      | index # queue \<Rightarrow>
          (case vec_get adjacency index of
             None \<Rightarrow> Some None
           | Some neighbors \<Rightarrow>
               (case relax neighbors degrees queue of
                  None \<Rightarrow> Some None
                | Some (degrees, queue) \<Rightarrow> order_loop adjacency degrees queue (order @ [index]))))"

declare order_loop.simps [code]

definition topological_order :: "plan_graph \<Rightarrow> usize list option option" where
  "topological_order g =
     (let n = length (plan_nodes g);
          idx = fold (\<lambda>(i, node). bt_insert (node_id node) i) (enumerate 0 (plan_nodes g)) bt_empty in
      case count_edges idx (plan_edges g) (replicate n 0) (replicate n []) of
        None \<Rightarrow> Some None
      | Some (indegree, adjacency) \<Rightarrow>
          (case order_loop adjacency indegree (zero_indexes indegree) [] of
             None \<Rightarrow> None
           | Some None \<Rightarrow> Some None
           | Some (Some order) \<Rightarrow> Some (if length order = n then Some order else None)))"

section \<open>The traversal visits exactly what no cycle blocks\<close>

text \<open>
  The graph of indexes: \<open>n\<close> nodes and a list of edges.  The degree and adjacency vectors that the
  code builds are functions of it.
\<close>

definition indegrees :: "nat \<Rightarrow> (nat \<times> nat) list \<Rightarrow> nat list" where
  "indegrees n E = map (\<lambda>t. length (filter (\<lambda>e. snd e = t) E)) [0..<n]"

definition outdegrees :: "nat \<Rightarrow> (nat \<times> nat) list \<Rightarrow> nat list" where
  "outdegrees n E = map (\<lambda>f. length (filter (\<lambda>e. fst e = f) E)) [0..<n]"

definition neighbors_of :: "nat \<Rightarrow> (nat \<times> nat) list \<Rightarrow> nat list list" where
  "neighbors_of n E = map (\<lambda>f. map snd (filter (\<lambda>e. fst e = f) E)) [0..<n]"

definition blockers :: "(nat \<times> nat) list \<Rightarrow> nat set \<Rightarrow> nat \<Rightarrow> (nat \<times> nat) list" where
  "blockers E done t = filter (\<lambda>e. snd e = t \<and> fst e \<notin> done) E"

text \<open>What holds between two steps: visited nodes, then the queue, in an order that respects the edges.\<close>

definition kahn_inv :: "nat \<Rightarrow> (nat \<times> nat) list \<Rightarrow> nat list \<Rightarrow> nat list \<Rightarrow> nat list \<Rightarrow> bool" where
  "kahn_inv n E vs q degrees \<longleftrightarrow>
     distinct (vs @ q) \<and> set (vs @ q) \<subseteq> {..<n} \<and> length degrees = n
     \<and> (\<forall>t < n. degrees ! t = length (blockers E (set vs) t))
     \<and> (\<forall>t < n. degrees ! t = 0 \<longleftrightarrow> t \<in> set (vs @ q))
     \<and> (\<forall>i < length (vs @ q). \<forall>f. (f, (vs @ q) ! i) \<in> set E \<longrightarrow> f \<in> set (take i (vs @ q)))"

lemma relax_spec:
  assumes "\<And>t. t \<in> set ns \<Longrightarrow> t < length degrees \<and> count_list ns t \<le> degrees ! t"
  shows "\<exists>degrees' new. relax ns degrees q = Some (degrees', q @ new) \<and> length degrees' = length degrees
    \<and> (\<forall>t < length degrees. degrees' ! t = degrees ! t - count_list ns t)
    \<and> distinct new \<and> set new = {t \<in> set ns. degrees ! t = count_list ns t}"
  using assms
proof (induction ns arbitrary: degrees q)
  case Nil
  then show ?case by simp
next
  case (Cons n ns)
  let ?d = "degrees[n := degrees ! n - 1]"
  have n: "n < length degrees" "Suc (count_list ns n) \<le> degrees ! n"
    using Cons.prems [of n] by auto
  have "t < length ?d \<and> count_list ns t \<le> ?d ! t" if "t \<in> set ns" for t
    using Cons.prems [of t] that n by (cases "t = n") auto
  from Cons.IH [OF this, of "if degrees ! n - 1 = 0 then q @ [n] else q"]
  obtain degrees' new where
    r: "relax ns ?d (if degrees ! n - 1 = 0 then q @ [n] else q) =
        Some (degrees', (if degrees ! n - 1 = 0 then q @ [n] else q) @ new)"
    and len: "length degrees' = length degrees"
    and deg: "\<forall>t < length degrees. degrees' ! t = ?d ! t - count_list ns t"
    and new: "distinct new" "set new = {t \<in> set ns. ?d ! t = count_list ns t}"
    by auto
  let ?new = "(if degrees ! n - 1 = 0 then [n] else []) @ new"
  have "relax (n # ns) degrees q = Some (degrees', q @ ?new)"
    using r n(1) by (simp add: vec_get_def)
  moreover have "\<forall>t < length degrees. degrees' ! t = degrees ! t - count_list (n # ns) t"
    using deg n by (auto simp: nth_list_update)
  moreover have "distinct ?new"
    using new n by (auto simp: count_list_0_iff)
  moreover have "set ?new = {t \<in> set (n # ns). degrees ! t = count_list (n # ns) t}"
  proof (rule set_eqI)
    fix t
    show "t \<in> set ?new \<longleftrightarrow> t \<in> {t \<in> set (n # ns). degrees ! t = count_list (n # ns) t}"
    proof (cases "t = n")
      case True
      have "n \<in> set ns \<longleftrightarrow> count_list ns n \<noteq> 0"
        by (simp add: count_list_0_iff)
      then show ?thesis
        using n unfolding True by (simp add: new(2)) linarith
    next
      case False
      then show ?thesis by (simp add: new(2))
    qed
  qed
  ultimately show ?case
    using len by blast
qed

lemma blockers_split:
  assumes "i \<notin> done"
  shows "length (blockers E done t) = length (blockers E (insert i done) t) + count_list (map snd (filter (\<lambda>e. fst e = i) E)) t"
  using assms by (induction E) (auto simp: blockers_def)

lemma kahn_step:
  assumes inv: "kahn_inv n E vs (i # q) degrees" and E: "set E \<subseteq> {..<n} \<times> {..<n}"
  shows "\<exists>degrees' q'. relax (neighbors_of n E ! i) degrees q = Some (degrees', q')
    \<and> kahn_inv n E (vs @ [i]) q' degrees'"
proof -
  let ?ns = "map snd (filter (\<lambda>e. fst e = i) E)"
  have i: "i < n" "i \<notin> set vs" "distinct (vs @ i # q)" "set (vs @ i # q) \<subseteq> {..<n}" "length degrees = n"
    and deg: "\<And>t. t < n \<Longrightarrow> degrees ! t = length (blockers E (set vs) t)"
    and zero: "\<And>t. t < n \<Longrightarrow> degrees ! t = 0 \<longleftrightarrow> t \<in> set (vs @ i # q)"
    and topo: "\<And>j f. j < length (vs @ i # q) \<Longrightarrow> (f, (vs @ i # q) ! j) \<in> set E \<Longrightarrow> f \<in> set (take j (vs @ i # q))"
    using inv by (auto simp: kahn_inv_def)
  have ns: "neighbors_of n E ! i = ?ns"
    using i(1) by (simp add: neighbors_of_def)
  have split: "degrees ! t = length (blockers E (insert i (set vs)) t) + count_list ?ns t" if "t < n" for t
    using deg [OF that] blockers_split [OF i(2), of E t] by simp
  have "t < length degrees \<and> count_list ?ns t \<le> degrees ! t" if "t \<in> set ?ns" for t
    using that E split i(5) by fastforce
  from relax_spec [OF this, of q] obtain degrees' new where
    r: "relax ?ns degrees q = Some (degrees', q @ new)" and len: "length degrees' = n"
    and deg': "\<And>t. t < n \<Longrightarrow> degrees' ! t = degrees ! t - count_list ?ns t"
    and new: "distinct new" "set new = {t \<in> set ?ns. degrees ! t = count_list ?ns t}"
    using i(5) by auto
  have deg'': "degrees' ! t = length (blockers E (set (vs @ [i])) t)" if "t < n" for t
    using deg' [OF that] split [OF that] by simp
  have zero': "degrees' ! t = 0 \<longleftrightarrow> t \<in> set ((vs @ [i]) @ q @ new)" if t: "t < n" for t
  proof (cases "degrees ! t = 0")
    case True
    then show ?thesis using zero [OF t] deg' [OF t] by auto
  next
    case False
    then have "degrees' ! t = 0 \<longleftrightarrow> degrees ! t = count_list ?ns t"
      using deg' [OF t] split [OF t] by auto
    also have "\<dots> \<longleftrightarrow> t \<in> set new"
    proof -
      have "t \<in> set ?ns \<longleftrightarrow> count_list ?ns t \<noteq> 0"
        by (simp only: count_list_0_iff not_not)
      then show ?thesis
        using False unfolding new(2) mem_Collect_eq by (metis (no_types))
    qed
    finally show ?thesis using False zero [OF t] by auto
  qed
  have fresh: "t < n \<and> t \<notin> set (vs @ i # q)" if "t \<in> set new" for t
  proof -
    have "t \<in> set ?ns" "degrees ! t = count_list ?ns t"
      using that by (auto simp: new(2))
    then have "t < n" "degrees ! t \<noteq> 0"
      using E by (auto simp: count_list_0_iff)
    then show ?thesis using zero by auto
  qed
  have topo': "f \<in> set (take j ((vs @ [i]) @ q @ new))"
    if j: "j < length ((vs @ [i]) @ q @ new)" and f: "(f, ((vs @ [i]) @ q @ new) ! j) \<in> set E" for j f
  proof (cases "j < length (vs @ i # q)")
    case True
    have "(vs @ [i]) @ q @ new = (vs @ i # q) @ new" by simp
    then have "((vs @ [i]) @ q @ new) ! j = (vs @ i # q) ! j" "take j ((vs @ [i]) @ q @ new) = take j (vs @ i # q)"
      using True by (simp_all only: nth_append take_append if_True diff_is_0_eq' less_imp_le take0 append_Nil2)
    then show ?thesis
      using topo [OF True] f by simp
  next
    case False
    let ?t = "((vs @ [i]) @ q @ new) ! j"
    have "(vs @ [i]) @ q @ new = (vs @ i # q) @ new" by simp
    then have "?t = new ! (j - length (vs @ i # q))"
      using False by (simp only: nth_append if_False)
    moreover have "j - length (vs @ i # q) < length new"
      using False j by auto
    ultimately have "?t \<in> set new" by simp
    then have "?t < n" "degrees' ! ?t = 0"
      using fresh zero' by auto
    then have "blockers E (set (vs @ [i])) ?t = []"
      using deg'' by simp
    then have "f \<in> set (vs @ [i])"
      using f by (auto simp: blockers_def filter_empty_conv)
    moreover have "length (vs @ [i]) \<le> j"
      using False by simp
    then have "set (vs @ [i]) \<subseteq> set (take j ((vs @ [i]) @ q @ new))"
      using take_append [of j "vs @ [i]" "q @ new"] take_all [of "vs @ [i]" j] by (metis set_append Un_upper1)
    ultimately show ?thesis by blast
  qed
  have "kahn_inv n E (vs @ [i]) (q @ new) degrees'"
    unfolding kahn_inv_def
  proof (intro conjI)
    show "distinct ((vs @ [i]) @ q @ new)"
      using i(3) new(1) fresh by auto
    show "set ((vs @ [i]) @ q @ new) \<subseteq> {..<n}"
      using i(4) fresh by auto
  qed (use len deg'' zero' topo' in auto)
  then show ?thesis
    using r by (simp add: ns)
qed

text \<open>Both loops return, and they agree: one counts the order that the other collects.\<close>

lemma kahn_loops:
  assumes "kahn_inv n E vs q degrees" "set E \<subseteq> {..<n} \<times> {..<n}" "n \<le> usize_max"
  shows "\<exists>xs degrees'. order_loop (neighbors_of n E) degrees q vs = Some (Some xs)
    \<and> visit_loop (neighbors_of n E) degrees q (length vs) = Some (Inr (length xs))
    \<and> kahn_inv n E xs [] degrees'"
  using assms
proof (induction "n - length vs" arbitrary: vs q degrees rule: less_induct)
  case less
  show ?case
  proof (cases q)
    case Nil
    then show ?thesis
      using less.prems(1) by (simp add: order_loop.simps visit_loop.simps) blast
  next
    case (Cons i q')
    obtain degrees' q'' where r: "relax (neighbors_of n E ! i) degrees q' = Some (degrees', q'')"
      and inv: "kahn_inv n E (vs @ [i]) q'' degrees'"
      using kahn_step [of n E vs i q' degrees] less.prems Cons by blast
    have vs: "distinct (vs @ q)" "set (vs @ q) \<subseteq> {..<n}"
      using less.prems(1) by (simp_all add: kahn_inv_def)
    then have "length (vs @ q) \<le> n"
      by (metis card_lessThan card_mono distinct_card finite_lessThan)
    then have len: "length vs < n" and i: "i < n"
      using vs Cons by auto
    then have "length vs < usize_max"
      using less.prems(3) by simp
    then have "sat_inc (length vs) = length (vs @ [i])"
      by (simp add: sat_inc_below)
    moreover have "vec_get (neighbors_of n E) i = Some (neighbors_of n E ! i)"
      using i by (simp add: vec_get_def neighbors_of_def)
    ultimately have "order_loop (neighbors_of n E) degrees q vs = order_loop (neighbors_of n E) degrees' q'' (vs @ [i])"
      "visit_loop (neighbors_of n E) degrees q (length vs) =
       visit_loop (neighbors_of n E) degrees' q'' (length (vs @ [i]))"
      by (subst order_loop.simps visit_loop.simps, simp add: Cons r)+
    moreover have "n - length (vs @ [i]) < n - length vs"
      using len by simp
    ultimately show ?thesis
      using less.hyps [OF _ inv less.prems(2,3)] by simp
  qed
qed

lemma kahn_inv_start:
  assumes "set E \<subseteq> {..<n} \<times> {..<n}"
  shows "kahn_inv n E [] (zero_indexes (indegrees n E)) (indegrees n E)"
proof -
  let ?d = "indegrees n E"
  have d: "?d ! t = length (blockers E {} t)" "length ?d = n" if "t < n" for t
    using that by (simp_all add: indegrees_def blockers_def)
  have z: "set (zero_indexes ?d) = {t. t < n \<and> ?d ! t = 0}"
    by (auto simp: zero_indexes_def indegrees_def)
  have "f \<in> set (take i (zero_indexes ?d))"
    if "i < length (zero_indexes ?d)" "(f, zero_indexes ?d ! i) \<in> set E" for i f
  proof -
    have "zero_indexes ?d ! i \<in> set (zero_indexes ?d)"
      using that(1) by simp
    then have "zero_indexes ?d ! i < n" "?d ! (zero_indexes ?d ! i) = 0"
      by (auto simp: z)
    then have "blockers E {} (zero_indexes ?d ! i) = []"
      using d(1) by simp
    then show ?thesis
      using that(2) by (auto simp: blockers_def filter_empty_conv)
  qed
  then show ?thesis
    using d z by (auto simp: kahn_inv_def zero_indexes_def indegrees_def blockers_def)
qed

lemma kahn_end_acyclic:
  assumes inv: "kahn_inv n E xs [] degrees" and E: "set E \<subseteq> {..<n} \<times> {..<n}"
  shows "length xs = n \<longleftrightarrow> acyclic (set E)"
proof
  assume n: "length xs = n"
  have xs: "distinct xs" "set xs \<subseteq> {..<n}"
    and topo: "\<And>i f. i < length xs \<Longrightarrow> (f, xs ! i) \<in> set E \<Longrightarrow> f \<in> set (take i xs)"
    using inv by (auto simp: kahn_inv_def)
  have all: "set xs = {..<n}"
    using n xs by (metis card_lessThan card_subset_eq distinct_card finite_lessThan)
  define pos where "pos v = (THE i. i < length xs \<and> xs ! i = v)" for v
  have pos: "pos (xs ! i) = i" if "i < length xs" for i
    unfolding pos_def using that xs(1) by (auto simp: nth_eq_iff_index_eq)
  have "pos a < pos b" if "(a, b) \<in> set E" for a b
  proof -
    have "b \<in> set xs"
      using that E all by auto
    then obtain i where i: "i < length xs" "b = xs ! i"
      by (auto simp: in_set_conv_nth)
    then have "a \<in> set (take i xs)"
      using topo that by blast
    then obtain j where "j < i" "a = xs ! j"
      by (auto simp: in_set_conv_nth)
    then show ?thesis
      using i pos by simp
  qed
  then have "acyclic ((set E)\<inverse>)"
    by (intro acyclicI_order [where f = pos]) auto
  then show "acyclic (set E)" by simp
next
  assume "acyclic (set E)"
  then have "wf (set E)"
    by (simp add: finite_acyclic_wf)
  have "{..<n} - set xs = {}"
  proof (rule ccontr)
    assume "{..<n} - set xs \<noteq> {}"
    then obtain t where t: "t \<in> {..<n} - set xs" and min: "\<And>f. (f, t) \<in> set E \<Longrightarrow> f \<notin> {..<n} - set xs"
      using wfE_min' [OF \<open>wf (set E)\<close>, of "{..<n} - set xs"] by blast
    have "degrees ! t \<noteq> 0" "degrees ! t = length (blockers E (set xs) t)"
      using t inv by (auto simp: kahn_inv_def)
    then obtain f where "(f, t) \<in> set E" "f \<notin> set xs"
      by (auto simp: blockers_def filter_empty_conv)
    then show False
      using min E by auto
  qed
  moreover have "distinct xs" "set xs \<subseteq> {..<n}"
    using inv by (auto simp: kahn_inv_def)
  ultimately show "length xs = n"
    by (metis Diff_eq_empty_iff card_lessThan distinct_card subset_antisym)
qed

section \<open>From identifiers to indexes\<close>

definition indexes :: "(string, usize) btree_map \<Rightarrow> string list \<Rightarrow> bool" where
  "indexes idx ids \<longleftrightarrow> bt_ok idx \<and> distinct ids \<and> dom (bt_get idx) = set ids
     \<and> (\<forall>i < length ids. bt_get idx (ids ! i) = Some i)"

lemma indexes_length: "indexes idx ids \<Longrightarrow> length idx = length ids"
proof -
  assume i: "indexes idx ids"
  then have "dom (bt_get idx) = fst ` set idx" "distinct (map fst idx)"
    by (auto simp: indexes_def bt_get_eq dom_map_of_conv_image_fst bt_ok_distinct)
  then have "card (dom (bt_get idx)) = length idx"
    by (metis distinct_card length_map set_map)
  then show ?thesis
    using i by (simp add: indexes_def distinct_card)
qed

lemma indexes_empty: "indexes bt_empty []"
  by (simp add: indexes_def fun_eq_iff)

lemma indexes_insert:
  "indexes idx ids \<Longrightarrow> x \<notin> set ids \<Longrightarrow> indexes (bt_insert x (length ids) idx) (ids @ [x])"
  by (auto simp: indexes_def bt_get_insert nth_append less_Suc_eq bt_ok_insert)

lemma indexes_get:
  assumes "indexes idx ids" "x \<in> set ids"
  obtains i where "i < length ids" "ids ! i = x" "bt_get idx x = Some i"
  using assms by (metis in_set_conv_nth indexes_def)

lemma indexes_unknown: "indexes idx ids \<Longrightarrow> x \<notin> set ids \<Longrightarrow> bt_get idx x = None"
  by (auto simp: indexes_def)

definition node_ok :: "plan_node \<Rightarrow> bool" where
  "node_ok node \<longleftrightarrow> trim (node_id node) \<noteq> [] \<and> node_timeout_ms node \<noteq> 0 \<and> node_max_attempts node \<noteq> 0"

definition attempts_of :: "plan_node list \<Rightarrow> nat" where
  "attempts_of ns = sum_list (map (\<lambda>node. unat (node_max_attempts node)) ns)"

lemma index_nodes_spec:
  assumes "indexes idx ids" "acc \<le> usize_max"
  shows "if (\<forall>node \<in> set ns. node_ok node) \<and> distinct (ids @ map node_id ns)
    then \<exists>idx'. index_nodes ns idx acc = Inr (idx', min (acc + attempts_of ns) usize_max)
           \<and> indexes idx' (ids @ map node_id ns)
    else \<exists>e. index_nodes ns idx acc = Inl e"
  using assms
proof (induction ns arbitrary: idx ids acc)
  case Nil
  then show ?case by (simp add: indexes_def attempts_of_def)
next
  case (Cons node ns)
  show ?case
  proof (cases "node_ok node \<and> node_id node \<notin> set ids")
    case True
    have contains: "bt_contains_key idx (node_id node) \<longleftrightarrow> node_id node \<in> set ids"
      using Cons.prems(1) by (auto simp: bt_contains_iff indexes_def)
    have step: "index_nodes (node # ns) idx acc =
        index_nodes ns (bt_insert (node_id node) (length ids) idx)
          (min (acc + unat (node_max_attempts node)) usize_max)"
      using True contains indexes_length [OF Cons.prems(1)] by (simp add: node_ok_def sat_add_usize_def)
    have "indexes (bt_insert (node_id node) (length ids) idx) (ids @ [node_id node])"
      using indexes_insert [OF Cons.prems(1)] True by blast
    note IH = Cons.IH [OF this min.cobounded2 [of "acc + unat (node_max_attempts node)" usize_max]]
    have cond: "(\<forall>n \<in> set (node # ns). node_ok n) \<and> distinct (ids @ map node_id (node # ns)) \<longleftrightarrow>
        (\<forall>n \<in> set ns. node_ok n) \<and> distinct ((ids @ [node_id node]) @ map node_id ns)"
      using True by auto
    have acc: "min (min (acc + unat (node_max_attempts node)) usize_max + attempts_of ns) usize_max =
        min (acc + attempts_of (node # ns)) usize_max"
      by (simp add: attempts_of_def)
    have ids: "ids @ map node_id (node # ns) = (ids @ [node_id node]) @ map node_id ns"
      by simp
    show ?thesis
      unfolding cond step unfolding ids by (rule IH [unfolded acc])
  next
    case False
    then have "\<exists>e. index_nodes (node # ns) idx acc = Inl e"
      using Cons.prems(1) by (auto simp: node_ok_def bt_contains_iff indexes_def)
    moreover have "\<not> ((\<forall>n \<in> set (node # ns). node_ok n) \<and> distinct (ids @ map node_id (node # ns)))"
      using False by auto
    ultimately show ?thesis by auto
  qed
qed

definition edge_index :: "(string, usize) btree_map \<Rightarrow> plan_edge \<Rightarrow> nat \<times> nat" where
  "edge_index idx e = (the (bt_get idx (edge_from e)), the (bt_get idx (edge_to e)))"

lemma indegrees_snoc:
  assumes "t < n" "length E < usize_max"
  shows "(indegrees n E)[t := sat_inc (indegrees n E ! t)] = indegrees n (E @ [(f, t)])"
proof -
  have "length (filter (\<lambda>e. snd e = t) E) < usize_max"
    using assms(2) length_filter_le [of "\<lambda>e. snd e = t" E] by linarith
  then show ?thesis
    using assms(1) by (intro nth_equalityI) (auto simp: indegrees_def nth_list_update sat_inc_below)
qed

lemma outdegrees_snoc:
  assumes "f < n" "length E < usize_max"
  shows "(outdegrees n E)[f := sat_inc (outdegrees n E ! f)] = outdegrees n (E @ [(f, t)])"
proof -
  have "length (filter (\<lambda>e. fst e = f) E) < usize_max"
    using assms(2) length_filter_le [of "\<lambda>e. fst e = f" E] by linarith
  then show ?thesis
    using assms(1) by (intro nth_equalityI) (auto simp: outdegrees_def nth_list_update sat_inc_below)
qed

lemma neighbors_snoc:
  "f < n \<Longrightarrow> (neighbors_of n E)[f := neighbors_of n E ! f @ [t]] = neighbors_of n (E @ [(f, t)])"
  by (intro nth_equalityI) (auto simp: neighbors_of_def nth_list_update)

lemma graph_lengths [simp]:
  "length (indegrees n E) = n" "length (outdegrees n E) = n" "length (neighbors_of n E) = n"
  by (simp_all add: indegrees_def outdegrees_def neighbors_of_def)

lemma graph_empty:
  "indegrees n [] = replicate n 0" "outdegrees n [] = replicate n 0" "neighbors_of n [] = replicate n []"
  by (auto simp: indegrees_def outdegrees_def neighbors_of_def intro: nth_equalityI)

lemma link_edges_spec:
  assumes "indexes idx ids" "length E + length es \<le> usize_max"
  shows "if \<forall>e \<in> set es. edge_from e \<in> set ids \<and> edge_to e \<in> set ids \<and> edge_from e \<noteq> edge_to e
    then link_edges idx es (indegrees (length ids) E) (outdegrees (length ids) E) (neighbors_of (length ids) E) =
      (let E' = E @ map (edge_index idx) es in
       Inr (indegrees (length ids) E', outdegrees (length ids) E', neighbors_of (length ids) E'))
    else \<exists>e. link_edges idx es (indegrees (length ids) E) (outdegrees (length ids) E) (neighbors_of (length ids) E) = Inl e"
  using assms(2)
proof (induction es arbitrary: E)
  case Nil
  then show ?case by simp
next
  case (Cons e es)
  show ?case
  proof (cases "edge_from e \<in> set ids \<and> edge_to e \<in> set ids \<and> edge_from e \<noteq> edge_to e")
    case True
    obtain f where f: "f < length ids" "ids ! f = edge_from e" "bt_get idx (edge_from e) = Some f"
      using indexes_get [OF assms(1)] True by metis
    obtain u where u: "u < length ids" "ids ! u = edge_to e" "bt_get idx (edge_to e) = Some u"
      using indexes_get [OF assms(1)] True by metis
    have "f \<noteq> u" "length E < usize_max"
      using f(2) u(2) True Cons.prems by auto
    then have "link_edges idx (e # es) (indegrees (length ids) E) (outdegrees (length ids) E) (neighbors_of (length ids) E) =
        link_edges idx es (indegrees (length ids) (E @ [(f, u)])) (outdegrees (length ids) (E @ [(f, u)]))
          (neighbors_of (length ids) (E @ [(f, u)]))"
      using f u by (simp add: vec_get_def indegrees_snoc [of _ _ _ f] outdegrees_snoc [of _ _ _ u] neighbors_snoc)
    moreover have "edge_index idx e = (f, u)"
      by (simp add: edge_index_def f u)
    ultimately show ?thesis
      using Cons.IH [of "E @ [(f, u)]"] Cons.prems True by simp
  next
    case False
    have "\<exists>m. link_edges idx (e # es) (indegrees (length ids) E) (outdegrees (length ids) E) (neighbors_of (length ids) E) = Inl m"
    proof (cases "edge_from e \<in> set ids \<and> edge_to e \<in> set ids")
      case True
      then show ?thesis
        using False by (auto elim!: indexes_get [OF assms(1)])
    next
      case unknown: False
      then show ?thesis
        using indexes_unknown [OF assms(1)] by (auto split: option.split)
    qed
    then show ?thesis using False by auto
  qed
qed

section \<open>Validation accepts exactly the well-formed plans\<close>

definition plan_ids :: "plan_graph \<Rightarrow> string list" where
  "plan_ids g = map node_id (plan_nodes g)"

definition dependencies :: "plan_graph \<Rightarrow> (string \<times> string) set" where
  "dependencies g = (\<lambda>e. (edge_from e, edge_to e)) ` set (plan_edges g)"

definition plan_ok :: "plan_graph \<Rightarrow> bool" where
  "plan_ok g \<longleftrightarrow>
     plan_nodes g \<noteq> [] \<and> length (plan_nodes g) \<le> max_nodes (plan_budget_of g)
     \<and> (\<forall>node \<in> set (plan_nodes g). node_ok node) \<and> distinct (plan_ids g)
     \<and> attempts_of (plan_nodes g) \<le> max_total_attempts (plan_budget_of g)
     \<and> dependencies g \<subseteq> set (plan_ids g) \<times> set (plan_ids g) \<and> acyclic (dependencies g)"

text \<open>The sizes of a plan fit a \<open>usize\<close>, as those of every plan in memory do.\<close>

definition plan_fits :: "plan_graph \<Rightarrow> bool" where
  "plan_fits g \<longleftrightarrow> length (plan_nodes g) \<le> usize_max \<and> length (plan_edges g) \<le> usize_max
     \<and> attempts_of (plan_nodes g) \<le> usize_max \<and> max_total_attempts (plan_budget_of g) \<le> usize_max"

definition edge_indexes :: "(string, usize) btree_map \<Rightarrow> plan_graph \<Rightarrow> (nat \<times> nat) list" where
  "edge_indexes idx g = map (edge_index idx) (plan_edges g)"

lemma acyclic_image:
  assumes "acyclic (map_prod h h ` r)"
  shows "acyclic r"
proof -
  have "(h x, h y) \<in> (map_prod h h ` r)\<^sup>+" if "(x, y) \<in> r\<^sup>+" for x y
    using that
  proof (induction rule: trancl_induct)
    case (base y)
    then show ?case by (intro r_into_trancl) force
  next
    case (step y z)
    then show ?case by (intro trancl_into_trancl [OF step.IH]) force
  qed
  then show ?thesis
    using assms by (auto simp: acyclic_def)
qed

lemma edge_indexes_acyclic:
  assumes idx: "indexes idx (plan_ids g)" and dep: "dependencies g \<subseteq> set (plan_ids g) \<times> set (plan_ids g)"
  shows "acyclic (set (edge_indexes idx g)) \<longleftrightarrow> acyclic (dependencies g)"
    and "set (edge_indexes idx g) \<subseteq> {..<length (plan_ids g)} \<times> {..<length (plan_ids g)}"
    and "map_prod ((!) (plan_ids g)) ((!) (plan_ids g)) ` set (edge_indexes idx g) = dependencies g"
proof -
  let ?name = "(!) (plan_ids g)" and ?at = "\<lambda>x. the (bt_get idx x)"
  have at: "?at x < length (plan_ids g) \<and> ?name (?at x) = x" if "x \<in> set (plan_ids g)" for x
    using indexes_get [OF idx that] by (metis option.sel)
  have E: "set (edge_indexes idx g) = map_prod ?at ?at ` dependencies g"
    by (auto simp: edge_indexes_def dependencies_def edge_index_def image_image)
  show bound: "set (edge_indexes idx g) \<subseteq> {..<length (plan_ids g)} \<times> {..<length (plan_ids g)}"
    using at dep unfolding E by fastforce
  have "map_prod ?name ?name ` set (edge_indexes idx g) = (\<lambda>p. p) ` dependencies g"
    unfolding E image_image using at dep by (intro image_cong) auto
  then show names: "map_prod ?name ?name ` set (edge_indexes idx g) = dependencies g"
    by simp
  show "acyclic (set (edge_indexes idx g)) \<longleftrightarrow> acyclic (dependencies g)"
    using acyclic_image [of ?at "dependencies g"] acyclic_image [of ?name "set (edge_indexes idx g)"]
    unfolding names E [symmetric] by blast
qed

lemma kahn_run:
  assumes "set E \<subseteq> {..<n} \<times> {..<n}" "n \<le> usize_max"
  obtains xs degrees where
    "order_loop (neighbors_of n E) (indegrees n E) (zero_indexes (indegrees n E)) [] = Some (Some xs)"
    "visit_loop (neighbors_of n E) (indegrees n E) (zero_indexes (indegrees n E)) 0 = Some (Inr (length xs))"
    "kahn_inv n E xs [] degrees" "length xs = n \<longleftrightarrow> acyclic (set E)"
  using kahn_loops [OF kahn_inv_start [OF assms(1)] assms] kahn_end_acyclic [OF _ assms(1)] by fastforce

lemma visits_all_iff_acyclic:
  assumes "set E \<subseteq> {..<n} \<times> {..<n}" "n \<le> usize_max"
  shows "\<exists>k. visit_loop (neighbors_of n E) (indegrees n E) (zero_indexes (indegrees n E)) 0 = Some (Inr k)
    \<and> (k = n \<longleftrightarrow> acyclic (set E))"
proof (rule kahn_run [OF assms])
  fix xs degrees
  assume "visit_loop (neighbors_of n E) (indegrees n E) (zero_indexes (indegrees n E)) 0 = Some (Inr (length xs))"
    "length xs = n \<longleftrightarrow> acyclic (set E)"
  then show ?thesis by blast
qed

text \<open>An acyclic graph has a node without predecessor and one without successor.\<close>

lemma acyclic_ends:
  assumes "acyclic (set E)" "0 < n" "set E \<subseteq> {..<n} \<times> {..<n}"
  shows "filter (\<lambda>d. d = 0) (indegrees n E) \<noteq> []" "filter (\<lambda>d. d = 0) (outdegrees n E) \<noteq> []"
proof -
  have wf: "wf (set E)" "wf ((set E)\<inverse>)"
    using assms(1) by (simp_all add: finite_acyclic_wf finite_acyclic_wf_converse)
  have "{..<n} \<noteq> {}"
    using assms(2) by auto
  from wfE_min' [OF wf(1) this] obtain s where s: "s < n" "\<And>y. (y, s) \<in> set E \<Longrightarrow> \<not> y < n"
    by auto
  from wfE_min' [OF wf(2) \<open>{..<n} \<noteq> {}\<close>] obtain t where t: "t < n" "\<And>y. (t, y) \<in> set E \<Longrightarrow> \<not> y < n"
    by auto
  have "indegrees n E ! s = 0" "outdegrees n E ! t = 0"
    using s t assms(3) by (fastforce simp: indegrees_def outdegrees_def filter_empty_conv)+
  then have "0 \<in> set (indegrees n E)" "0 \<in> set (outdegrees n E)"
    using s(1) t(1) by (metis graph_lengths nth_mem)+
  then show "filter (\<lambda>d. d = 0) (indegrees n E) \<noteq> []" "filter (\<lambda>d. d = 0) (outdegrees n E) \<noteq> []"
    by (auto simp: filter_empty_conv)
qed

text \<open>Every validation that passes the checks on nodes and edges ends in the traversal.\<close>

lemma validate_traversal:
  assumes fits: "plan_fits g" and ne: "plan_nodes g \<noteq> []"
    and size: "length (plan_nodes g) \<le> max_nodes (plan_budget_of g)"
    and idx: "index_nodes (plan_nodes g) bt_empty 0 = Inr (idx, total_attempts)"
    and budget: "total_attempts \<le> max_total_attempts (plan_budget_of g)"
    and ids: "indexes idx (plan_ids g)"
    and edges: "\<forall>e \<in> set (plan_edges g). edge_from e \<in> set (plan_ids g) \<and> edge_to e \<in> set (plan_ids g)
      \<and> edge_from e \<noteq> edge_to e"
  shows "\<exists>r. validate g = Some r \<and> (r = Inr () \<longleftrightarrow> acyclic (dependencies g))"
proof -
  let ?n = "length (plan_ids g)" and ?E = "edge_indexes idx g"
  have n: "?n = length (plan_nodes g)" "0 < ?n" "?n \<le> usize_max"
    using ne fits by (simp_all add: plan_ids_def plan_fits_def)
  have dep: "dependencies g \<subseteq> set (plan_ids g) \<times> set (plan_ids g)"
    using edges by (auto simp: dependencies_def)
  note E = edge_indexes_acyclic [OF ids dep]
  have "length (plan_edges g) \<le> usize_max"
    using fits by (simp add: plan_fits_def)
  then have link: "link_edges idx (plan_edges g) (replicate ?n 0) (replicate ?n 0) (replicate ?n []) =
      Inr (indegrees ?n ?E, outdegrees ?n ?E, neighbors_of ?n ?E)"
    using link_edges_spec [OF ids, of "[]" "plan_edges g"] edges
    by (simp add: graph_empty edge_indexes_def Let_def)
  obtain k where visit: "visit_loop (neighbors_of ?n ?E) (indegrees ?n ?E) (zero_indexes (indegrees ?n ?E)) 0 =
      Some (Inr k)" and k: "k = ?n \<longleftrightarrow> acyclic (set ?E)"
    using visits_all_iff_acyclic [OF E(2) n(3)] by blast
  have "validate g = Some (if filter (\<lambda>d. d = 0) (indegrees ?n ?E) = [] then Inl ''plan graph must include at least one entry node''
      else if filter (\<lambda>d. d = 0) (outdegrees ?n ?E) = [] then Inl ''plan graph must include at least one terminal node''
      else if k \<noteq> ?n then Inl ''plan graph must be acyclic'' else Inr ())"
    using ne size idx budget link visit by (simp add: validate_def n(1) [symmetric] Let_def)
  moreover have "acyclic (set ?E) \<Longrightarrow> filter (\<lambda>d. d = 0) (indegrees ?n ?E) \<noteq> []"
    "acyclic (set ?E) \<Longrightarrow> filter (\<lambda>d. d = 0) (outdegrees ?n ?E) \<noteq> []"
    using acyclic_ends [OF _ n(2) E(2)] by blast+
  ultimately show ?thesis
    using k E(1) by auto
qed

lemma validate_spec:
  assumes "plan_fits g"
  shows "\<exists>r. validate g = Some r \<and> (r = Inr () \<longleftrightarrow> plan_ok g)"
proof -
  let ?nodes = "(\<forall>node \<in> set (plan_nodes g). node_ok node) \<and> distinct (plan_ids g)"
  let ?edges = "\<forall>e \<in> set (plan_edges g). edge_from e \<in> set (plan_ids g) \<and> edge_to e \<in> set (plan_ids g)
      \<and> edge_from e \<noteq> edge_to e"
  have fits: "min (attempts_of (plan_nodes g)) usize_max = attempts_of (plan_nodes g)"
    using assms by (simp add: plan_fits_def)
  have nodes: "if ?nodes then \<exists>idx. index_nodes (plan_nodes g) bt_empty 0 =
        Inr (idx, attempts_of (plan_nodes g)) \<and> indexes idx (plan_ids g)
      else \<exists>e. index_nodes (plan_nodes g) bt_empty 0 = Inl e"
    using index_nodes_spec [OF indexes_empty, of 0 "plan_nodes g"]
    unfolding append_Nil add_0 fits plan_ids_def by simp
  have loops: "?edges" if "plan_ok g"
  proof -
    have "(x, x) \<notin> dependencies g" for x
      using that by (auto simp: plan_ok_def acyclic_def)
    then show ?thesis
      using that by (fastforce simp: plan_ok_def dependencies_def)
  qed
  consider (size) "plan_nodes g = [] \<or> max_nodes (plan_budget_of g) < length (plan_nodes g)"
    | (nodes) "plan_nodes g \<noteq> []" "length (plan_nodes g) \<le> max_nodes (plan_budget_of g)" "\<not> ?nodes"
    | (ok) "plan_nodes g \<noteq> []" "length (plan_nodes g) \<le> max_nodes (plan_budget_of g)" "?nodes"
    by linarith
  then show ?thesis
  proof cases
    case size
    then show ?thesis by (auto simp: validate_def plan_ok_def)
  next
    case nodes': nodes
    then obtain e where "index_nodes (plan_nodes g) bt_empty 0 = Inl e"
      using nodes unfolding if_not_P [OF nodes'(3)] by blast
    then show ?thesis using nodes' by (auto simp: validate_def plan_ok_def)
  next
    case ok
    then obtain idx where idx: "index_nodes (plan_nodes g) bt_empty 0 =
        Inr (idx, attempts_of (plan_nodes g))" "indexes idx (plan_ids g)"
      using nodes unfolding if_P [OF ok(3)] by blast
    show ?thesis
    proof (cases "attempts_of (plan_nodes g) \<le> max_total_attempts (plan_budget_of g) \<and> ?edges")
      case True
      then have "plan_ok g \<longleftrightarrow> acyclic (dependencies g)"
        using ok by (auto simp: plan_ok_def dependencies_def)
      then show ?thesis
        using validate_traversal [OF assms ok(1,2) idx(1) _ idx(2)] True by blast
    next
      case False
      have "length (plan_edges g) \<le> usize_max"
        using assms by (simp add: plan_fits_def)
      then have link: "\<not> ?edges \<Longrightarrow> \<exists>e. link_edges idx (plan_edges g) (replicate (length (plan_nodes g)) 0)
          (replicate (length (plan_nodes g)) 0) (replicate (length (plan_nodes g)) []) = Inl e"
        using link_edges_spec [OF idx(2), of "[]" "plan_edges g"]
        by (simp only: graph_empty if_False) (simp add: plan_ids_def)
      have "\<exists>e. validate g = Some (Inl e)"
      proof (cases "attempts_of (plan_nodes g) \<le> max_total_attempts (plan_budget_of g)")
        case within: True
        then obtain e where "link_edges idx (plan_edges g) (replicate (length (plan_nodes g)) 0)
          (replicate (length (plan_nodes g)) 0) (replicate (length (plan_nodes g)) []) = Inl e"
          using link False by blast
        then show ?thesis
          using ok(1,2) idx(1) by (simp add: validate_def Let_def)
      next
        case over: False
        then have "max_total_attempts (plan_budget_of g) < attempts_of (plan_nodes g)"
          by (simp only: not_le)
        then show ?thesis
          using ok(1,2) idx(1) by (simp add: validate_def)
      qed
      moreover have "\<not> plan_ok g"
        using False loops unfolding plan_ok_def by blast
      ultimately show ?thesis by auto
    qed
  qed
qed

text \<open>
  C14: validation returns on every plan, and it accepts exactly the well-formed ones: at least one
  node and no more than the budget allows, identifiers that are not blank and pairwise distinct,
  positive timeouts and attempt limits, a total of attempts within the budget, edges between nodes of
  the plan, and no cycle of dependencies.
\<close>

theorem validate_accepts_exactly:
  assumes "plan_fits g"
  shows "\<exists>r. validate g = Some r \<and> (r = Inr () \<longleftrightarrow> plan_ok g)"
  using assms by (rule validate_spec)

definition sample_plan :: plan_graph where
  "sample_plan =
     (let node = (\<lambda>name. \<lparr>node_id = name, node_kind = NodeTool, node_label = name, node_tool_name = None,
            node_timeout_ms = 1000, node_max_attempts = 2, node_risk_tier = RiskLow\<rparr>) in
      \<lparr>plan_version = ''v1'', plan_nodes = [node ''b'', node ''a''],
       plan_edges = [\<lparr>edge_from = ''a'', edge_to = ''b''\<rparr>], plan_budget_of = default_plan_budget\<rparr>)"

lemma sample_plan_fits: "plan_fits sample_plan"
  by (simp add: plan_fits_def sample_plan_def attempts_of_def usize_max_def default_plan_budget_def Let_def)

lemma sample_plan_ok: "plan_ok sample_plan"
proof -
  have "trim ''a'' \<noteq> []" "trim ''b'' \<noteq> []"
    by code_simp+
  then show ?thesis
    by (simp add: plan_ok_def sample_plan_def default_plan_budget_def Let_def node_ok_def plan_ids_def
        attempts_of_def dependencies_def acyclic_insert acyclic_def [of "{}"])
qed

theorem validate_accepts_exactly_witness: "plan_ok sample_plan \<and> validate sample_plan = Some (Inr ())"
  using validate_accepts_exactly [OF sample_plan_fits] sample_plan_ok by auto

end
