(* ===== verification/Plan_Executor.thy ===== *)
theory Plan_Executor
  imports Plan_Graph "HOL-Library.Multiset"
begin

text \<open>
  \<open>crates/app/src/conversation/plan_executor.rs\<close>: a plan is validated, its nodes are put in
  topological order, and each is attempted until it succeeds or gives up, within the budgets.  The
  node executor, the timeout around it and the clock act on a state \<open>'w\<close> of the outside world.
\<close>

section \<open>Data\<close>

datatype plan_node_error_kind = ApprovalRequired | Retryable | NodePolicyDenied | NonRetryable

record plan_node_error =
  node_error_kind :: plan_node_error_kind
  node_error_message :: string

datatype plan_run_failure =
    ValidationFailed string
  | TopologyResolutionFailed
  | BudgetExceeded usize usize
  | WallTimeExceeded nat u64
  | NodeFailed string nat plan_node_error_kind string

datatype plan_run_status = RunSucceeded | RunFailed plan_run_failure

text \<open>Attempts are numbered from 1; a number is at most the \<open>u8\<close> limit of its node.\<close>

record attempt_event =
  attempt_node :: string
  attempt_number :: nat
  attempt_success :: bool
  attempt_error_kind :: "plan_node_error_kind option"
  attempt_error :: "string option"

record plan_run_report =
  run_status :: plan_run_status
  ordered_nodes :: "string list"
  attempts_used :: usize
  attempt_events :: "attempt_event list"
  elapsed_ms :: nat

text \<open>
  What the run takes from outside: reading the clock since the start, and one call of the node
  executor under a timeout (\<open>None\<close>: the time ran out).
\<close>

record 'w plan_env =
  env_clock :: "'w \<Rightarrow> 'w \<times> nat"
  env_execute :: "u64 \<Rightarrow> plan_node \<Rightarrow> nat \<Rightarrow> 'w \<Rightarrow> 'w \<times> (plan_node_error + unit) option"

section \<open>Operations\<close>

definition normalize_node_error :: "plan_node_error \<Rightarrow> plan_node_error" where
  "normalize_node_error error =
     (let trimmed = trim (node_error_message error) in
      if trimmed = [] then
        \<lparr>node_error_kind = node_error_kind error, node_error_message = ''node execution failed with empty reason''\<rparr>
      else \<lparr>node_error_kind = node_error_kind error, node_error_message = trimmed\<rparr>)"

definition node_timeout_error :: "plan_node \<Rightarrow> plan_node_error" where
  "node_timeout_error node = normalize_node_error
     \<lparr>node_error_kind = Retryable,
      node_error_message = ''node_timeout node='' @ node_id node @ '' timeout_ms='' @ show_nat (unat (node_timeout_ms node))\<rparr>"

definition failed_attempt :: "plan_node \<Rightarrow> nat \<Rightarrow> plan_node_error \<Rightarrow> attempt_event" where
  "failed_attempt node attempt e =
     \<lparr>attempt_node = node_id node, attempt_number = attempt, attempt_success = False,
      attempt_error_kind = Some (node_error_kind e), attempt_error = Some (node_error_message e)\<rparr>"

definition succeeded_attempt :: "plan_node \<Rightarrow> nat \<Rightarrow> attempt_event" where
  "succeeded_attempt node attempt =
     \<lparr>attempt_node = node_id node, attempt_number = attempt, attempt_success = True,
      attempt_error_kind = None, attempt_error = None\<rparr>"

text \<open>
  The state of the loops: the world, the attempts used, and the events.  A loop ends with a failure
  and the elapsed time that the report shows, or goes on.
\<close>

type_synonym 'w run_state = "'w \<times> usize \<times> attempt_event list"

definition node_failure :: "'w plan_env \<Rightarrow> plan_node \<Rightarrow> nat \<Rightarrow> plan_node_error \<Rightarrow> 'w run_state
    \<Rightarrow> 'w run_state \<times> (plan_run_failure \<times> nat + unit)" where
  "node_failure env node attempt e st =
     (case st of (w, used, events) \<Rightarrow>
      case env_clock env w of (w, elapsed) \<Rightarrow>
        ((w, used, events), Inl (NodeFailed (node_id node) attempt (node_error_kind e) (node_error_message e), elapsed)))"

fun attempt_loop :: "'w plan_env \<Rightarrow> plan_budget \<Rightarrow> plan_node \<Rightarrow> nat list \<Rightarrow> 'w run_state
    \<Rightarrow> 'w run_state \<times> (plan_run_failure \<times> nat + unit)" where
  "attempt_loop env budget node [] st = (st, Inr ())"
| "attempt_loop env budget node (attempt # rest) (w, used, events) =
     (case env_clock env w of (w, elapsed) \<Rightarrow>
      if unat (max_wall_time_ms budget) < elapsed then
        ((w, used, events), Inl (WallTimeExceeded elapsed (max_wall_time_ms budget), elapsed))
      else if max_total_attempts budget \<le> used then
        ((w, used, events), Inl (BudgetExceeded used (max_total_attempts budget), elapsed))
      else
        let used = sat_inc used in
        case env_execute env (max (node_timeout_ms node) 1) node attempt w of
          (w, None) \<Rightarrow>
            let timeout_error = node_timeout_error node;
                st = (w, used, events @ [failed_attempt node attempt timeout_error]) in
            if attempt = unat (node_max_attempts node) then node_failure env node attempt timeout_error st
            else attempt_loop env budget node rest st
        | (w, Some (Inr _)) \<Rightarrow> ((w, used, events @ [succeeded_attempt node attempt]), Inr ())
        | (w, Some (Inl error)) \<Rightarrow>
            let normalized = normalize_node_error error;
                st = (w, used, events @ [failed_attempt node attempt normalized]) in
            if node_error_kind normalized \<in> {NodePolicyDenied, ApprovalRequired}
               \<or> attempt = unat (node_max_attempts node) then
              node_failure env node attempt normalized st
            else attempt_loop env budget node rest st)"

fun node_loop :: "'w plan_env \<Rightarrow> plan_graph \<Rightarrow> usize list \<Rightarrow> 'w run_state
    \<Rightarrow> 'w run_state \<times> (plan_run_failure \<times> nat + unit)" where
  "node_loop env g [] st = (st, Inr ())"
| "node_loop env g (index # rest) st =
     (case vec_get (plan_nodes g) index of
        None \<Rightarrow>
          (case st of (w, used, events) \<Rightarrow>
           case env_clock env w of (w, elapsed) \<Rightarrow> ((w, used, events), Inl (TopologyResolutionFailed, elapsed)))
      | Some node \<Rightarrow>
          try_bind (attempt_loop env (plan_budget_of g) node [1..<Suc (unat (node_max_attempts node))] st)
            (\<lambda>st _. node_loop env g rest st))"

definition early_report :: "plan_run_failure \<Rightarrow> plan_run_report" where
  "early_report failure =
     \<lparr>run_status = RunFailed failure, ordered_nodes = [], attempts_used = 0, attempt_events = [], elapsed_ms = 0\<rparr>"

text \<open>\<open>None\<close> would be a traversal that never ends.\<close>

definition plan_execute :: "'w plan_env \<Rightarrow> plan_graph \<Rightarrow> 'w \<Rightarrow> ('w \<times> plan_run_report) option" where
  "plan_execute env g w =
     (case validate g of
        None \<Rightarrow> None
      | Some (Inl e) \<Rightarrow> Some (w, early_report (ValidationFailed e))
      | Some (Inr _) \<Rightarrow>
     (case topological_order g of
        None \<Rightarrow> None
      | Some None \<Rightarrow> Some (w, early_report TopologyResolutionFailed)
      | Some (Some order) \<Rightarrow>
          if \<exists>i \<in> set order. vec_get (plan_nodes g) i = None then Some (w, early_report TopologyResolutionFailed)
          else
            let ordered = map (\<lambda>i. node_id (plan_nodes g ! i)) order in
            case node_loop env g order (w, 0, []) of
              ((w, used, events), Inl (failure, elapsed)) \<Rightarrow>
                Some (w, \<lparr>run_status = RunFailed failure, ordered_nodes = ordered, attempts_used = used,
                          attempt_events = events, elapsed_ms = elapsed\<rparr>)
            | ((w, used, events), Inr _) \<Rightarrow>
                (case env_clock env w of (w, elapsed) \<Rightarrow>
                   Some (w, \<lparr>run_status = RunSucceeded, ordered_nodes = ordered, attempts_used = used,
                             attempt_events = events, elapsed_ms = elapsed\<rparr>))))"

section \<open>The order\<close>

lemma enumerate_indexes:
  assumes "indexes idx ids" "distinct (ids @ map node_id ns)"
  shows "indexes (fold (\<lambda>(i, node). bt_insert (node_id node) i) (enumerate (length ids) ns) idx) (ids @ map node_id ns)"
  using assms
proof (induction ns arbitrary: idx ids)
  case (Cons node ns)
  have "indexes (bt_insert (node_id node) (length ids) idx) (ids @ [node_id node])"
    using indexes_insert [OF Cons.prems(1)] Cons.prems(2) by simp
  from Cons.IH [OF this] Cons.prems(2) show ?case by simp
qed simp

lemma count_edges_spec:
  assumes "indexes idx ids" "length E + length es \<le> usize_max"
    "\<forall>e \<in> set es. edge_from e \<in> set ids \<and> edge_to e \<in> set ids"
  shows "count_edges idx es (indegrees (length ids) E) (neighbors_of (length ids) E) =
    (let E' = E @ map (edge_index idx) es in Some (indegrees (length ids) E', neighbors_of (length ids) E'))"
  using assms(2,3)
proof (induction es arbitrary: E)
  case (Cons e es)
  obtain f where f: "f < length ids" "bt_get idx (edge_from e) = Some f"
    using indexes_get [OF assms(1), of "edge_from e"] Cons.prems(2) by auto
  obtain u where u: "u < length ids" "bt_get idx (edge_to e) = Some u"
    using indexes_get [OF assms(1), of "edge_to e"] Cons.prems(2) by auto
  have "length E < usize_max"
    using Cons.prems(1) by simp
  then have "count_edges idx (e # es) (indegrees (length ids) E) (neighbors_of (length ids) E) =
      count_edges idx es (indegrees (length ids) (E @ [(f, u)])) (neighbors_of (length ids) (E @ [(f, u)]))"
    using f u by (simp add: vec_get_def indegrees_snoc [of _ _ _ f] neighbors_snoc)
  moreover have "edge_index idx e = (f, u)"
    by (simp add: edge_index_def f u)
  ultimately show ?case
    using Cons.IH [of "E @ [(f, u)]"] Cons.prems by simp
qed simp

text \<open>On a well-formed plan the order lists every node once, each after the nodes it depends on.\<close>

definition in_order :: "('a \<times> 'a) set \<Rightarrow> 'a list \<Rightarrow> bool" where
  "in_order r xs \<longleftrightarrow> (\<forall>i < length xs. \<forall>f. (f, xs ! i) \<in> r \<longrightarrow> f \<in> set (take i xs))"

lemma topological_order_spec:
  assumes "plan_ok g" "plan_fits g"
  obtains order where "topological_order g = Some (Some order)" "distinct order"
    "set order = {..<length (plan_nodes g)}"
    "in_order (dependencies g) (map (\<lambda>i. node_id (plan_nodes g ! i)) order)"
proof -
  let ?n = "length (plan_ids g)"
  define idx where "idx = fold (\<lambda>(i, node). bt_insert (node_id node) i) (enumerate 0 (plan_nodes g)) bt_empty"
  let ?E = "edge_indexes idx g"
  have n: "?n = length (plan_nodes g)"
    by (simp add: plan_ids_def)
  have ids: "indexes idx (plan_ids g)"
    using enumerate_indexes [OF indexes_empty, of "plan_nodes g"] assms(1)
    by (simp add: idx_def plan_ids_def plan_ok_def)
  have dep: "dependencies g \<subseteq> set (plan_ids g) \<times> set (plan_ids g)" "acyclic (dependencies g)"
    using assms(1) by (simp_all add: plan_ok_def)
  note E = edge_indexes_acyclic [OF ids dep(1)]
  have "count_edges idx (plan_edges g) (replicate ?n 0) (replicate ?n []) = Some (indegrees ?n ?E, neighbors_of ?n ?E)"
    using count_edges_spec [OF ids, of "[]" "plan_edges g"] assms(2) dep(1)
    by (auto simp: graph_empty edge_indexes_def plan_fits_def dependencies_def Let_def)
  moreover have "?n \<le> usize_max"
    using assms(2) by (simp add: n plan_fits_def)
  then obtain order degrees where
    order: "order_loop (neighbors_of ?n ?E) (indegrees ?n ?E) (zero_indexes (indegrees ?n ?E)) [] = Some (Some order)"
    and inv: "kahn_inv ?n ?E order [] degrees" and len: "length order = ?n"
    using E(1) dep(2) by (elim kahn_run [OF E(2)]) simp
  ultimately have "topological_order g = Some (Some order)"
    by (simp add: topological_order_def idx_def [symmetric] n Let_def)
  moreover have d: "distinct order" "set order \<subseteq> {..<?n}" and
    topo: "\<And>i f. i < length order \<Longrightarrow> (f, order ! i) \<in> set ?E \<Longrightarrow> f \<in> set (take i order)"
    using inv by (auto simp: kahn_inv_def)
  moreover have all: "set order = {..<?n}"
    using d len by (metis card_lessThan card_subset_eq distinct_card finite_lessThan)
  moreover have "in_order (dependencies g) (map (\<lambda>i. node_id (plan_nodes g ! i)) order)"
    unfolding in_order_def
  proof (intro allI impI)
    fix i a
    assume i: "i < length (map (\<lambda>i. node_id (plan_nodes g ! i)) order)"
      and a: "(a, map (\<lambda>i. node_id (plan_nodes g ! i)) order ! i) \<in> dependencies g"
    have name: "plan_ids g ! k = node_id (plan_nodes g ! k)" if "k < ?n" for k
      using that by (simp add: plan_ids_def)
    have "order ! i \<in> set order"
      using i by simp
    then have k: "order ! i < ?n"
      using d(2) by auto
    have "(a, plan_ids g ! (order ! i)) \<in> dependencies g"
      using i a name [OF k] by simp
    then obtain p q where pq: "(p, q) \<in> set ?E" "plan_ids g ! p = a" "plan_ids g ! q = plan_ids g ! (order ! i)"
      unfolding E(3) [symmetric] by auto
    then have "p < ?n" "q < ?n" "distinct (plan_ids g)"
      using E(2) assms(1) by (auto simp: plan_ok_def)
    then have "q = order ! i"
      using pq(3) k by (simp add: nth_eq_iff_index_eq)
    then have "p \<in> set (take i order)"
      using topo [of i p] pq(1) i by simp
    then show "a \<in> set (take i (map (\<lambda>i. node_id (plan_nodes g ! i)) order))"
      using pq(2) name [OF \<open>p < ?n\<close>] by (auto simp: take_map)
  qed
  ultimately show thesis
    using that by (simp add: n)
qed

section \<open>Traces\<close>

text \<open>Failed attempts of a node, numbered from one, none of them a denial.\<close>

definition retried :: "plan_node \<Rightarrow> attempt_event list \<Rightarrow> bool" where
  "retried node evs \<longleftrightarrow>
     (\<forall>i < length evs. attempt_node (evs ! i) = node_id node \<and> attempt_number (evs ! i) = Suc i
        \<and> \<not> attempt_success (evs ! i)
        \<and> attempt_error_kind (evs ! i) \<notin> {Some NodePolicyDenied, Some ApprovalRequired})"

definition node_succeeded :: "plan_node \<Rightarrow> attempt_event list \<Rightarrow> bool" where
  "node_succeeded node evs \<longleftrightarrow>
     (\<exists>fs. retried node fs \<and> evs = fs @ [succeeded_attempt node (Suc (length fs))]) \<and> length evs \<le> unat (node_max_attempts node)"

definition node_stopped :: "plan_node \<Rightarrow> attempt_event list \<Rightarrow> bool" where
  "node_stopped node evs \<longleftrightarrow>
     (retried node evs \<or> (\<exists>fs e. retried node fs \<and> evs = fs @ [failed_attempt node (Suc (length fs)) e]))
     \<and> length evs \<le> unat (node_max_attempts node)"

definition run_time_failure :: "plan_run_failure \<Rightarrow> bool" where
  "run_time_failure f \<longleftrightarrow> (case f of WallTimeExceeded _ _ \<Rightarrow> True | NodeFailed _ _ _ _ \<Rightarrow> True | _ \<Rightarrow> False)"

lemma retried_snoc:
  assumes "retried node fs" "node_error_kind e \<notin> {NodePolicyDenied, ApprovalRequired}"
  shows "retried node (fs @ [failed_attempt node (Suc (length fs)) e])"
  using assms by (auto simp: retried_def nth_append less_Suc_eq failed_attempt_def)

lemma retried_Nil [simp]: "retried node []"
  by (simp add: retried_def)

lemma timeout_error_kind: "node_error_kind (node_timeout_error node) = Retryable"
  by (simp add: node_timeout_error_def normalize_node_error_def Let_def)

lemma node_failure_result:
  "\<exists>w' f elapsed. node_failure env node attempt e (w, used, evs) = ((w', used, evs), Inl (f, elapsed)) \<and> run_time_failure f"
  by (cases "env_clock env w") (simp add: node_failure_def run_time_failure_def)

definition attempt_result :: "plan_node \<Rightarrow> attempt_event list \<Rightarrow> nat \<Rightarrow> nat
    \<Rightarrow> 'w run_state \<times> (plan_run_failure \<times> nat + unit) \<Rightarrow> bool" where
  "attempt_result node pre used from res \<longleftrightarrow>
     (\<exists>w' new. fst res = (w', used + length new - from, pre @ new) \<and> from \<le> length new
        \<and> (case snd res of
             Inr _ \<Rightarrow> node_succeeded node new
           | Inl (f, _) \<Rightarrow> node_stopped node new \<and> run_time_failure f))"

lemma attempt_loop_result:
  fixes node
  defines "M \<equiv> unat (node_max_attempts node)"
  assumes "retried node fs" "length fs < M" "used + (M - length fs) \<le> max_total_attempts budget"
    "max_total_attempts budget \<le> usize_max"
  shows "attempt_result node pre used (length fs)
    (attempt_loop env budget node [Suc (length fs)..<Suc M] (w, used, pre @ fs))"
  using assms(2-)
proof (induction "M - length fs" arbitrary: fs used w rule: less_induct)
  case less
  let ?a = "Suc (length fs)"
  define rest where "rest = [Suc ?a..<Suc M]"
  have range: "[?a..<Suc M] = ?a # rest"
    unfolding rest_def by (rule upt_conv_Cons) (use less.prems(2) in simp)
  obtain w1 elapsed where clock: "env_clock env w = (w1, elapsed)"
    by fastforce
  obtain w2 res where exec: "env_execute env (max (node_timeout_ms node) 1) node ?a w1 = (w2, res)"
    by fastforce
  have room: "\<not> max_total_attempts budget \<le> used" and inc: "sat_inc used = Suc used"
    using less.prems(2,3,4) by (auto intro!: sat_inc_below)
  have stop: "node_stopped node fs"
    using less.prems(1,2) by (simp add: node_stopped_def M_def)
  have fail: "attempt_result node pre used (length fs)
      (node_failure env node ?a e (w2, Suc used, pre @ fs @ [failed_attempt node ?a e]))" for e
  proof -
    have "node_stopped node (fs @ [failed_attempt node ?a e])"
      using less.prems(1,2) by (auto simp: node_stopped_def M_def)
    then show ?thesis
      using node_failure_result [of env node ?a e w2 "Suc used" "pre @ fs @ [failed_attempt node ?a e]"]
      by (fastforce simp: attempt_result_def)
  qed
  have again: "attempt_result node pre used (length fs)
      (attempt_loop env budget node rest (w2, Suc used, pre @ fs @ [failed_attempt node ?a e]))"
    if "?a \<noteq> M" "node_error_kind e \<notin> {NodePolicyDenied, ApprovalRequired}" for e
  proof -
    have "attempt_result node pre (Suc used) (length (fs @ [failed_attempt node ?a e]))
      (attempt_loop env budget node [Suc (length (fs @ [failed_attempt node ?a e]))..<Suc M]
        (w2, Suc used, pre @ (fs @ [failed_attempt node ?a e])))"
      by (rule less.hyps) (use less.prems that in \<open>auto intro: retried_snoc\<close>)
    then show ?thesis
      by (fastforce simp: attempt_result_def rest_def simp del: upt_Suc)
  qed
  have "attempt_result node pre used (length fs) (attempt_loop env budget node (?a # rest) (w, used, pre @ fs))"
  proof (cases "unat (max_wall_time_ms budget) < elapsed")
    case True
    then show ?thesis
      using stop by (simp add: clock attempt_result_def run_time_failure_def)
  next
    case time: False
    show ?thesis
    proof (cases res)
      case None
      then show ?thesis
        using exec fail [of "node_timeout_error node"] again [of "node_timeout_error node"] time room
        by (cases "?a = M") (simp_all add: clock inc Let_def timeout_error_kind M_def)
    next
      case (Some outcome)
      show ?thesis
      proof (cases outcome)
        case (Inl error)
        then show ?thesis
          using exec fail [of "normalize_node_error error"] again [of "normalize_node_error error"] time room Some
          by (cases "?a = M") (simp_all add: clock inc Let_def M_def)
      next
        case (Inr u)
        have "node_succeeded node (fs @ [succeeded_attempt node ?a])"
          using less.prems(1,2) by (auto simp: node_succeeded_def M_def)
        then show ?thesis
          using Inr Some time room by (fastforce simp: clock exec inc Let_def attempt_result_def)
      qed
    qed
  qed
  then show ?case
    unfolding range .
qed

definition loop_shape :: "plan_graph \<Rightarrow> usize list \<Rightarrow> attempt_event list \<Rightarrow> bool \<Rightarrow> bool" where
  "loop_shape g order evs finished \<longleftrightarrow>
     (\<exists>k trs tr. evs = concat trs @ tr
        \<and> list_all2 (\<lambda>i tr. node_succeeded (plan_nodes g ! i) tr) (take k order) trs
        \<and> (if finished then k = length order \<and> tr = []
           else k < length order \<and> node_stopped (plan_nodes g ! (order ! k)) tr))"

definition loop_result :: "plan_graph \<Rightarrow> usize list \<Rightarrow> attempt_event list
    \<Rightarrow> 'w run_state \<times> (plan_run_failure \<times> nat + unit) \<Rightarrow> bool" where
  "loop_result g order pre res \<longleftrightarrow>
     (\<exists>w' evs. fst res = (w', length (pre @ evs), pre @ evs)
        \<and> (case snd res of
             Inr _ \<Rightarrow> loop_shape g order evs True
           | Inl (f, _) \<Rightarrow> loop_shape g order evs False \<and> run_time_failure f))"

lemma loop_shape_Cons:
  assumes "node_succeeded (plan_nodes g ! i) new" "loop_shape g order evs finished"
  shows "loop_shape g (i # order) (new @ evs) finished"
proof -
  obtain k trs tr where "evs = concat trs @ tr"
    "list_all2 (\<lambda>i tr. node_succeeded (plan_nodes g ! i) tr) (take k order) trs"
    "if finished then k = length order \<and> tr = [] else k < length order \<and> node_stopped (plan_nodes g ! (order ! k)) tr"
    using assms(2) unfolding loop_shape_def by blast
  then show ?thesis
    unfolding loop_shape_def using assms(1)
    by (intro exI [of _ "Suc k"] exI [of _ "new # trs"] exI [of _ tr]) (auto split: if_splits)
qed

lemma loop_shape_stop:
  "node_stopped (plan_nodes g ! i) new \<Longrightarrow> loop_shape g (i # order) new False"
  unfolding loop_shape_def by (intro exI [of _ 0] exI [of _ "[]"] exI [of _ new]) simp

lemma loop_result_Cons:
  assumes succ: "node_succeeded (plan_nodes g ! i) new" and res: "loop_result g order (pre @ new) res"
  shows "loop_result g (i # order) pre res"
proof -
  obtain w' evs where st: "fst res = (w', length ((pre @ new) @ evs), (pre @ new) @ evs)"
    and cs: "case snd res of Inr _ \<Rightarrow> loop_shape g order evs True
      | Inl (f, _) \<Rightarrow> loop_shape g order evs False \<and> run_time_failure f"
    using res unfolding loop_result_def by blast
  have "fst res = (w', length (pre @ new @ evs), pre @ new @ evs)"
    using st by simp
  moreover have "case snd res of Inr _ \<Rightarrow> loop_shape g (i # order) (new @ evs) True
      | Inl (f, _) \<Rightarrow> loop_shape g (i # order) (new @ evs) False \<and> run_time_failure f"
    using cs loop_shape_Cons [OF succ] by (auto split: sum.split_asm sum.split)
  ultimately show ?thesis
    unfolding loop_result_def by blast
qed

lemma node_loop_result:
  assumes "\<forall>i \<in> set order. i < length (plan_nodes g) \<and> node_ok (plan_nodes g ! i)"
    "length pre + attempts_of (map ((!) (plan_nodes g)) order) \<le> max_total_attempts (plan_budget_of g)"
    "max_total_attempts (plan_budget_of g) \<le> usize_max"
  shows "loop_result g order pre (node_loop env g order (w, length pre, pre))"
  using assms(1,2)
proof (induction order arbitrary: pre w)
  case Nil
  then show ?case by (auto simp: loop_result_def loop_shape_def)
next
  case (Cons i order)
  let ?node = "plan_nodes g ! i" and ?M = "unat (node_max_attempts (plan_nodes g ! i))"
  define res where "res = attempt_loop env (plan_budget_of g) ?node [1..<Suc ?M] (w, length pre, pre)"
  have i: "vec_get (plan_nodes g) i = Some ?node" "0 < ?M"
    using Cons.prems(1) by (auto simp: vec_get_def node_ok_def unat_gt_0)
  have "length pre + ?M \<le> max_total_attempts (plan_budget_of g)"
    using Cons.prems(2) by (simp add: attempts_of_def)
  then have "attempt_result ?node pre (length pre) (length ([] :: attempt_event list))
      (attempt_loop env (plan_budget_of g) ?node [Suc (length ([] :: attempt_event list))..<Suc ?M] (w, length pre, pre @ []))"
    by (intro attempt_loop_result) (use i(2) assms(3) in auto)
  then have "attempt_result ?node pre (length pre) 0 res"
    by (simp add: res_def del: upt_Suc)
  then obtain w' new where res: "fst res = (w', length (pre @ new), pre @ new)"
    and cs: "case snd res of Inr _ \<Rightarrow> node_succeeded ?node new | Inl (f, _) \<Rightarrow> node_stopped ?node new \<and> run_time_failure f"
    by (auto simp: attempt_result_def)
  have loop: "node_loop env g (i # order) (w, length pre, pre) = try_bind res (\<lambda>st _. node_loop env g order st)"
    by (simp add: i(1) res_def del: upt_Suc)
  show ?case
  proof (cases "snd res")
    case (Inl fe)
    then have r: "res = ((w', length (pre @ new), pre @ new), Inl fe)"
      using res by (metis prod.collapse)
    have "node_stopped ?node new" "run_time_failure (fst fe)"
      using cs Inl by (auto split: prod.splits)
    then show ?thesis
      unfolding loop r by (auto simp: loop_result_def loop_shape_stop split: prod.split)
  next
    case (Inr u)
    then have r: "res = ((w', length (pre @ new), pre @ new), Inr u)"
      using res by (metis prod.collapse)
    have succ: "node_succeeded ?node new"
      using cs Inr by simp
    then have "length new \<le> ?M"
      by (simp add: node_succeeded_def)
    then have "length (pre @ new) + attempts_of (map ((!) (plan_nodes g)) order) \<le> max_total_attempts (plan_budget_of g)"
      using Cons.prems(2) by (simp add: attempts_of_def)
    with Cons.IH [of "pre @ new" w'] Cons.prems(1)
    have "loop_result g order (pre @ new) (node_loop env g order (w', length (pre @ new), pre @ new))"
      by simp
    then show ?thesis
      unfolding loop r using loop_result_Cons [OF succ] by simp
  qed
qed

lemma attempts_of_order:
  assumes "distinct order" "set order = {..<length (plan_nodes g)}"
  shows "attempts_of (map ((!) (plan_nodes g)) order) = attempts_of (plan_nodes g)"
proof -
  have "mset order = mset [0..<length (plan_nodes g)]"
    using assms by (intro set_eq_iff_mset_eq_distinct [THEN iffD1]) (auto simp: atLeast0LessThan)
  then have "mset (map ((!) (plan_nodes g)) order) = mset (map ((!) (plan_nodes g)) [0..<length (plan_nodes g)])"
    by (metis mset_map)
  then have "mset (map (\<lambda>node. unat (node_max_attempts node)) (map ((!) (plan_nodes g)) order)) =
      mset (map (\<lambda>node. unat (node_max_attempts node)) (plan_nodes g))"
    by (simp only: map_nth mset_map)
  then show ?thesis
    unfolding attempts_of_def by (metis sum_mset_sum_list)
qed

text \<open>The whole run on a well-formed plan.\<close>

lemma plan_execute_shape:
  assumes ok: "plan_ok g" and fits: "plan_fits g"
  obtains w' rep order where "plan_execute env g w = Some (w', rep)"
    "distinct order" "set order = {..<length (plan_nodes g)}"
    "ordered_nodes rep = map (\<lambda>i. node_id (plan_nodes g ! i)) order"
    "in_order (dependencies g) (ordered_nodes rep)"
    "attempts_used rep = length (attempt_events rep)"
    "loop_shape g order (attempt_events rep) (run_status rep = RunSucceeded)"
    "run_status rep = RunSucceeded \<or> (\<exists>f. run_status rep = RunFailed f \<and> run_time_failure f)"
proof -
  obtain order where order: "topological_order g = Some (Some order)" "distinct order"
    "set order = {..<length (plan_nodes g)}"
    "in_order (dependencies g) (map (\<lambda>i. node_id (plan_nodes g ! i)) order)"
    using topological_order_spec [OF ok fits] by blast
  have valid: "validate g = Some (Inr ())"
    using validate_spec [OF fits] ok by auto
  have known: "\<not> (\<exists>i \<in> set order. vec_get (plan_nodes g) i = None)"
    by (auto simp: order(3) vec_get_def)
  have nodes: "\<forall>i \<in> set order. i < length (plan_nodes g) \<and> node_ok (plan_nodes g ! i)"
    using ok order(3) by (auto simp: plan_ok_def)
  have "loop_result g order [] (node_loop env g order (w, length ([] :: attempt_event list), []))"
    by (rule node_loop_result [OF nodes])
      (use ok fits attempts_of_order [OF order(2,3)] in \<open>simp_all add: plan_ok_def plan_fits_def\<close>)
  then obtain w' evs where st: "fst (node_loop env g order (w, 0, [])) = (w', length evs, evs)"
    and cs: "case snd (node_loop env g order (w, 0, [])) of Inr _ \<Rightarrow> loop_shape g order evs True
      | Inl (f, _) \<Rightarrow> loop_shape g order evs False \<and> run_time_failure f"
    by (auto simp: loop_result_def)
  show thesis
  proof (cases "snd (node_loop env g order (w, 0, []))")
    case (Inl fe)
    then obtain f elapsed where "node_loop env g order (w, 0, []) = ((w', length evs, evs), Inl (f, elapsed))"
      using st by (metis prod.collapse)
    then have "plan_execute env g w = Some (w', \<lparr>run_status = RunFailed f,
        ordered_nodes = map (\<lambda>i. node_id (plan_nodes g ! i)) order, attempts_used = length evs,
        attempt_events = evs, elapsed_ms = elapsed\<rparr>)"
      "loop_shape g order evs False" "run_time_failure f"
      using valid order(1) known cs by (auto simp: plan_execute_def Let_def)
    then show thesis
      using that order(2-4) by auto
  next
    case (Inr u)
    then have "node_loop env g order (w, 0, []) = ((w', length evs, evs), Inr u)"
      using st by (metis prod.collapse)
    moreover obtain w2 elapsed where "env_clock env w' = (w2, elapsed)"
      by fastforce
    ultimately have "plan_execute env g w = Some (w2, \<lparr>run_status = RunSucceeded,
        ordered_nodes = map (\<lambda>i. node_id (plan_nodes g ! i)) order, attempts_used = length evs,
        attempt_events = evs, elapsed_ms = elapsed\<rparr>)"
      "loop_shape g order evs True"
      using valid order(1) known cs by (auto simp: plan_execute_def Let_def)
    then show thesis
      using that order(2-4) by auto
  qed
qed

section \<open>What a trace says\<close>

definition succeeded_nodes :: "attempt_event list \<Rightarrow> string set" where
  "succeeded_nodes evs = set (map attempt_node (filter attempt_success evs))"

definition runs_after :: "(string \<times> string) set \<Rightarrow> attempt_event list \<Rightarrow> bool" where
  "runs_after r evs \<longleftrightarrow>
     (\<forall>i < length evs. \<forall>a. (a, attempt_node (evs ! i)) \<in> r \<longrightarrow> a \<in> succeeded_nodes (take i evs))"

lemma succeeded_nodes_append [simp]: "succeeded_nodes (xs @ ys) = succeeded_nodes xs \<union> succeeded_nodes ys"
  by (auto simp: succeeded_nodes_def)

lemma runs_after_append:
  assumes "runs_after r evs" "\<And>e a. e \<in> set tr \<Longrightarrow> (a, attempt_node e) \<in> r \<Longrightarrow> a \<in> succeeded_nodes evs"
  shows "runs_after r (evs @ tr)"
  unfolding runs_after_def
proof (intro allI impI)
  fix i a
  assume i: "i < length (evs @ tr)" and a: "(a, attempt_node ((evs @ tr) ! i)) \<in> r"
  show "a \<in> succeeded_nodes (take i (evs @ tr))"
  proof (cases "i < length evs")
    case True
    then show ?thesis using assms(1) a by (simp add: runs_after_def nth_append)
  next
    case False
    then have "(evs @ tr) ! i \<in> set tr"
      using i by (simp add: nth_append)
    then show ?thesis
      using assms(2) a False by simp
  qed
qed

lemma retried_nodes: "retried node evs \<Longrightarrow> e \<in> set evs \<Longrightarrow> attempt_node e = node_id node \<and> \<not> attempt_success e"
  by (auto simp: retried_def in_set_conv_nth)

lemma node_succeeded_facts:
  assumes "node_succeeded node evs"
  shows "\<forall>e \<in> set evs. attempt_node e = node_id node" "succeeded_nodes evs = {node_id node}"
proof -
  obtain fs where fs: "retried node fs" "evs = fs @ [succeeded_attempt node (Suc (length fs))]"
    using assms by (auto simp: node_succeeded_def)
  moreover have "filter attempt_success fs = []"
    using retried_nodes [OF fs(1)] by (simp add: filter_empty_conv)
  ultimately show "\<forall>e \<in> set evs. attempt_node e = node_id node" "succeeded_nodes evs = {node_id node}"
    using retried_nodes [OF fs(1)] by (auto simp: succeeded_nodes_def succeeded_attempt_def)
qed

lemma node_stopped_facts:
  assumes "node_stopped node evs"
  shows "\<forall>e \<in> set evs. attempt_node e = node_id node" "succeeded_nodes evs = {}"
proof -
  consider "retried node evs" | fs e where "retried node fs" "evs = fs @ [failed_attempt node (Suc (length fs)) e]"
    using assms unfolding node_stopped_def by blast
  then have all: "\<forall>e \<in> set evs. attempt_node e = node_id node \<and> \<not> attempt_success e"
  proof cases
    case 1
    then show ?thesis using retried_nodes by blast
  next
    case (2 fs e)
    then show ?thesis using retried_nodes [OF 2(1)] by (auto simp: failed_attempt_def)
  qed
  then show "\<forall>e \<in> set evs. attempt_node e = node_id node" "succeeded_nodes evs = {}"
    by (auto simp: succeeded_nodes_def)
qed

lemma succeeded_not_stopped: "node_succeeded node evs \<Longrightarrow> \<not> node_stopped node evs"
  using node_succeeded_facts(2) node_stopped_facts(2) by fastforce

lemma in_order_append:
  assumes "in_order r (xs @ ys)"
  shows "in_order r xs"
  unfolding in_order_def
proof (intro allI impI)
  fix i f
  assume i: "i < length xs" and f: "(f, xs ! i) \<in> r"
  then have "i < length (xs @ ys)" "(f, (xs @ ys) ! i) \<in> r"
    by (simp_all add: nth_append)
  then have "f \<in> set (take i (xs @ ys))"
    using assms unfolding in_order_def by blast
  then show "f \<in> set (take i xs)"
    using i by simp
qed

lemma runs_after_concat:
  assumes "list_all2 (\<lambda>i tr. node_succeeded (N i) tr) order trs" "in_order r (map (\<lambda>i. node_id (N i)) order)"
  shows "runs_after r (concat trs) \<and> succeeded_nodes (concat trs) = set (map (\<lambda>i. node_id (N i)) order)"
  using assms
proof (induction order arbitrary: trs rule: rev_induct)
  case Nil
  then show ?case by (simp add: runs_after_def succeeded_nodes_def)
next
  case (snoc i order)
  from snoc.prems(1) obtain trs' tr where trs: "trs = trs' @ [tr]"
    "list_all2 (\<lambda>i tr. node_succeeded (N i) tr) order trs'" "node_succeeded (N i) tr"
    by (auto simp: list_all2_append1 list_all2_Cons1)
  have IH: "runs_after r (concat trs')" "succeeded_nodes (concat trs') = set (map (\<lambda>i. node_id (N i)) order)"
    using snoc.IH [OF trs(2)] in_order_append snoc.prems(2) by auto
  have "a \<in> set (map (\<lambda>i. node_id (N i)) order)" if "(a, node_id (N i)) \<in> r" for a
    using snoc.prems(2) that unfolding in_order_def
    by (auto dest!: spec [of _ "length order"] simp: nth_append)
  then have "runs_after r (concat trs' @ tr)"
    using node_succeeded_facts(1) [OF trs(3)] IH by (intro runs_after_append) auto
  then show ?case
    using IH node_succeeded_facts(2) [OF trs(3)] by (auto simp: trs(1))
qed

definition node_trace :: "plan_node \<Rightarrow> attempt_event list \<Rightarrow> attempt_event list" where
  "node_trace node evs = filter (\<lambda>e. attempt_node e = node_id node) evs"

lemma node_trace_other: "\<forall>e \<in> set evs. attempt_node e = x \<Longrightarrow> x \<noteq> node_id node \<Longrightarrow> node_trace node evs = []"
  by (simp add: node_trace_def filter_empty_conv)

lemma node_trace_same: "\<forall>e \<in> set evs. attempt_node e = node_id node \<Longrightarrow> node_trace node evs = evs"
  by (simp add: node_trace_def)

lemma node_trace_append [simp]: "node_trace node (xs @ ys) = node_trace node xs @ node_trace node ys"
  by (simp add: node_trace_def)

lemma node_trace_absent:
  assumes "list_all2 (\<lambda>i tr. node_succeeded (N i) tr) order trs" "node_id node \<notin> set (map (\<lambda>i. node_id (N i)) order)"
  shows "node_trace node (concat trs) = []"
  using assms
  by (induction rule: list_all2_induct) (auto simp: node_trace_def filter_empty_conv dest!: node_succeeded_facts(1))

lemma node_trace_concat:
  assumes "list_all2 (\<lambda>i tr. node_succeeded (N i) tr) order trs" "distinct (map (\<lambda>i. node_id (N i)) order)"
    "i \<in> set order"
  shows "node_succeeded (N i) (node_trace (N i) (concat trs))"
  using assms
proof (induction order trs rule: list_all2_induct)
  case (Cons j order tr trs)
  have tr: "\<forall>e \<in> set tr. attempt_node e = node_id (N j)"
    by (rule node_succeeded_facts(1) [OF Cons.hyps(1)])
  have away: "node_trace (N j) (concat trs) = []"
    using node_trace_absent [OF Cons.hyps(2)] Cons.prems by simp
  have IH: "i \<in> set order \<Longrightarrow> node_succeeded (N i) (node_trace (N i) (concat trs))"
    using Cons.IH Cons.prems by simp
  show ?case
  proof (cases "node_id (N i) = node_id (N j)")
    case True
    then have "i = j"
      using Cons.prems by (auto simp: image_iff)
    then show ?thesis
      using Cons.hyps(1) away node_trace_same [OF tr] by simp
  next
    case False
    then show ?thesis
      using Cons.prems(2) IH node_trace_other [OF tr, of "N i"] by auto
  qed
qed simp

lemma loop_shape_length:
  assumes "loop_shape g order evs finished"
  shows "length evs \<le> attempts_of (map ((!) (plan_nodes g)) order)"
proof -
  let ?N = "(!) (plan_nodes g)"
  obtain k trs tr where evs: "evs = concat trs @ tr" and trs: "list_all2 (\<lambda>i tr. node_succeeded (?N i) tr) (take k order) trs"
    and last: "if finished then k = length order \<and> tr = [] else k < length order \<and> node_stopped (?N (order ! k)) tr"
    using assms unfolding loop_shape_def by blast
  have concat: "length (concat trs) \<le> attempts_of (map ?N (take k order))"
    using trs by (induction rule: list_all2_induct) (auto simp: attempts_of_def node_succeeded_def)
  show ?thesis
  proof (cases finished)
    case True
    then show ?thesis using concat evs last by simp
  next
    case False
    then have k: "k < length order" "length tr \<le> unat (node_max_attempts (?N (order ! k)))"
      using last by (auto simp: node_stopped_def)
    have "attempts_of (map ?N order) = attempts_of (map ?N (take k order)) + unat (node_max_attempts (?N (order ! k)))
        + attempts_of (map ?N (drop (Suc k) order))"
      by (subst id_take_nth_drop [OF k(1)]) (simp add: attempts_of_def)
    then show ?thesis
      using concat k(2) evs by simp
  qed
qed

section \<open>The guarantees\<close>

lemma order_names:
  assumes "distinct (plan_ids g)" "distinct order" "set order = {..<length (plan_nodes g)}"
  shows "distinct (map (\<lambda>i. node_id (plan_nodes g ! i)) order)"
    "set (map (\<lambda>i. node_id (plan_nodes g ! i)) order) = set (plan_ids g)"
proof -
  have name: "node_id (plan_nodes g ! i) = plan_ids g ! i" if "i < length (plan_nodes g)" for i
    using that by (simp add: plan_ids_def)
  have "inj_on (\<lambda>i. node_id (plan_nodes g ! i)) (set order)"
  proof (rule inj_onI)
    fix x y
    assume xy: "x \<in> set order" "y \<in> set order" "node_id (plan_nodes g ! x) = node_id (plan_nodes g ! y)"
    then have "x < length (plan_nodes g)" "y < length (plan_nodes g)"
      by (simp_all add: assms(3))
    then have "x < length (plan_ids g)" "y < length (plan_ids g)" "plan_ids g ! x = plan_ids g ! y"
      using xy(3) by (simp_all add: name [symmetric]) (simp_all add: plan_ids_def)
    then show "x = y"
      using nth_eq_iff_index_eq [OF assms(1)] by blast
  qed
  then show "distinct (map (\<lambda>i. node_id (plan_nodes g ! i)) order)"
    using assms(2) by (simp add: distinct_map)
  have "(\<lambda>i. node_id (plan_nodes g ! i)) ` {..<length (plan_nodes g)} = node_id ` set (plan_nodes g)"
    using nth_image [of "length (plan_nodes g)" "plan_nodes g"] by (simp flip: atLeast0LessThan image_image)
  then show "set (map (\<lambda>i. node_id (plan_nodes g ! i)) order) = set (plan_ids g)"
    by (simp add: assms(3) plan_ids_def)
qed

text \<open>A run that stops at the node \<open>order ! k\<close>.\<close>

lemma stopped_run:
  assumes trs: "list_all2 (\<lambda>i tr. node_succeeded (N i) tr) (take k order) trs" and k: "k < length order"
    and tr: "node_stopped (N (order ! k)) tr" and names: "distinct (map (\<lambda>i. node_id (N i)) order)"
    and ordered: "in_order r (map (\<lambda>i. node_id (N i)) order)"
  shows "runs_after r (concat trs @ tr)" "succeeded_nodes (concat trs @ tr) \<noteq> set (map (\<lambda>i. node_id (N i)) order)"
    "i \<in> set order \<Longrightarrow> node_succeeded (N i) (node_trace (N i) (concat trs @ tr))
       \<or> node_stopped (N i) (node_trace (N i) (concat trs @ tr))"
proof -
  let ?name = "\<lambda>i. node_id (N i)"
  have split: "map ?name order = map ?name (take k order) @ ?name (order ! k) # map ?name (drop (Suc k) order)"
    by (subst id_take_nth_drop [OF k]) simp
  have pre: "in_order r (map ?name (take k order))"
    using ordered unfolding split by (rule in_order_append)
  have d: "distinct (map ?name (take k order))" "?name (order ! k) \<notin> set (map ?name (take k order))"
    using names unfolding split by auto
  note run = runs_after_concat [OF trs pre] and facts = node_stopped_facts [OF tr]
  have "a \<in> set (map ?name (take k order))" if "(a, ?name (order ! k)) \<in> r" for a
    using ordered that k unfolding in_order_def by (auto dest!: spec [of _ k] simp: take_map)
  then show "runs_after r (concat trs @ tr)"
    using run facts(1) by (intro runs_after_append) auto
  show "succeeded_nodes (concat trs @ tr) \<noteq> set (map ?name order)"
    using d(2) run facts(2) unfolding split by auto
  assume i: "i \<in> set order"
  show "node_succeeded (N i) (node_trace (N i) (concat trs @ tr)) \<or> node_stopped (N i) (node_trace (N i) (concat trs @ tr))"
  proof (cases "?name i = ?name (order ! k)")
    case True
    then have "node_trace (N i) (concat trs @ tr) = tr"
      using node_trace_absent [OF trs, of "N i"] node_trace_same [of tr "N i"] d(2) facts(1) by simp
    moreover have "i = order ! k"
      using True i k names by (auto simp: distinct_map dest: inj_onD)
    ultimately show ?thesis using tr by simp
  next
    case False
    then have "node_trace (N i) (concat trs @ tr) = node_trace (N i) (concat trs)"
      using node_trace_other [OF facts(1)] by fastforce
    moreover have "node_stopped (N i) []"
      by (simp add: node_stopped_def)
    moreover have "node_trace (N i) (concat trs) = []" if "i \<notin> set (take k order)"
    proof (rule node_trace_absent [OF trs])
      have "inj_on ?name (set order)"
        using names by (simp add: distinct_map)
      then show "node_id (N i) \<notin> set (map ?name (take k order))"
        using that i by (auto dest: in_set_takeD inj_onD)
    qed
    ultimately show ?thesis
      using node_trace_concat [OF trs d(1), of i] by (cases "i \<in> set (take k order)") simp_all
  qed
qed

lemma loop_shape_runs:
  assumes shape: "loop_shape g order evs finished" and names: "distinct (map (\<lambda>i. node_id (plan_nodes g ! i)) order)"
    and ordered: "in_order r (map (\<lambda>i. node_id (plan_nodes g ! i)) order)"
  shows "runs_after r evs" "finished \<longleftrightarrow> succeeded_nodes evs = set (map (\<lambda>i. node_id (plan_nodes g ! i)) order)"
    "i \<in> set order \<Longrightarrow> node_succeeded (plan_nodes g ! i) (node_trace (plan_nodes g ! i) evs)
       \<or> node_stopped (plan_nodes g ! i) (node_trace (plan_nodes g ! i) evs)"
proof -
  let ?N = "(!) (plan_nodes g)"
  obtain k trs tr where evs: "evs = concat trs @ tr" and trs: "list_all2 (\<lambda>i tr. node_succeeded (?N i) tr) (take k order) trs"
    and last: "if finished then k = length order \<and> tr = [] else k < length order \<and> node_stopped (?N (order ! k)) tr"
    using shape unfolding loop_shape_def by blast
  have "runs_after r evs \<and> (finished \<longleftrightarrow> succeeded_nodes evs = set (map (\<lambda>i. node_id (plan_nodes g ! i)) order))
    \<and> (i \<in> set order \<longrightarrow> node_succeeded (?N i) (node_trace (?N i) evs) \<or> node_stopped (?N i) (node_trace (?N i) evs))"
  proof (cases finished)
    case True
    then have "evs = concat trs" and trs': "list_all2 (\<lambda>i tr. node_succeeded (?N i) tr) order trs"
      using evs trs last by auto
    then show ?thesis
      using True runs_after_concat [OF trs' ordered] node_trace_concat [OF trs' names, of i] by simp
  next
    case False
    then have k: "k < length order" "node_stopped (?N (order ! k)) tr"
      using last by auto
    show ?thesis
      using False stopped_run(1,2) [OF trs k names ordered] stopped_run(3) [OF trs k names ordered, of i]
      unfolding evs by blast
  qed
  then show "runs_after r evs" "finished \<longleftrightarrow> succeeded_nodes evs = set (map (\<lambda>i. node_id (plan_nodes g ! i)) order)"
    "i \<in> set order \<Longrightarrow> node_succeeded (?N i) (node_trace (?N i) evs) \<or> node_stopped (?N i) (node_trace (?N i) evs)"
    by blast+
qed

text \<open>
  C15: plans run in the order of their dependencies.  Executing a plan always returns a report.  A
  plan that is not well-formed runs nothing.  On a well-formed one the report orders all nodes, each
  after its dependencies; no attempt is made at a node before every node that it depends on has
  succeeded; and the run succeeds exactly when every node has succeeded.
\<close>

theorem plan_runs_in_dependency_order:
  assumes fits: "plan_fits g"
  shows "\<exists>w' rep. plan_execute env g w = Some (w', rep) \<and>
    (if plan_ok g then
       distinct (ordered_nodes rep) \<and> set (ordered_nodes rep) = set (plan_ids g)
       \<and> in_order (dependencies g) (ordered_nodes rep) \<and> runs_after (dependencies g) (attempt_events rep)
       \<and> (run_status rep = RunSucceeded \<longleftrightarrow> succeeded_nodes (attempt_events rep) = set (plan_ids g))
     else w' = w \<and> attempt_events rep = [] \<and> (\<exists>e. run_status rep = RunFailed (ValidationFailed e)))"
proof (cases "plan_ok g")
  case True
  obtain w' rep order where run: "plan_execute env g w = Some (w', rep)" "distinct order"
    "set order = {..<length (plan_nodes g)}" "ordered_nodes rep = map (\<lambda>i. node_id (plan_nodes g ! i)) order"
    "in_order (dependencies g) (ordered_nodes rep)"
    "loop_shape g order (attempt_events rep) (run_status rep = RunSucceeded)"
    using plan_execute_shape [OF True fits] by metis
  have ids: "distinct (plan_ids g)"
    using True by (simp add: plan_ok_def)
  note names = order_names [OF ids run(2,3)]
  show ?thesis
    using run names loop_shape_runs [OF run(6) names(1) run(5) [unfolded run(4)]] True by auto
next
  case False
  then obtain e where "validate g = Some (Inl e)"
    using validate_spec [OF fits] by (metis (full_types) sum.exhaust old.unit.exhaust)
  then show ?thesis
    using False by (simp add: plan_execute_def early_report_def)
qed

definition sample_plan_env :: "unit plan_env" where
  "sample_plan_env = \<lparr>env_clock = (\<lambda>w. (w, 0)), env_execute = (\<lambda>_ _ _ w. (w, Some (Inr ())))\<rparr>"

theorem plan_runs_in_dependency_order_witness:
  "\<exists>rep. plan_execute sample_plan_env sample_plan () = Some ((), rep)
     \<and> set (ordered_nodes rep) = {''a'', ''b''} \<and> runs_after {(''a'', ''b'')} (attempt_events rep)"
proof -
  have "set (plan_ids sample_plan) = {''a'', ''b''}" "dependencies sample_plan = {(''a'', ''b'')}"
    by (auto simp: sample_plan_def plan_ids_def dependencies_def Let_def)
  then show ?thesis
    using plan_runs_in_dependency_order [OF sample_plan_fits, of sample_plan_env "()"] sample_plan_ok by auto
qed

text \<open>
  C28: attempts stay within their limits.  On a well-formed plan the report counts the attempts that
  were made, at most the budget.  The attempts at each node are numbered from one, at most as many as
  the node allows; only the last one may succeed, and a denial or a missing approval is never
  retried.  A failed run failed at a node or ran out of time: the other failures cannot happen.
\<close>

theorem plan_attempts_bounded:
  assumes ok: "plan_ok g" and fits: "plan_fits g" and run: "plan_execute env g w = Some (w', rep)"
  shows "attempts_used rep = length (attempt_events rep)
    \<and> attempts_used rep \<le> max_total_attempts (plan_budget_of g)
    \<and> (\<forall>node \<in> set (plan_nodes g). node_succeeded node (node_trace node (attempt_events rep))
         \<or> node_stopped node (node_trace node (attempt_events rep)))
    \<and> (\<forall>f. run_status rep = RunFailed f \<longrightarrow> run_time_failure f)"
proof -
  obtain order where shape: "distinct order" "set order = {..<length (plan_nodes g)}"
    "ordered_nodes rep = map (\<lambda>i. node_id (plan_nodes g ! i)) order" "in_order (dependencies g) (ordered_nodes rep)"
    "attempts_used rep = length (attempt_events rep)"
    "loop_shape g order (attempt_events rep) (run_status rep = RunSucceeded)"
    "run_status rep = RunSucceeded \<or> (\<exists>f. run_status rep = RunFailed f \<and> run_time_failure f)"
    using plan_execute_shape [OF ok fits, of env w] run by (metis option.inject prod.inject)
  have ids: "distinct (plan_ids g)"
    using ok by (simp add: plan_ok_def)
  note names = order_names [OF ids shape(1,2)]
  have "attempts_used rep \<le> attempts_of (plan_nodes g)"
    using loop_shape_length [OF shape(6)] attempts_of_order [OF shape(1,2)] shape(5) by simp
  then have "attempts_used rep \<le> max_total_attempts (plan_budget_of g)"
    using ok by (simp add: plan_ok_def)
  moreover have "node_succeeded node (node_trace node (attempt_events rep)) \<or> node_stopped node (node_trace node (attempt_events rep))"
    if node: "node \<in> set (plan_nodes g)" for node
  proof -
    obtain i where "i < length (plan_nodes g)" "plan_nodes g ! i = node"
      using node unfolding in_set_conv_nth by blast
    then have "i \<in> set order" "plan_nodes g ! i = node"
      using shape(2) by auto
    then show ?thesis
      using loop_shape_runs(3) [OF shape(6) names(1) shape(4) [unfolded shape(3)], of i] by simp
  qed
  ultimately show ?thesis
    using shape(5,7) by auto
qed

theorem plan_attempts_bounded_witness:
  "\<exists>rep. plan_execute sample_plan_env sample_plan () = Some ((), rep) \<and> attempts_used rep \<le> 32"
proof -
  obtain rep where "plan_execute sample_plan_env sample_plan () = Some ((), rep)"
    by (rule plan_execute_shape [OF sample_plan_ok sample_plan_fits, of sample_plan_env "()"]) auto
  then show ?thesis
    using plan_attempts_bounded [OF sample_plan_ok sample_plan_fits, of sample_plan_env "()" "()" rep]
    by (simp add: sample_plan_def default_plan_budget_def Let_def)
qed

end
