(* ===== verification/Shell_Policy.thy ===== *)
theory Shell_Policy
  imports Kernel_Guarantees "HOL-Library.AList"
begin

text \<open>
  Shell requests: how a request is prepared before it reaches the kernel
  (\<open>crates/app/src/tools/shell_request_prep.rs\<close>) and the policy extension that decides about its
  command (\<open>shell_policy_ext.rs\<close>).  The canonical name of a tool comes from the tool catalog, which
  is a parameter of the definitions (\<open>canonical\<close>).  The fields of a JSON object are an association
  list whose order nothing here observes.
\<close>

section \<open>JSON values\<close>

type_synonym json_map = "(string \<times> json) list"

definition json_get :: "json \<Rightarrow> string \<Rightarrow> json option" where
  "json_get v key = (case v of JObject m \<Rightarrow> map_of m key | _ \<Rightarrow> None)"

definition json_as_str :: "json \<Rightarrow> string option" where
  "json_as_str v = (case v of JString s \<Rightarrow> Some s | _ \<Rightarrow> None)"

definition json_as_object :: "json \<Rightarrow> json_map option" where
  "json_as_object v = (case v of JObject m \<Rightarrow> Some m | _ \<Rightarrow> None)"

definition field_str :: "json_map \<Rightarrow> string \<Rightarrow> string option" where
  "field_str m key = Option.bind (map_of m key) json_as_str"

lemma json_simps [simp]:
  "json_get (JObject m) key = map_of m key" "json_as_str (JString s) = Some s"
  "json_as_object (JObject m) = Some m"
  by (simp_all add: json_get_def json_as_str_def json_as_object_def)

lemma json_as_object_Some: "json_as_object v = Some m \<longleftrightarrow> v = JObject m"
  by (cases v) (simp_all add: json_as_object_def)

lemma json_as_str_Some: "json_as_str v = Some s \<longleftrightarrow> v = JString s"
  by (cases v) (simp_all add: json_as_str_def)

lemma field_str_Some: "field_str m key = Some s \<longleftrightarrow> map_of m key = Some (JString s)"
  by (cases "map_of m key") (simp_all add: field_str_def json_as_str_Some)

section \<open>Preparing a request\<close>

text \<open>\<open>str::split_whitespace\<close>.\<close>

function split_whitespace :: "string \<Rightarrow> string list" where
  "split_whitespace [] = []"
| "split_whitespace (c # cs) =
     (if is_ws c then split_whitespace cs
      else takeWhile (\<lambda>x. \<not> is_ws x) (c # cs) # split_whitespace (dropWhile (\<lambda>x. \<not> is_ws x) cs))"
  by pat_completeness auto

termination split_whitespace
  by (relation "measure length") (simp_all add: length_dropWhile_le less_Suc_eq_le)

definition contains_newline :: "string \<Rightarrow> bool" where
  "contains_newline s \<longleftrightarrow> (\<exists>c \<in> set s. c = CHR 0x0A \<or> c = CHR 0x0D)"

definition risky_shell_chars :: "char list" where
  "risky_shell_chars = [CHR 0x27, CHR 0x22, CHR 0x5C, CHR 0x60, CHR ''|'', CHR ''&'', CHR '';'', CHR ''<'',
     CHR ''>'', CHR ''('', CHR '')'', CHR ''$'']"

definition split_shell_command_if_safe :: "string \<Rightarrow> (string \<times> string list) option" where
  "split_shell_command_if_safe command =
     (let trimmed = trim command in
      if trimmed = [] then None
      else if contains_newline trimmed then None
      else if \<not> (\<exists>c \<in> set trimmed. is_ws c) then None
      else if \<exists>c \<in> set trimmed. c \<in> set risky_shell_chars then None
      else (case split_whitespace trimmed of
              [] \<Rightarrow> None
            | command # args \<Rightarrow> if args = [] then None else Some (command, args)))"

fun normalize_shell_payload_object :: "json \<Rightarrow> json" where
  "normalize_shell_payload_object (JObject m) =
     (let args_missing = (case map_of m ''args'' of
            None \<Rightarrow> True
          | Some (JArray values) \<Rightarrow> values = []
          | Some _ \<Rightarrow> False) in
      if \<not> args_missing then JObject m
      else (case field_str m ''command'' of
        None \<Rightarrow> JObject m
      | Some command \<Rightarrow>
          (case split_shell_command_if_safe command of
             None \<Rightarrow> JObject m
           | Some (normalized_command, normalized_args) \<Rightarrow>
               let m = AList.update ''command'' (JString normalized_command) m in
               if normalized_args = [] then JObject (AList.delete ''args'' m)
               else JObject (AList.update ''args'' (JArray (map JString normalized_args)) m))))"
| "normalize_shell_payload_object other = other"

definition normalize_shell_invoke_payload :: "(string \<Rightarrow> string) \<Rightarrow> json \<Rightarrow> json" where
  "normalize_shell_invoke_payload canonical payload =
     (case payload of
        JObject outer \<Rightarrow>
          (case map_option canonical (field_str outer ''tool_id'') of
             None \<Rightarrow> JObject outer
           | Some tool_id \<Rightarrow>
               if tool_id \<noteq> ''shell.exec'' then JObject outer
               else
                 let arguments = (case map_of outer ''arguments'' of
                       None \<Rightarrow> JObject []
                     | Some arguments \<Rightarrow> normalize_shell_payload_object arguments) in
                 JObject (AList.update ''arguments'' arguments (AList.delete ''arguments'' outer)))
      | other \<Rightarrow> other)"

definition normalize_shell_payload_for_request :: "(string \<Rightarrow> string) \<Rightarrow> string \<Rightarrow> json \<Rightarrow> json" where
  "normalize_shell_payload_for_request canonical name payload =
     (if canonical name = ''shell.exec'' then normalize_shell_payload_object payload
      else if canonical name = ''tool.invoke'' then normalize_shell_invoke_payload canonical payload
      else payload)"

definition normalize_shell_request_for_execution ::
    "(string \<Rightarrow> string) \<Rightarrow> tool_core_request \<Rightarrow> tool_core_request" where
  "normalize_shell_request_for_execution canonical request =
     request\<lparr>tool_payload := normalize_shell_payload_for_request canonical (tool_name request) (tool_payload request)\<rparr>"

definition insert_opt :: "string \<Rightarrow> string option \<Rightarrow> json_map \<Rightarrow> json_map" where
  "insert_opt key v m = (case v of None \<Rightarrow> m | Some s \<Rightarrow> AList.update key (JString s) m)"

definition inject_tool_lease_binding ::
    "string option \<Rightarrow> string option \<Rightarrow> string option \<Rightarrow> json_map \<Rightarrow> json_map" where
  "inject_tool_lease_binding token session turn payload =
     insert_opt ''_lease_turn_id'' turn
       (insert_opt ''_lease_session_id'' session (insert_opt ''_lease_token_id'' token payload))"

definition prepare_kernel_tool_request ::
    "(string \<Rightarrow> string) \<Rightarrow> tool_core_request \<Rightarrow> capability set \<Rightarrow> string option \<Rightarrow> string option \<Rightarrow> string option
       \<Rightarrow> tool_core_request" where
  "prepare_kernel_tool_request canonical request granted token session turn =
     (let request = normalize_shell_request_for_execution canonical request;
          name = canonical (tool_name request) in
      if name \<notin> {''tool.search'', ''tool.invoke''} then request
      else (case tool_payload request of
              JObject payload \<Rightarrow>
                let payload =
                  (if name = ''tool.search''
                   then AList.update ''_granted_capabilities''
                     (JArray (map (\<lambda>c. JString (capability_debug c)) (caps_iter granted))) payload
                   else payload) in
                request\<lparr>tool_payload := JObject (inject_tool_lease_binding token session turn payload)\<rparr>
            | _ \<Rightarrow> request))"

text \<open>
  What a shell request shows to the operator: the arguments only by their number.
\<close>

definition summarize_shell_request_for_display :: "json \<Rightarrow> json" where
  "summarize_shell_request_for_display request =
     (case request of
        JObject m \<Rightarrow>
          JObject ((case field_str m ''command'' of None \<Rightarrow> [] | Some c \<Rightarrow> [(''command'', JString c)])
            @ (case map_of m ''timeout_ms'' of None \<Rightarrow> [] | Some t \<Rightarrow> [(''timeout_ms'', t)])
            @ (case map_of m ''args'' of
                 Some (JArray values) \<Rightarrow>
                   if values = [] then [] else [(''args_redacted'', JNumber (int (length values)))]
               | _ \<Rightarrow> []))
      | other \<Rightarrow> other)"

definition summarize_tool_request_for_display :: "(string \<Rightarrow> string) \<Rightarrow> string \<Rightarrow> json \<Rightarrow> json" where
  "summarize_tool_request_for_display canonical name payload =
     (let name = canonical name;
          normalized = normalize_shell_payload_for_request canonical name payload in
      if name \<noteq> ''shell.exec'' \<and> name \<noteq> ''bash.exec'' then normalized
      else summarize_shell_request_for_display normalized)"

section \<open>The policy\<close>

definition repairable_tool_input_prefix :: string where
  "repairable_tool_input_prefix = ''repairable_tool_input: ''"

definition repairable_tool_input_reason :: "string \<Rightarrow> string" where
  "repairable_tool_input_reason reason = repairable_tool_input_prefix @ reason"

definition is_repairable_tool_input_reason :: "string \<Rightarrow> bool" where
  "is_repairable_tool_input_reason reason \<longleftrightarrow> prefix repairable_tool_input_prefix reason"

definition strip_repairable_tool_input_prefix :: "string \<Rightarrow> string" where
  "strip_repairable_tool_input_prefix reason =
     (case strip_prefix repairable_tool_input_prefix reason of None \<Rightarrow> reason | Some rest \<Rightarrow> rest)"

datatype shell_policy_default = ShellDeny | ShellAllow

definition shell_policy_default_parse :: "string \<Rightarrow> shell_policy_default" where
  "shell_policy_default_parse s = (if to_ascii_lowercase s = ''allow'' then ShellAllow else ShellDeny)"

record tool_policy_extension =
  hard_deny :: "string set"
  shell_allowed :: "string set"
  default_mode :: shell_policy_default

text \<open>The fields of the tool runtime configuration that the two policies read.\<close>

record tool_runtime_config =
  shell_allow :: "string set"
  shell_deny :: "string set"
  shell_default_mode :: shell_policy_default
  config_file_root :: "string option"

definition tool_policy_from_config :: "tool_runtime_config \<Rightarrow> tool_policy_extension" where
  "tool_policy_from_config rt =
     \<lparr>hard_deny = shell_deny rt, shell_allowed = shell_allow rt, default_mode = shell_default_mode rt\<rparr>"

definition validate_shell_command_name :: "string \<Rightarrow> string + string" where
  "validate_shell_command_name command =
     (let trimmed = trim command in
      if trimmed = [] then
        Inl (repairable_tool_input_reason ''shell.exec requires payload.command. Provide a bare executable in payload.command and move arguments into payload.args.'')
      else if contains_newline trimmed then
        Inl (repairable_tool_input_reason ''shell.exec requires payload.command. Provide a bare executable in payload.command and move arguments into payload.args.'')
      else if \<exists>c \<in> set trimmed. is_ws c then
        Inl (repairable_tool_input_reason ''shell.exec payload.command must be a bare executable name; move arguments into payload.args.'')
      else if CHR ''/'' \<in> set trimmed \<or> CHR 0x5C \<in> set trimmed then
        Inl (repairable_tool_input_reason (''shell.exec payload.command `'' @ trimmed @ ''` must be a bare lowercase executable name without path separators.''))
      else
        let normalized = to_ascii_lowercase trimmed in
        if trimmed \<noteq> normalized then
          Inl (''policy_denied: shell command `'' @ trimmed @ ''` must use a lowercase bare command name to match shell policy'')
        else Inr normalized)"

definition shell_exec_approval_key_for_normalized_command :: "string \<Rightarrow> string" where
  "shell_exec_approval_key_for_normalized_command command = ''tool:shell.exec:'' @ command"

definition shell_exec_internal_approval_context :: "string \<Rightarrow> json" where
  "shell_exec_internal_approval_context key =
     JObject [(''shell_approval'', JObject [(''approval_key'', JString key)])]"

definition reserved_internal_tool_context_key_in_map :: "json_map \<Rightarrow> string option" where
  "reserved_internal_tool_context_key_in_map body =
     (if map_of body ''_loong'' \<noteq> None then Some ''_loong'' else None)"

definition trusted_internal_tool_context_from_payload :: "json \<Rightarrow> json_map option" where
  "trusted_internal_tool_context_from_payload payload =
     Option.bind (json_as_object payload) (\<lambda>body.
     Option.bind (reserved_internal_tool_context_key_in_map body) (\<lambda>key.
     Option.bind (map_of body key) json_as_object))"

definition shell_exec_matches_trusted_internal_approval :: "json_map \<Rightarrow> string \<Rightarrow> bool" where
  "shell_exec_matches_trusted_internal_approval payload key \<longleftrightarrow>
     Option.bind (trusted_internal_tool_context_from_payload (JObject payload)) (\<lambda>context.
     Option.bind (map_of context ''shell_approval'') (\<lambda>approval.
     Option.bind (json_as_object approval) (\<lambda>approval.
     field_str approval ''approval_key''))) = Some key"

definition authorize_shell_payload ::
    "tool_policy_extension \<Rightarrow> string \<Rightarrow> json_map \<Rightarrow> policy_error + unit" where
  "authorize_shell_payload ext name payload =
     (case field_str payload ''command'' of
        None \<Rightarrow> Inr ()
      | Some command \<Rightarrow>
          let trimmed_command = trim command in
          if trimmed_command = [] then Inr ()
          else
            and_then (map_err (\<lambda>reason. ToolCallDenied name reason)
                (validate_shell_command_name trimmed_command)) (\<lambda>basename.
            if basename \<in> hard_deny ext then
              Inl (ToolCallDenied name (''command `'' @ basename @ ''` is blocked by shell policy''))
            else if basename \<in> shell_allowed ext then Inr ()
            else if shell_exec_matches_trusted_internal_approval payload
                (shell_exec_approval_key_for_normalized_command basename) then Inr ()
            else (case default_mode ext of
                ShellAllow \<Rightarrow> Inr ()
              | ShellDeny \<Rightarrow>
                  Inl (ToolCallDenied name
                    (''command `'' @ basename @ ''` is not in the allow list (default-deny policy)'')))))"

definition authorize_direct_shell_payload :: "tool_runtime_config \<Rightarrow> json_map \<Rightarrow> string + unit" where
  "authorize_direct_shell_payload rt payload =
     map_err (\<lambda>error. ''policy_denied: '' @ policy_error_display error)
       (authorize_shell_payload (tool_policy_from_config rt) ''shell.exec'' payload)"

definition effective_shell_request :: "(string \<Rightarrow> string) \<Rightarrow> json \<Rightarrow> string \<times> json option" where
  "effective_shell_request canonical params =
     (let raw_tool_name = (case Option.bind (json_get params ''tool_name'') json_as_str of
            None \<Rightarrow> [] | Some s \<Rightarrow> s);
          name = canonical raw_tool_name in
      if name \<noteq> ''tool.invoke'' then (name, json_get params ''payload'')
      else
        let payload = json_get params ''payload'';
            invoked = (case Option.bind (Option.bind payload (\<lambda>p. json_get p ''tool_id'')) json_as_str of
              None \<Rightarrow> name | Some s \<Rightarrow> canonical s) in
        (invoked, Option.bind payload (\<lambda>p. json_get p ''arguments'')))"

definition tool_policy_authorize ::
    "(string \<Rightarrow> string) \<Rightarrow> tool_policy_extension \<Rightarrow> policy_extension_context \<Rightarrow> policy_error + unit" where
  "tool_policy_authorize canonical ext ctx =
     (case ctx_request_parameters ctx of
        None \<Rightarrow> Inr ()
      | Some params \<Rightarrow>
          (case effective_shell_request canonical params of (name, payload) \<Rightarrow>
             if name \<noteq> ''shell.exec'' then Inr ()
             else (case Option.bind payload json_as_object of
                     None \<Rightarrow> Inr ()
                   | Some payload \<Rightarrow> authorize_shell_payload ext name payload)))"

definition tool_policy :: "(string \<Rightarrow> string) \<Rightarrow> tool_policy_extension \<Rightarrow> 'w policy_extension" where
  "tool_policy canonical ext =
     \<lparr>policy_extension_name = ''tool-policy'', authorize_extension = (\<lambda>_. tool_policy_authorize canonical ext)\<rparr>"

section \<open>Command names\<close>

definition bare_command :: "string \<Rightarrow> bool" where
  "bare_command c \<longleftrightarrow> c \<noteq> [] \<and>
     (\<forall>x \<in> set c. \<not> is_ws x \<and> x \<noteq> CHR ''/'' \<and> x \<noteq> CHR 0x5C \<and> \<not> is_ascii_uppercase x)"

lemma lower_char_fix: "lower_char c = c \<longleftrightarrow> \<not> is_ascii_uppercase c"
proof -
  have "char_of ((of_char c :: nat) + 32) \<noteq> c" if "is_ascii_uppercase c"
  proof
    assume "char_of ((of_char c :: nat) + 32) = c"
    then have "of_char (char_of ((of_char c :: nat) + 32) :: char) = (of_char c :: nat)" by simp
    with that show False by (simp add: is_ascii_uppercase_def Let_def)
  qed
  then show ?thesis by (auto simp: lower_char_def)
qed

lemma lowercase_fix: "s = to_ascii_lowercase s \<longleftrightarrow> (\<forall>c \<in> set s. \<not> is_ascii_uppercase c)"
  using map_eq_conv [of lower_char s "\<lambda>c. c"]
  by (auto simp: to_ascii_lowercase_def lower_char_fix eq_commute [of s])

lemma newline_is_ws: "contains_newline s \<Longrightarrow> \<exists>c \<in> set s. is_ws c"
proof -
  assume "contains_newline s"
  moreover have "is_ws (CHR 0x0A)" "is_ws (CHR 0x0D)" by (simp_all add: is_ws_def)
  ultimately show ?thesis unfolding contains_newline_def by blast
qed

lemma bare_command_trim: "bare_command c \<Longrightarrow> trim c = c"
  by (rule trim_no_ws) (simp add: bare_command_def)

lemma validate_shell_command_name_Inr:
  "validate_shell_command_name command = Inr b \<longleftrightarrow> b = trim command \<and> bare_command b"
proof -
  have "validate_shell_command_name command = Inr b \<longleftrightarrow>
      trim command \<noteq> [] \<and> \<not> contains_newline (trim command) \<and> \<not> (\<exists>c \<in> set (trim command). is_ws c)
      \<and> CHR ''/'' \<notin> set (trim command) \<and> CHR 0x5C \<notin> set (trim command)
      \<and> trim command = to_ascii_lowercase (trim command) \<and> b = to_ascii_lowercase (trim command)"
    by (auto simp: validate_shell_command_name_def Let_def)
  also have "\<dots> \<longleftrightarrow> b = trim command \<and> bare_command b"
    using lowercase_fix [of "trim command"] newline_is_ws [of "trim command"]
    unfolding bare_command_def by auto
  finally show ?thesis .
qed

text \<open>What the configured lists say of a command name.\<close>

definition command_admitted :: "tool_policy_extension \<Rightarrow> json_map \<Rightarrow> string \<Rightarrow> bool" where
  "command_admitted ext payload c \<longleftrightarrow> bare_command c \<and> c \<notin> hard_deny ext
     \<and> (c \<in> shell_allowed ext \<or> default_mode ext = ShellAllow
        \<or> shell_exec_matches_trusted_internal_approval payload (''tool:shell.exec:'' @ c))"

lemma authorize_shell_payload_Inr:
  "authorize_shell_payload ext name payload = Inr u \<longleftrightarrow>
     (case field_str payload ''command'' of
        None \<Rightarrow> True
      | Some command \<Rightarrow> trim command = [] \<or> command_admitted ext payload (trim command))"
proof (cases "field_str payload ''command''")
  case (Some command)
  show ?thesis
  proof (cases "validate_shell_command_name (trim command)")
    case (Inl reason)
    then have "\<not> bare_command (trim command)"
      using validate_shell_command_name_Inr [of "trim command" "trim command"] by auto
    with Some Inl show ?thesis
      by (auto simp: authorize_shell_payload_def command_admitted_def Let_def)
  next
    case (Inr b)
    then have b: "b = trim command" "bare_command (trim command)"
      using validate_shell_command_name_Inr [of "trim command" b] by auto
    with Some Inr show ?thesis
      by (cases "default_mode ext")
        (auto simp: authorize_shell_payload_def command_admitted_def Let_def
          shell_exec_approval_key_for_normalized_command_def)
  qed
qed (simp add: authorize_shell_payload_def)

section \<open>Words\<close>

lemma split_whitespace_word:
  "w \<in> set (split_whitespace s) \<Longrightarrow> w \<noteq> [] \<and> (\<forall>c \<in> set w. \<not> is_ws c)"
proof (induction s rule: split_whitespace.induct)
  case (2 c cs)
  show ?case
  proof (cases "is_ws c")
    case True
    with 2 show ?thesis by simp
  next
    case False
    with 2(3) consider "w = c # takeWhile (\<lambda>x. \<not> is_ws x) cs"
      | "w \<in> set (split_whitespace (dropWhile (\<lambda>x. \<not> is_ws x) cs))"
      by auto
    then show ?thesis
    proof cases
      case 1
      with False show ?thesis by (auto dest: set_takeWhileD)
    next
      case 2
      with False "2.IH"(2) show ?thesis by blast
    qed
  qed
qed simp

lemma split_whitespace_plain: "s \<noteq> [] \<Longrightarrow> \<forall>c \<in> set s. \<not> is_ws c \<Longrightarrow> split_whitespace s = [s]"
  by (cases s) (simp_all add: takeWhile_eq_all_conv [THEN iffD2] dropWhile_eq_Nil_conv [THEN iffD2])

lemma split_whitespace_blank: "\<forall>c \<in> set s. is_ws c \<Longrightarrow> split_whitespace s = []"
  by (induction s) simp_all

lemma split_whitespace_trim_start: "split_whitespace (trim_start s) = split_whitespace s"
  unfolding trim_start_def by (induction s) simp_all

lemma split_whitespace_append_blank:
  "\<forall>c \<in> set t. is_ws c \<Longrightarrow> split_whitespace (s @ t) = split_whitespace s"
proof (induction s rule: split_whitespace.induct)
  case 1
  then show ?case by (simp add: split_whitespace_blank)
next
  case (2 c cs)
  have stop: "takeWhile (\<lambda>x. \<not> is_ws x) t = []" "dropWhile (\<lambda>x. \<not> is_ws x) t = t"
    using 2(3) by (cases t; simp)+
  show ?case
  proof (cases "\<exists>x \<in> set cs. is_ws x")
    case True
    then have "takeWhile (\<lambda>x. \<not> is_ws x) (cs @ t) = takeWhile (\<lambda>x. \<not> is_ws x) cs"
      "dropWhile (\<lambda>x. \<not> is_ws x) (cs @ t) = dropWhile (\<lambda>x. \<not> is_ws x) cs @ t"
      by (auto simp: takeWhile_append1 dropWhile_append1)
    with 2 show ?thesis by simp
  next
    case False
    then have "takeWhile (\<lambda>x. \<not> is_ws x) (cs @ t) = cs" "dropWhile (\<lambda>x. \<not> is_ws x) (cs @ t) = t"
      "takeWhile (\<lambda>x. \<not> is_ws x) cs = cs" "dropWhile (\<lambda>x. \<not> is_ws x) cs = []"
      using stop by (auto simp: takeWhile_append2 dropWhile_append2)
    with 2 show ?thesis by (simp add: split_whitespace_blank del: takeWhile_eq_all_conv dropWhile_eq_Nil_conv)
  qed
qed

lemma split_whitespace_trim: "split_whitespace (trim s) = split_whitespace s"
proof -
  define u where "u = trim_start s"
  have "u = trim_end u @ rev (takeWhile is_ws (rev u))"
    by (simp add: trim_end_def flip: rev_append)
  then have "split_whitespace u = split_whitespace (trim_end u)"
    using split_whitespace_append_blank [of "rev (takeWhile is_ws (rev u))" "trim_end u"]
    by (auto dest: set_takeWhileD)
  then show ?thesis
    using split_whitespace_trim_start [of s] by (simp add: trim_def u_def)
qed

lemma split_whitespace_Nil: "split_whitespace s = [] \<longleftrightarrow> trim s = []"
  unfolding trim_Nil_iff
  by (induction s rule: split_whitespace.induct) auto

section \<open>Prepared requests\<close>

lemma split_shell_command_Some:
  assumes "split_shell_command_if_safe command = Some (c, args)"
  shows "split_whitespace command = c # args" "args \<noteq> []"
    "set (trim command) \<inter> set risky_shell_chars = {}" "\<not> contains_newline (trim command)"
  using assms split_whitespace_trim [of command]
  by (auto simp: split_shell_command_if_safe_def Let_def split: if_splits list.splits)

lemma approval_cong:
  "map_of m ''_loong'' = map_of m' ''_loong'' \<Longrightarrow>
     shell_exec_matches_trusted_internal_approval m key = shell_exec_matches_trusted_internal_approval m' key"
  by (simp add: shell_exec_matches_trusted_internal_approval_def trusted_internal_tool_context_from_payload_def
      reserved_internal_tool_context_key_in_map_def)

lemma admitted_cong:
  "map_of m ''_loong'' = map_of m' ''_loong'' \<Longrightarrow> command_admitted ext m c = command_admitted ext m' c"
  using approval_cong [of m m'] by (simp add: command_admitted_def)

lemma normalize_shell_object_cases:
  assumes "field_str m ''command'' = Some command"
  obtains "normalize_shell_payload_object (JObject m) = JObject m"
  | c args m' where "split_shell_command_if_safe command = Some (c, args)"
      "normalize_shell_payload_object (JObject m) = JObject m'"
      "map_of m' = (map_of m)(''command'' \<mapsto> JString c, ''args'' \<mapsto> JArray (map JString args))"
proof (cases "normalize_shell_payload_object (JObject m) = JObject m")
  case False
  then obtain c args where split: "split_shell_command_if_safe command = Some (c, args)"
    using assms by (cases "split_shell_command_if_safe command") (auto simp: Let_def split: if_splits)
  with assms False split_shell_command_Some(2) [OF split]
  have "normalize_shell_payload_object (JObject m)
      = JObject (AList.update ''args'' (JArray (map JString args)) (AList.update ''command'' (JString c) m))"
    by (auto simp: Let_def split: if_splits)
  with split show thesis
    using that(2) [of c args "AList.update ''args'' (JArray (map JString args)) (AList.update ''command'' (JString c) m)"]
    by (simp add: update_conv')
qed (rule that(1))

text \<open>
  A prepared payload that passes the policy: the first word of the command is an admitted command
  name.  A command of several words is passed on only without quoting, substitution and chaining
  characters, and then with its words as separate arguments.
\<close>

lemma prepared_shell_admitted:
  assumes command: "field_str m ''command'' = Some command" "trim command \<noteq> []"
    and prepared: "normalize_shell_payload_object (JObject m) = JObject m'"
    and authorized: "authorize_shell_payload ext name m' = Inr ()"
  shows "\<exists>w ws. split_whitespace command = w # ws \<and> command_admitted ext m w
    \<and> field_str m' ''command'' = Some (if ws = [] then command else w)
    \<and> (ws = [] \<or> set (trim command) \<inter> set risky_shell_chars = {}
         \<and> map_of m' ''args'' = Some (JArray (map JString ws)))"
  using command(1)
proof (cases rule: normalize_shell_object_cases)
  case 1
  with prepared have m': "m' = m" by simp
  with authorized command have ok: "command_admitted ext m (trim command)"
    by (simp add: authorize_shell_payload_Inr)
  then have "split_whitespace (trim command) = [trim command]"
    using command(2) by (intro split_whitespace_plain) (auto simp: command_admitted_def bare_command_def)
  with ok command(1) m' show ?thesis by (simp add: split_whitespace_trim)
next
  case (2 c args m2)
  with prepared have m': "map_of m' = (map_of m)(''command'' \<mapsto> JString c, ''args'' \<mapsto> JArray (map JString args))"
    by simp
  note split = split_shell_command_Some [OF 2(1)]
  have c: "field_str m' ''command'' = Some c" using m' by (simp add: field_str_def)
  have word: "c \<noteq> []" "trim c = c"
    using split_whitespace_word [of c command] split(1) by (auto intro: trim_no_ws)
  with authorized c have "command_admitted ext m' c"
    by (simp add: authorize_shell_payload_Inr)
  with admitted_cong [of m m' ext c] m' have "command_admitted ext m c" by simp
  with split c m' show ?thesis by simp
qed

text \<open>
  The shell policy accepts exactly the admitted commands.  A payload passes when it carries no
  command text, or a blank one, or when its trimmed command is a bare lower-case name that is not on
  the deny list and is on the allow list, approved by the trusted context of the payload, or let
  through by the default; a refusal is always a denied tool call.
\<close>

theorem shell_policy_accepts_exactly:
  "(authorize_shell_payload ext name payload = Inr () \<longleftrightarrow>
     (case field_str payload ''command'' of
        None \<Rightarrow> True
      | Some command \<Rightarrow> trim command = [] \<or> command_admitted ext payload (trim command)))
   \<and> (authorize_shell_payload ext name payload = Inr ()
      \<or> (\<exists>reason. authorize_shell_payload ext name payload = Inl (ToolCallDenied name reason)))"
proof
  show "authorize_shell_payload ext name payload = Inr ()
      \<or> (\<exists>reason. authorize_shell_payload ext name payload = Inl (ToolCallDenied name reason))"
    by (auto simp: authorize_shell_payload_def Let_def and_then_def map_err_def
        split: option.splits sum.splits shell_policy_default.splits)
qed (rule authorize_shell_payload_Inr)

end
