(* ===== verification/Unix_Paths.thy ===== *)
theory Unix_Paths
  imports Rust_Strings
begin

text \<open>
  Paths as \<open>std::path\<close> has them on Unix, and the lexical normalisation that the file tools share
  (\<open>normalize_without_fs\<close> of \<open>crates/app/src/tools/mod.rs\<close>).  A path is its text; the library splits
  it at slashes, drops empty segments and single dots, and keeps a leading dot as \<open>CurDir\<close>.  The
  parent of a path is written with single separators, which names the same file.
\<close>

section \<open>Paths of the standard library\<close>

datatype path_component = PathPrefix string | RootDir | CurDir | ParentDir | NormalName string

definition is_absolute :: "string \<Rightarrow> bool" where
  "is_absolute s \<longleftrightarrow> s \<noteq> [] \<and> hd s = CHR ''/''"

definition segment_component :: "string \<Rightarrow> path_component" where
  "segment_component seg = (if seg = ''..'' then ParentDir else NormalName seg)"

definition path_segments :: "string \<Rightarrow> string list" where
  "path_segments s = filter (\<lambda>seg. seg \<noteq> [] \<and> seg \<noteq> ''.'') (split_on (CHR ''/'') s)"

definition path_components :: "string \<Rightarrow> path_component list" where
  "path_components s =
     (if is_absolute s then [RootDir] else if hd (split_on (CHR ''/'') s) = ''.'' then [CurDir] else [])
     @ map segment_component (path_segments s)"

text \<open>\<open>PathBuf::push\<close>, of which \<open>Path::join\<close> is the copying form.\<close>

definition path_push :: "string \<Rightarrow> string \<Rightarrow> string" where
  "path_push buf p =
     (if is_absolute p then p
      else if buf = [] \<or> last buf = CHR ''/'' then buf @ p
      else buf @ ''/'' @ p)"

fun component_text :: "path_component \<Rightarrow> string" where
  "component_text (PathPrefix s) = s"
| "component_text RootDir = ''/''"
| "component_text CurDir = ''.''"
| "component_text ParentDir = ''..''"
| "component_text (NormalName s) = s"

definition path_of :: "path_component list \<Rightarrow> string" where
  "path_of cs = foldl path_push [] (map component_text cs)"

definition path_starts_with :: "string \<Rightarrow> string \<Rightarrow> bool" where
  "path_starts_with p base \<longleftrightarrow> prefix (path_components base) (path_components p)"

definition path_file_name :: "string \<Rightarrow> string option" where
  "path_file_name p =
     (case rev (path_components p) of
        NormalName n # _ \<Rightarrow> Some n
      | _ \<Rightarrow> None)"

definition path_parent :: "string \<Rightarrow> string option" where
  "path_parent p =
     (case rev (path_components p) of
        [] \<Rightarrow> None
      | RootDir # _ \<Rightarrow> None
      | PathPrefix _ # _ \<Rightarrow> None
      | _ # rest \<Rightarrow> Some (path_of (rev rest)))"

section \<open>Lexical normalisation\<close>

text \<open>One round of the loop over the components: the prefix, whether there is a root, the parts.\<close>

type_synonym normal_state = "string option \<times> bool \<times> string list"

fun normalize_component :: "normal_state \<Rightarrow> path_component \<Rightarrow> normal_state" where
  "normalize_component (pre, has_root, parts) (PathPrefix v) = (Some v, has_root, parts)"
| "normalize_component (pre, has_root, parts) RootDir = (pre, True, parts)"
| "normalize_component (pre, has_root, parts) CurDir = (pre, has_root, parts)"
| "normalize_component (pre, has_root, parts) ParentDir =
     (pre, has_root,
      if parts \<noteq> [] then
        if last parts \<noteq> ''..'' then butlast parts
        else if \<not> has_root then parts @ [''..''] else parts
      else if \<not> has_root then parts @ [''..''] else parts)"
| "normalize_component (pre, has_root, parts) (NormalName v) = (pre, has_root, parts @ [v])"

definition normalize_without_fs :: "string \<Rightarrow> string" where
  "normalize_without_fs path =
     (case foldl normalize_component (None, False, []) (path_components path) of
        (pre, has_root, parts) \<Rightarrow>
          let normalized = (case pre of None \<Rightarrow> [] | Some v \<Rightarrow> path_push [] v);
              normalized = (if has_root then path_push normalized ''/'' else normalized);
              normalized = foldl path_push normalized parts in
          if normalized = [] then (if has_root then ''/'' else ''.'') else normalized)"

section \<open>Components and their text\<close>

definition plain_name :: "string \<Rightarrow> bool" where
  "plain_name n \<longleftrightarrow> n \<noteq> [] \<and> n \<noteq> ''.'' \<and> n \<noteq> ''..'' \<and> CHR ''/'' \<notin> set n"

fun inner_component :: "path_component \<Rightarrow> bool" where
  "inner_component ParentDir \<longleftrightarrow> True"
| "inner_component (NormalName n) \<longleftrightarrow> plain_name n"
| "inner_component _ \<longleftrightarrow> False"

text \<open>The lists that the library produces: a root or a single dot at most at the front.\<close>

definition proper_components :: "path_component list \<Rightarrow> bool" where
  "proper_components cs \<longleftrightarrow>
     (\<exists>front rest. cs = front @ rest \<and> front \<in> {[], [RootDir], [CurDir]} \<and> list_all inner_component rest)"

lemma proper_inner:
  assumes "list_all inner_component rest"
  shows "proper_components rest" "proper_components (RootDir # rest)" "proper_components (CurDir # rest)"
    "proper_components [CurDir]"
proof -
  have "proper_components (front @ cs)" if "front \<in> {[], [RootDir], [CurDir]}" "list_all inner_component cs" for front cs
    unfolding proper_components_def using that by blast
  from this [of "[]" rest] this [of "[RootDir]" rest] this [of "[CurDir]" rest] this [of "[CurDir]" "[]"] assms
  show "proper_components rest" "proper_components (RootDir # rest)" "proper_components (CurDir # rest)"
    "proper_components [CurDir]"
    by simp_all
qed

lemma segments_inner: "list_all inner_component (map segment_component (path_segments s))"
  by (auto simp: list_all_iff path_segments_def segment_component_def plain_name_def dest: split_on_no_sep)

lemma proper_path_components: "proper_components (path_components s)"
proof -
  have "path_components s \<in>
      {front @ map segment_component (path_segments s) | front. front \<in> {[], [RootDir], [CurDir]}}"
    unfolding path_components_def by auto
  then show ?thesis
    unfolding proper_components_def using segments_inner [of s] by blast
qed

lemma proper_butlast: "proper_components cs \<Longrightarrow> proper_components (butlast cs)"
proof -
  assume "proper_components cs"
  then obtain front rest where cs: "cs = front @ rest" "front \<in> {[], [RootDir], [CurDir]}"
      "list_all inner_component rest"
    unfolding proper_components_def by blast
  show ?thesis
  proof (cases "rest = []")
    case True
    with cs have "butlast cs = []" by auto
    then show ?thesis unfolding proper_components_def by auto
  next
    case False
    with cs have "butlast cs = front @ butlast rest" by (simp add: butlast_append)
    moreover have "list_all inner_component (butlast rest)"
      using cs(3) by (auto simp: list_all_iff dest: in_set_butlastD)
    ultimately show ?thesis unfolding proper_components_def using cs(2) by blast
  qed
qed

text \<open>
  Texts of inner components are joined by slashes.
\<close>

lemma inner_text:
  assumes "inner_component c"
  shows "component_text c \<noteq> []" "component_text c \<noteq> ''.''" "CHR ''/'' \<notin> set (component_text c)"
    "segment_component (component_text c) = c" "\<not> is_absolute (component_text c)"
proof -
  have "c = ParentDir \<or> (\<exists>n. c = NormalName n \<and> plain_name n)"
    using assms by (cases c) simp_all
  then show "component_text c \<noteq> []" "component_text c \<noteq> ''.''" "CHR ''/'' \<notin> set (component_text c)"
      "segment_component (component_text c) = c"
    by (auto simp: plain_name_def segment_component_def)
  then show "\<not> is_absolute (component_text c)"
    using hd_in_set [of "component_text c"] by (auto simp: is_absolute_def simp del: hd_in_set)
qed

lemma push_inner:
  assumes "inner_component c" "buf \<noteq> []" "last buf \<noteq> CHR ''/''"
  shows "path_push buf (component_text c) = buf @ ''/'' @ component_text c"
  using assms inner_text(5) [OF assms(1)] by (simp add: path_push_def)

lemma pushes_join:
  assumes "list_all inner_component cs" "inner_component c"
  shows "foldl path_push (front @ component_text c) (map component_text cs)
     = front @ join ''/'' (map component_text (c # cs))"
  using assms
proof (induction cs arbitrary: front c)
  case (Cons d cs)
  have "last (front @ component_text c) \<noteq> CHR ''/''"
    using inner_text(1,3) [OF Cons.prems(2)] last_in_set [of "component_text c"] by (auto simp del: last_in_set)
  then have "path_push (front @ component_text c) (component_text d)
      = (front @ component_text c @ ''/'') @ component_text d"
    using Cons.prems push_inner [of d "front @ component_text c"] inner_text(1) [OF Cons.prems(2)] by simp
  with Cons.IH [of d "front @ component_text c @ ''/''"] Cons.prems show ?case by simp
qed simp

lemma segments_of_join:
  assumes "list_all inner_component cs" "cs \<noteq> []"
  shows "split_on (CHR ''/'') (join ''/'' (map component_text cs)) = map component_text cs"
  using assms inner_text(3) by (intro split_on_join) (auto simp: list_all_iff)

lemma kept_segments:
  "list_all inner_component cs \<Longrightarrow>
     filter (\<lambda>seg. seg \<noteq> [] \<and> seg \<noteq> ''.'') (map component_text cs) = map component_text cs"
  using inner_text(1,2) by (auto simp: filter_id_conv list_all_iff)

lemma component_of_text:
  "list_all inner_component cs \<Longrightarrow> map (segment_component \<circ> component_text) cs = cs"
  using inner_text(4) by (intro map_idI) (auto simp: list_all_iff)

lemma path_of_inner:
  assumes "list_all inner_component rest" "rest \<noteq> []"
  shows "path_of rest = join ''/'' (map component_text rest)"
    and "path_of (RootDir # rest) = CHR ''/'' # join ''/'' (map component_text rest)"
    and "path_of (CurDir # rest) = CHR ''.'' # CHR ''/'' # join ''/'' (map component_text rest)"
proof -
  obtain c cs where rest: "rest = c # cs" using assms(2) by (cases rest) auto
  then have c: "inner_component c" "list_all inner_component cs" using assms(1) by auto
  note plain = inner_text(1,5) [OF c(1)]
  have "path_push [] (component_text c) = [] @ component_text c"
    "path_push ''/'' (component_text c) = ''/'' @ component_text c"
    "path_push ''.'' (component_text c) = ''./'' @ component_text c"
    using plain by (simp_all add: path_push_def)
  then show "path_of rest = join ''/'' (map component_text rest)"
    "path_of (RootDir # rest) = CHR ''/'' # join ''/'' (map component_text rest)"
    "path_of (CurDir # rest) = CHR ''.'' # CHR ''/'' # join ''/'' (map component_text rest)"
    using pushes_join [OF c(2,1), of "[]"] pushes_join [OF c(2,1), of "''/''"]
      pushes_join [OF c(2,1), of "''./''"]
    by (simp_all add: path_of_def rest path_push_def [of "[]" "''/''"] path_push_def [of "[]" "''.''"]
        is_absolute_def)
qed

lemma components_of_join:
  assumes "list_all inner_component rest" "rest \<noteq> []"
  shows "path_components (join ''/'' (map component_text rest)) = rest"
    and "path_components (CHR ''/'' # join ''/'' (map component_text rest)) = RootDir # rest"
    and "path_components (CHR ''.'' # CHR ''/'' # join ''/'' (map component_text rest)) = CurDir # rest"
proof -
  obtain c cs where rest: "rest = c # cs" using assms(2) by (cases rest) auto
  then have c: "inner_component c" using assms(1) by auto
  have split: "split_on (CHR ''/'') (join ''/'' (map component_text rest)) = map component_text rest"
    using assms by (rule segments_of_join)
  have "join ''/'' (map component_text rest) \<noteq> []" "hd (join ''/'' (map component_text rest)) = hd (component_text c)"
    using inner_text(1) [OF c] by (cases cs; simp add: rest)+
  then have "\<not> is_absolute (join ''/'' (map component_text rest))"
    using inner_text(1,5) [OF c] by (simp add: is_absolute_def)
  moreover have "hd (map component_text rest) \<noteq> ''.''" using inner_text(2) [OF c] by (simp add: rest)
  ultimately show "path_components (join ''/'' (map component_text rest)) = rest"
    "path_components (CHR ''/'' # join ''/'' (map component_text rest)) = RootDir # rest"
    "path_components (CHR ''.'' # CHR ''/'' # join ''/'' (map component_text rest)) = CurDir # rest"
    using kept_segments [OF assms(1)] component_of_text [OF assms(1)]
    by (simp_all add: path_components_def path_segments_def split is_absolute_def)
qed

lemma components_of_path_of:
  assumes "proper_components cs"
  shows "path_components (path_of cs) = cs"
proof -
  obtain front rest where cs: "cs = front @ rest" "front \<in> {[], [RootDir], [CurDir]}"
      "list_all inner_component rest"
    using assms unfolding proper_components_def by blast
  show ?thesis
  proof (cases "rest = []")
    case True
    with cs show ?thesis
      by (auto simp: path_of_def path_push_def path_components_def path_segments_def is_absolute_def)
  next
    case False
    with cs show ?thesis using path_of_inner components_of_join by auto
  qed
qed

lemma parent_components:
  assumes "path_parent p = Some q"
  shows "path_components q = butlast (path_components p)" "path_components p \<noteq> []"
proof -
  have "path_components p \<noteq> [] \<and> q = path_of (butlast (path_components p))"
    using assms by (cases "path_components p" rule: rev_cases)
      (auto simp: path_parent_def split: path_component.splits)
  then show "path_components q = butlast (path_components p)" "path_components p \<noteq> []"
    using components_of_path_of [OF proper_butlast [OF proper_path_components]] by auto
qed

section \<open>Where a path leads\<close>

text \<open>
  The place that a path names in a tree of directories without links, seen from the directory
  \<open>cwd\<close>: a list of names from the root, whose parent is itself.
\<close>

fun go_component :: "string list \<Rightarrow> path_component \<Rightarrow> string list" where
  "go_component here RootDir = []"
| "go_component here ParentDir = butlast here"
| "go_component here (NormalName n) = here @ [n]"
| "go_component here _ = here"

definition place :: "string list \<Rightarrow> string \<Rightarrow> string list" where
  "place cwd s = foldl go_component cwd (path_components s)"

text \<open>The parts that the loop collects: parents only at the front, and none below a root.\<close>

definition normal_parts :: "bool \<Rightarrow> string list \<Rightarrow> bool" where
  "normal_parts r parts \<longleftrightarrow>
     (\<exists>k names. parts = replicate k ''..'' @ names \<and> list_all plain_name names \<and> (r \<longrightarrow> k = 0))"

lemma normal_parts_inner: "normal_parts r parts \<Longrightarrow> list_all inner_component (map segment_component parts)"
  by (auto simp: normal_parts_def list_all_iff segment_component_def)

lemma plain_segment: "plain_name n \<Longrightarrow> segment_component n = NormalName n" "segment_component ''..'' = ParentDir"
  by (simp_all add: plain_name_def segment_component_def)

lemma normalize_step:
  assumes "normal_parts r parts" "inner_component c" "r \<longrightarrow> here = []"
  shows "\<exists>parts'. normalize_component (None, r, parts) c = (None, r, parts') \<and> normal_parts r parts'
     \<and> foldl go_component here (map segment_component parts')
       = go_component (foldl go_component here (map segment_component parts)) c"
proof -
  obtain k names where parts: "parts = replicate k ''..'' @ names" "list_all plain_name names" "r \<longrightarrow> k = 0"
    using assms(1) unfolding normal_parts_def by blast
  have "c = ParentDir \<or> (\<exists>n. c = NormalName n \<and> plain_name n)"
    using assms(2) by (cases c) simp_all
  then consider n where "c = NormalName n" "plain_name n" | "c = ParentDir" by blast
  then show ?thesis
  proof cases
    case 1
    have "normal_parts r (parts @ [n])"
      unfolding normal_parts_def using parts 1(2) by (intro exI [of _ k] exI [of _ "names @ [n]"]) simp
    with 1 show ?thesis by (simp add: plain_segment)
  next
    case 2
    show ?thesis
    proof (cases names rule: rev_cases)
      case (snoc ns n)
      then have "last parts \<noteq> ''..''" "parts \<noteq> []" "butlast parts = replicate k ''..'' @ ns" "plain_name n"
          "list_all plain_name ns"
        using parts by (auto simp: plain_name_def butlast_append)
      moreover have "normal_parts r (replicate k ''..'' @ ns)"
        unfolding normal_parts_def using parts(3) calculation(5) by blast
      ultimately show ?thesis
        using snoc parts(1) 2 by (simp add: plain_segment)
    next
      case Nil
      have parents: "normal_parts False (replicate k ''..'' @ [''..''])"
        unfolding normal_parts_def by (intro exI [of _ "Suc k"] exI [of _ "[]"]) (simp add: replicate_append_same)
      show ?thesis
      proof (cases r)
        case True
        then show ?thesis using Nil parts 2 assms by simp
      next
        case False
        then show ?thesis using Nil parts 2 parents by (cases k) (simp_all add: plain_segment)
      qed
    qed
  qed
qed

lemma normalize_run:
  assumes "list_all inner_component cs" "normal_parts r parts" "r \<longrightarrow> here = []"
  shows "\<exists>parts'. foldl normalize_component (None, r, parts) cs = (None, r, parts') \<and> normal_parts r parts'
     \<and> foldl go_component here (map segment_component parts')
       = foldl go_component (foldl go_component here (map segment_component parts)) cs"
  using assms
proof (induction cs arbitrary: parts)
  case (Cons c cs)
  from Cons.prems(1) have c: "inner_component c" "list_all inner_component cs" by simp_all
  from normalize_step [OF Cons.prems(2) c(1) Cons.prems(3)] obtain parts1 where
    one: "normalize_component (None, r, parts) c = (None, r, parts1)" "normal_parts r parts1"
      "foldl go_component here (map segment_component parts1)
        = go_component (foldl go_component here (map segment_component parts)) c"
    by blast
  from Cons.IH [OF c(2) one(2) Cons.prems(3)] one show ?case by simp
qed simp

text \<open>Normal parts are reproduced by the loop.\<close>

lemma normalize_parts:
  assumes "normal_parts r parts"
  shows "foldl normalize_component (None, r, []) (map segment_component parts) = (None, r, parts)"
proof -
  obtain k names where parts: "parts = replicate k ''..'' @ names" "list_all plain_name names" "r \<longrightarrow> k = 0"
    using assms unfolding normal_parts_def by blast
  have step: "normalize_component (None, False, replicate j ''..'') ParentDir = (None, False, replicate (Suc j) ''..'')" for j
    by (cases j) (simp_all add: replicate_append_same)
  have "foldl normalize_component (None, False, replicate j ''..'') (replicate k ParentDir)
      = (None, False, replicate (j + k) ''..'')" for j
  proof (induction k arbitrary: j)
    case (Suc k)
    then show ?case using step [of j] Suc.IH [of "Suc j"] by simp
  qed simp
  from this [of 0] parts(3)
  have parents: "foldl normalize_component (None, r, []) (replicate k ParentDir) = (None, r, replicate k ''..'')"
    by (cases r) simp_all
  have "foldl normalize_component (None, r, ps) (map NormalName names) = (None, r, ps @ names)" for ps
    by (induction names arbitrary: ps) simp_all
  moreover have split: "map segment_component parts = replicate k ParentDir @ map NormalName names"
    using parts by (auto simp: list_all_iff plain_segment)
  ultimately show ?thesis unfolding split using parents parts(1) by simp
qed

text \<open>The result as a list of components.\<close>

definition normal_components :: "bool \<Rightarrow> string list \<Rightarrow> path_component list" where
  "normal_components r parts =
     (if r then RootDir # map segment_component parts
      else if parts = [] then [CurDir] else map segment_component parts)"

lemma proper_normal_components: "normal_parts r parts \<Longrightarrow> proper_components (normal_components r parts)"
  using normal_parts_inner [of r parts] proper_inner by (simp add: normal_components_def)

lemma text_of_parts:
  "normal_parts r parts \<Longrightarrow> map (component_text \<circ> segment_component) parts = parts"
  by (auto simp: normal_parts_def segment_component_def intro!: map_idI)

lemma normalize_from_loop:
  assumes "foldl normalize_component (None, False, []) (path_components s) = (None, r, parts)" "normal_parts r parts"
  shows "normalize_without_fs s = path_of (normal_components r parts)"
proof -
  have parts: "map component_text (map segment_component parts) = parts"
    using text_of_parts [OF assms(2)] by simp
  have proper: "proper_components (map segment_component parts)"
    using normal_parts_inner [OF assms(2)] by (rule proper_inner)
  have nonempty: "path_of (map segment_component parts) \<noteq> []" if "parts \<noteq> []"
  proof
    assume "path_of (map segment_component parts) = []"
    with components_of_path_of [OF proper] have "map segment_component parts = path_components []" by simp
    with that show False by (simp add: path_components_def path_segments_def is_absolute_def)
  qed
  have root: "foldl path_push ''/'' parts \<noteq> []"
    using path_of_inner(2) [OF normal_parts_inner [OF assms(2)]] parts
    by (cases "parts = []") (simp_all add: path_of_def path_push_def is_absolute_def)
  have slash: "path_push [] ''/'' = ''/''" "path_push [] ''.'' = ''.''"
    by (simp_all add: path_push_def is_absolute_def)
  have rel: "path_of (map segment_component parts) = foldl path_push [] parts"
    and abs: "path_of (RootDir # map segment_component parts) = foldl path_push ''/'' parts"
    using parts slash by (simp_all add: path_of_def)
  show ?thesis
  proof (cases r)
    case True
    with root assms(1) show ?thesis by (simp add: normalize_without_fs_def normal_components_def abs slash Let_def)
  next
    case False
    have "path_of [CurDir] = ''.''" by (simp add: path_of_def slash)
    with False nonempty rel assms(1) show ?thesis
      by (simp add: normalize_without_fs_def normal_components_def Let_def)
  qed
qed

lemma normalize_loop:
  obtains parts where
    "foldl normalize_component (None, False, []) (path_components s) = (None, is_absolute s, parts)"
    "normal_parts (is_absolute s) parts"
    "place cwd s = foldl go_component (if is_absolute s then [] else cwd) (map segment_component parts)"
proof -
  let ?rest = "map segment_component (path_segments s)"
  let ?here = "if is_absolute s then [] else cwd"
  have "normal_parts (is_absolute s) []" by (simp add: normal_parts_def)
  from normalize_run [OF segments_inner this, of ?here s] obtain parts where
    "foldl normalize_component (None, is_absolute s, []) ?rest = (None, is_absolute s, parts)"
    "normal_parts (is_absolute s) parts"
    "foldl go_component ?here (map segment_component parts) = foldl go_component ?here ?rest"
    by auto
  moreover have "foldl normalize_component (None, False, []) (path_components s)
      = foldl normalize_component (None, is_absolute s, []) ?rest"
    "place cwd s = foldl go_component ?here ?rest"
    by (simp_all add: path_components_def place_def)
  ultimately show thesis using that by simp
qed

lemma normalized_components:
  obtains parts where
    "normalize_without_fs s = path_of (normal_components (is_absolute s) parts)"
    "path_components (normalize_without_fs s) = normal_components (is_absolute s) parts"
    "normal_parts (is_absolute s) parts"
    "\<forall>cwd. place cwd s = foldl go_component (if is_absolute s then [] else cwd) (map segment_component parts)"
proof -
  obtain parts where loop:
      "foldl normalize_component (None, False, []) (path_components s) = (None, is_absolute s, parts)"
      "normal_parts (is_absolute s) parts"
    by (rule normalize_loop)
  note norm = normalize_from_loop [OF loop]
  have place: "\<forall>cwd. place cwd s = foldl go_component (if is_absolute s then [] else cwd) (map segment_component parts)"
  proof
    fix cwd
    obtain parts' where
        "foldl normalize_component (None, False, []) (path_components s) = (None, is_absolute s, parts')"
        "place cwd s = foldl go_component (if is_absolute s then [] else cwd) (map segment_component parts')"
      by (rule normalize_loop [of s cwd])
    with loop(1) show "place cwd s = foldl go_component (if is_absolute s then [] else cwd) (map segment_component parts)"
      by simp
  qed
  show thesis
    by (rule that [OF norm _ loop(2) place])
      (simp add: norm components_of_path_of [OF proper_normal_components [OF loop(2)]])
qed

section \<open>Normal forms\<close>

lemma go_names: "foldl go_component here (map NormalName names) = here @ names"
  by (induction names arbitrary: here) simp_all

lemma go_parents: "foldl go_component here (replicate k ParentDir) = take (length here - k) here"
proof (induction k arbitrary: here)
  case (Suc k)
  then show ?case by (simp add: butlast_conv_take min_def)
qed simp

lemma go_parts:
  assumes "list_all plain_name names"
  shows "foldl go_component here (map segment_component (replicate k ''..'' @ names))
     = take (length here - k) here @ names"
proof -
  have split: "map segment_component (replicate k ''..'' @ names) = replicate k ParentDir @ map NormalName names"
    using assms by (auto simp: list_all_iff plain_segment)
  show ?thesis unfolding split by (simp add: go_names go_parents)
qed

lemma replicate_prefix_unique:
  "replicate a x @ xs = replicate b x @ ys \<Longrightarrow> x \<notin> set xs \<Longrightarrow> x \<notin> set ys \<Longrightarrow> a = b \<and> xs = ys"
proof (induction a arbitrary: b)
  case 0
  then show ?case by (cases b) auto
next
  case (Suc a)
  then show ?case by (cases b) auto
qed

lemma normal_parts_unique:
  assumes "normal_parts r p" "normal_parts r q"
    and "\<And>cwd. foldl go_component (if r then [] else cwd) (map segment_component p)
      = foldl go_component (if r then [] else cwd) (map segment_component q)"
  shows "p = q"
proof -
  obtain j ns where p: "p = replicate j ''..'' @ ns" "list_all plain_name ns" "r \<longrightarrow> j = 0"
    using assms(1) unfolding normal_parts_def by blast
  obtain k ms where q: "q = replicate k ''..'' @ ms" "list_all plain_name ms" "r \<longrightarrow> k = 0"
    using assms(2) unfolding normal_parts_def by blast
  have names: "[] \<notin> set ns" "[] \<notin> set ms"
    using p(2) q(2) by (auto simp: list_all_iff plain_name_def)
  show ?thesis
  proof (cases r)
    case True
    with assms(3) [of "[]"] p q show ?thesis by (simp only: go_parts if_True) simp
  next
    case False
    with assms(3) [of "replicate (j + k) []"]
    have "replicate k [] @ ns = replicate j [] @ ms"
      unfolding p(1) q(1) by (simp only: go_parts [OF p(2)] go_parts [OF q(2)] if_False) simp
    with names show ?thesis
      using replicate_prefix_unique [of k "[]" ns j ms] p(1) q(1) by simp
  qed
qed

lemma normal_place: "normal_parts r parts \<Longrightarrow>
  foldl go_component cwd (normal_components r parts)
    = foldl go_component (if r then [] else cwd) (map segment_component parts)"
  by (simp add: normal_components_def)

lemma normalize_place: "place cwd (normalize_without_fs s) = place cwd s"
proof -
  obtain parts where "path_components (normalize_without_fs s) = normal_components (is_absolute s) parts"
      "normal_parts (is_absolute s) parts"
      "\<forall>cwd. place cwd s = foldl go_component (if is_absolute s then [] else cwd) (map segment_component parts)"
    by (rule normalized_components [of s])
  then show ?thesis by (simp add: place_def [of _ "normalize_without_fs s"] normal_place)
qed

lemma is_absolute_components: "is_absolute s \<longleftrightarrow> path_components s \<noteq> [] \<and> hd (path_components s) = RootDir"
proof -
  have "list_all inner_component (map segment_component (path_segments s))" by (rule segments_inner)
  then show ?thesis
    unfolding path_components_def by (cases "path_segments s") (auto simp: segment_component_def)
qed

lemma normalize_absolute: "is_absolute (normalize_without_fs s) = is_absolute s"
proof -
  obtain parts where parts: "path_components (normalize_without_fs s) = normal_components (is_absolute s) parts"
      "normal_parts (is_absolute s) parts"
    by (rule normalized_components [of s])
  have "normal_components (is_absolute s) parts \<noteq> []
      \<and> (hd (normal_components (is_absolute s) parts) = RootDir \<longleftrightarrow> is_absolute s)"
    by (cases parts) (simp_all add: normal_components_def segment_component_def)
  with parts show ?thesis by (simp add: is_absolute_components [of "normalize_without_fs s"])
qed

lemma normalize_eq_iff:
  "normalize_without_fs s = normalize_without_fs t
     \<longleftrightarrow> is_absolute s = is_absolute t \<and> (\<forall>cwd. place cwd s = place cwd t)"
proof
  assume "normalize_without_fs s = normalize_without_fs t"
  then show "is_absolute s = is_absolute t \<and> (\<forall>cwd. place cwd s = place cwd t)"
    using normalize_absolute normalize_place by metis
next
  assume same: "is_absolute s = is_absolute t \<and> (\<forall>cwd. place cwd s = place cwd t)"
  obtain p where p: "normalize_without_fs s = path_of (normal_components (is_absolute s) p)"
      "normal_parts (is_absolute s) p"
      "\<forall>cwd. place cwd s = foldl go_component (if is_absolute s then [] else cwd) (map segment_component p)"
    by (rule normalized_components [of s])
  obtain q where q: "normalize_without_fs t = path_of (normal_components (is_absolute t) q)"
      "normal_parts (is_absolute t) q"
      "\<forall>cwd. place cwd t = foldl go_component (if is_absolute t then [] else cwd) (map segment_component q)"
    by (rule normalized_components [of t])
  have "p = q"
    using p(2,3) q(2,3) same by (intro normal_parts_unique [of "is_absolute s" p q]) simp_all
  with p(1) q(1) same show "normalize_without_fs s = normalize_without_fs t" by simp
qed

lemma normalized_absolute_components:
  assumes "is_absolute s"
  shows "path_components (normalize_without_fs s) = RootDir # map NormalName (place cwd s)"
    and "list_all plain_name (place cwd s)"
proof -
  obtain parts where parts: "path_components (normalize_without_fs s) = normal_components (is_absolute s) parts"
      "normal_parts (is_absolute s) parts"
      "\<forall>cwd. place cwd s = foldl go_component (if is_absolute s then [] else cwd) (map segment_component parts)"
    by (rule normalized_components [of s])
  from parts(2) assms have plain: "list_all plain_name parts" by (auto simp: normal_parts_def)
  then have names: "map segment_component parts = map NormalName parts"
    by (auto simp: list_all_iff plain_segment)
  with parts(3) assms have "place cwd s = parts" by (simp add: go_names)
  with parts(1) assms names plain
  show "path_components (normalize_without_fs s) = RootDir # map NormalName (place cwd s)"
    "list_all plain_name (place cwd s)"
    by (simp_all add: normal_components_def)
qed

text \<open>
  Lexical normalisation computes canonical names.  The normalised path leads to the same place
  as the path itself, from every directory; normalising again changes nothing; and two paths have
  the same normal form exactly when both or neither are absolute and they lead to the same place
  from everywhere.  The normal form of an absolute path lists the names of that place, without dots.
\<close>

theorem normalize_is_canonical:
  "place cwd (normalize_without_fs s) = place cwd s
   \<and> normalize_without_fs (normalize_without_fs s) = normalize_without_fs s
   \<and> (normalize_without_fs s = normalize_without_fs t
        \<longleftrightarrow> is_absolute s = is_absolute t \<and> (\<forall>cwd. place cwd s = place cwd t))
   \<and> (is_absolute s \<longleftrightarrow> path_components (normalize_without_fs s) = RootDir # map NormalName (place cwd s))"
proof -
  have "normalize_without_fs (normalize_without_fs s) = normalize_without_fs s"
    by (simp add: normalize_eq_iff normalize_absolute normalize_place)
  moreover have "is_absolute s \<longleftrightarrow> path_components (normalize_without_fs s) = RootDir # map NormalName (place cwd s)"
    using normalized_absolute_components(1) [of s cwd] is_absolute_components [of "normalize_without_fs s"]
    by (auto simp: normalize_absolute)
  ultimately show ?thesis by (simp add: normalize_place normalize_eq_iff)
qed

end
