(* ===== verification/File_Policy.thy ===== *)
theory File_Policy
  imports Shell_Policy Unix_Paths
begin

text \<open>
  The policy extension that keeps file tools below a root directory
  (\<open>crates/app/src/tools/file_policy_ext.rs\<close>), with the modes of the import tool that need write
  access (\<open>config_import.rs\<close>).  What the file system answers is a parameter that depends on the
  state of the world.
\<close>

record 'w file_system =
  fs_canonicalize :: "'w \<Rightarrow> string \<Rightarrow> string option"
  fs_is_symlink :: "'w \<Rightarrow> string \<Rightarrow> bool"
  fs_read_link :: "'w \<Rightarrow> string \<Rightarrow> string option"
  fs_exists :: "'w \<Rightarrow> string \<Rightarrow> bool"

section \<open>Modes of the import tool\<close>

definition trimmed_non_empty_path :: "json option \<Rightarrow> string option" where
  "trimmed_non_empty_path v =
     (case map_option trim (Option.bind v json_as_str) of
        Some s \<Rightarrow> if s = [] then None else Some s
      | None \<Rightarrow> None)"

definition config_import_mode :: "json_map \<Rightarrow> string" where
  "config_import_mode payload =
     (case map_option trim (field_str payload ''mode'') of
        Some s \<Rightarrow> if s = [] then ''plan'' else s
      | None \<Rightarrow> ''plan'')"

definition config_import_mode_requires_write_object :: "json_map \<Rightarrow> bool" where
  "config_import_mode_requires_write_object payload \<longleftrightarrow>
     config_import_mode payload \<in> {''apply'', ''apply_selected'', ''rollback_last_apply''}"

definition config_import_mode_requires_write_value :: "json \<Rightarrow> bool" where
  "config_import_mode_requires_write_value payload \<longleftrightarrow>
     (case json_as_object payload of None \<Rightarrow> False | Some m \<Rightarrow> config_import_mode_requires_write_object m)"

section \<open>The extension\<close>

record file_policy_extension =
  file_root :: "string option"
  canon_root :: "string option"

definition file_policy_new :: "'w file_system \<Rightarrow> 'w \<Rightarrow> string option \<Rightarrow> file_policy_extension" where
  "file_policy_new fs w root = \<lparr>file_root = root, canon_root = Option.bind root (fs_canonicalize fs w)\<rparr>"

definition file_required_capabilities :: "string \<Rightarrow> json_map \<Rightarrow> capability set" where
  "file_required_capabilities name payload =
     (if name \<in> {''file.read'', ''glob.search'', ''content.search'', ''memory_search'', ''memory_get''}
      then {FilesystemRead}
      else if name \<in> {''file.write'', ''file.edit''} then {FilesystemWrite}
      else if name = ''config.import'' then
        {FilesystemRead} \<union> (if config_import_mode_requires_write_object payload then {FilesystemWrite} else {})
      else {})"

text \<open>The loop of \<open>reconstruct_from_existing_ancestor\<close>: the cursor and the names cut off so far.\<close>

function existing_ancestor :: "'w file_system \<Rightarrow> 'w \<Rightarrow> string \<Rightarrow> string list \<Rightarrow> (string \<times> string list) option" where
  "existing_ancestor fs w cursor rest =
     (if fs_exists fs w cursor then Some (cursor, rest)
      else case path_file_name cursor of
        None \<Rightarrow> None
      | Some c \<Rightarrow>
          (case path_parent cursor of
             None \<Rightarrow> None
           | Some parent \<Rightarrow> existing_ancestor fs w parent (rest @ [c])))"
  by pat_completeness auto

termination existing_ancestor
proof (relation "measure (\<lambda>(fs, w, cursor, rest). length (path_components cursor))")
  fix fs :: "'w file_system" and w cursor rest c parent
  assume "path_parent cursor = Some parent"
  from parent_components [OF this]
  show "((fs, w, parent, rest @ [c]), fs, w, cursor, rest)
      \<in> measure (\<lambda>(fs, w, cursor, rest). length (path_components cursor))"
    by (cases "path_components cursor") simp_all
qed simp

declare existing_ancestor.simps [simp del]

definition reconstruct_from_existing_ancestor :: "'w file_system \<Rightarrow> 'w \<Rightarrow> string \<Rightarrow> string option" where
  "reconstruct_from_existing_ancestor fs w path =
     (case existing_ancestor fs w path [] of
        None \<Rightarrow> None
      | Some (cursor, rest) \<Rightarrow>
          (case fs_canonicalize fs w cursor of
             None \<Rightarrow> None
           | Some reconstructed \<Rightarrow> Some (foldl path_push reconstructed (rev rest))))"

definition path_escapes_root :: "'w file_system \<Rightarrow> 'w \<Rightarrow> file_policy_extension \<Rightarrow> string \<Rightarrow> bool" where
  "path_escapes_root fs w ext raw_path =
     (case file_root ext of
        None \<Rightarrow> False
      | Some root \<Rightarrow>
          let effective_root = (case canon_root ext of None \<Rightarrow> root | Some r \<Rightarrow> r);
              normalized_effective_root = normalize_without_fs effective_root;
              combined = (if is_absolute raw_path then raw_path else path_push effective_root raw_path) in
          (case fs_canonicalize fs w combined of
             Some canon \<Rightarrow> \<not> path_starts_with canon normalized_effective_root
           | None \<Rightarrow>
               if fs_is_symlink fs w combined then
                 (case fs_read_link fs w combined of
                    None \<Rightarrow> True
                  | Some target \<Rightarrow>
                      if is_absolute target
                      then \<not> path_starts_with (normalize_without_fs target) normalized_effective_root
                      else
                        let raw_parent = (case path_parent combined of None \<Rightarrow> effective_root | Some p \<Rightarrow> p) in
                        (case fs_canonicalize fs w raw_parent of
                           None \<Rightarrow> True
                         | Some symlink_parent \<Rightarrow>
                             \<not> path_starts_with (normalize_without_fs (path_push symlink_parent target))
                                 normalized_effective_root))
               else
                 (case reconstruct_from_existing_ancestor fs w combined of
                    Some reconstructed \<Rightarrow>
                      \<not> path_starts_with (normalize_without_fs reconstructed) normalized_effective_root
                  | None \<Rightarrow> \<not> path_starts_with (normalize_without_fs combined) normalized_effective_root)))"

definition raw_paths_for_request :: "(string \<Rightarrow> string) \<Rightarrow> string \<Rightarrow> json_map \<Rightarrow> string list" where
  "raw_paths_for_request canonical name payload =
     (let path = (\<lambda>key. case trimmed_non_empty_path (map_of payload key) of None \<Rightarrow> [] | Some p \<Rightarrow> [p]) in
      if canonical name = ''config.import'' then path ''input_path'' @ path ''output_path''
      else path ''root'' @ path ''path'')"

definition authorize_file_payload ::
    "'w file_system \<Rightarrow> (string \<Rightarrow> string) \<Rightarrow> 'w \<Rightarrow> file_policy_extension \<Rightarrow> string \<Rightarrow> json_map
       \<Rightarrow> policy_error + unit" where
  "authorize_file_payload fs canonical w ext name payload =
     (case file_root ext of
        None \<Rightarrow> Inr ()
      | Some root \<Rightarrow>
          (case List.find (path_escapes_root fs w ext) (raw_paths_for_request canonical name payload) of
             None \<Rightarrow> Inr ()
           | Some raw_path \<Rightarrow>
               Inl (ExtensionDenied ''file-policy''
                 (''path `'' @ raw_path @ ''` escapes file root `'' @ root @ ''`''))))"

definition authorize_direct_file_payload ::
    "'w file_system \<Rightarrow> (string \<Rightarrow> string) \<Rightarrow> 'w \<Rightarrow> tool_runtime_config \<Rightarrow> string \<Rightarrow> json_map \<Rightarrow> string + unit" where
  "authorize_direct_file_payload fs canonical w rt name payload =
     map_err (\<lambda>error. ''policy_denied: '' @ policy_error_display error)
       (authorize_file_payload fs canonical w (file_policy_new fs w (config_file_root rt)) name payload)"

definition file_policy_authorize ::
    "'w file_system \<Rightarrow> (string \<Rightarrow> string) \<Rightarrow> file_policy_extension \<Rightarrow> 'w \<Rightarrow> policy_extension_context
       \<Rightarrow> policy_error + unit" where
  "file_policy_authorize fs canonical ext w ctx =
     (case ctx_request_parameters ctx of
        None \<Rightarrow> Inr ()
      | Some params \<Rightarrow>
          let raw_tool_name = (case Option.bind (json_get params ''tool_name'') json_as_str of
                None \<Rightarrow> [] | Some s \<Rightarrow> s);
              name = canonical raw_tool_name in
          (case Option.bind (json_get params ''payload'') json_as_object of
             None \<Rightarrow> Inr ()
           | Some payload \<Rightarrow>
               let required = file_required_capabilities name payload in
               if required = {} then Inr ()
               else (case List.find (\<lambda>c. c \<notin> allowed_capabilities (ctx_token ctx)) (caps_iter required) of
                 Some c \<Rightarrow>
                   Inl (ExtensionDenied ''file-policy''
                     (''tool `'' @ name @ ''` requires capability `'' @ capability_debug c @ ''` not granted to token''))
               | None \<Rightarrow> authorize_file_payload fs canonical w ext name payload)))"

definition file_policy ::
    "'w file_system \<Rightarrow> (string \<Rightarrow> string) \<Rightarrow> file_policy_extension \<Rightarrow> 'w policy_extension" where
  "file_policy fs canonical ext =
     \<lparr>policy_extension_name = ''file-policy'', authorize_extension = file_policy_authorize fs canonical ext\<rparr>"

section \<open>Which places are accepted\<close>

definition effective_root :: "file_policy_extension \<Rightarrow> string \<Rightarrow> string" where
  "effective_root ext root = (case canon_root ext of None \<Rightarrow> root | Some r \<Rightarrow> r)"

definition requested_path :: "string \<Rightarrow> string \<Rightarrow> string" where
  "requested_path root raw = (if is_absolute raw then raw else path_push root raw)"

text \<open>The nearest ancestor of a path that exists, and the names below it that do not.\<close>

inductive nearest_existing :: "'w file_system \<Rightarrow> 'w \<Rightarrow> string \<Rightarrow> string \<Rightarrow> string list \<Rightarrow> bool"
  for fs w where
  nearest_self: "fs_exists fs w p \<Longrightarrow> nearest_existing fs w p p []"
| nearest_up: "\<not> fs_exists fs w p \<Longrightarrow> path_parent p = Some q \<Longrightarrow> path_file_name p = Some n \<Longrightarrow>
    nearest_existing fs w q anc names \<Longrightarrow> nearest_existing fs w p anc (names @ [n])"

text \<open>
  What it means that a requested path stays below the root: if it exists, the file system's own
  canonical form of it lies at or below the root; if it is a link that leads nowhere, the text of
  the link does, read from the canonical directory of the link; otherwise the canonical form of the
  nearest existing ancestor, continued by the missing names, does.
\<close>

definition confined :: "'w file_system \<Rightarrow> 'w \<Rightarrow> string \<Rightarrow> string \<Rightarrow> bool" where
  "confined fs w root raw \<longleftrightarrow>
     (let p = requested_path root raw; below = prefix (place [] root) in
      case fs_canonicalize fs w p of
        Some c \<Rightarrow> below (place [] c)
      | None \<Rightarrow>
          if fs_is_symlink fs w p then
            (\<forall>target. fs_read_link fs w p = Some target \<longrightarrow>
               (if is_absolute target then below (place [] target)
                else \<forall>parent c. path_parent p = Some parent \<longrightarrow> fs_canonicalize fs w parent = Some c \<longrightarrow>
                  below (place [] (path_push c target))))
          else
            (\<forall>anc names c. nearest_existing fs w p anc names \<longrightarrow> fs_canonicalize fs w anc = Some c \<longrightarrow>
               below (place [] c @ names)))"

text \<open>
  What \<open>std::fs::canonicalize\<close> documents: an absolute path without dots.
\<close>

definition canonical_answers :: "'w file_system \<Rightarrow> 'w \<Rightarrow> bool" where
  "canonical_answers fs w \<longleftrightarrow>
     (\<forall>p c. fs_canonicalize fs w p = Some c \<longrightarrow> is_absolute c \<and> normalize_without_fs c = c)"

lemma is_absolute_push: "is_absolute root \<Longrightarrow> is_absolute (path_push root p)"
  by (cases root) (auto simp: path_push_def is_absolute_def)

lemma is_absolute_pushes: "is_absolute root \<Longrightarrow> is_absolute (foldl path_push root ps)"
  by (induction ps arbitrary: root) (simp_all add: is_absolute_push)

lemma starts_with_place:
  assumes "is_absolute p" "is_absolute root"
  shows "path_starts_with (normalize_without_fs p) (normalize_without_fs root)
    \<longleftrightarrow> prefix (place [] root) (place [] p)"
proof -
  have "inj NormalName" by (simp add: inj_def)
  have "prefix (map NormalName xs) (map NormalName ys) \<longleftrightarrow> prefix xs ys" for xs ys
    using map_mono_prefix [of xs ys NormalName] \<open>inj NormalName\<close>
    by (auto simp: prefix_def map_eq_append_conv inj_map_eq_map)
  with assms show ?thesis
    by (simp add: path_starts_with_def normalized_absolute_components(1) [where cwd = "[]"])
qed

lemma file_name_plain:
  assumes "path_file_name p = Some n"
  shows "plain_name n"
proof -
  obtain cs where cs: "path_components p = cs @ [NormalName n]"
    using assms by (cases "path_components p" rule: rev_cases)
      (auto simp: path_file_name_def split: path_component.splits)
  obtain front rest where "path_components p = front @ rest" "front \<in> {[], [RootDir], [CurDir]}"
      "list_all inner_component rest"
    using proper_path_components [of p] unfolding proper_components_def by blast
  with cs show ?thesis
    by (cases rest rule: rev_cases) auto
qed

lemma components_push_name:
  assumes "is_absolute c" "plain_name n"
  shows "path_components (path_push c n) = path_components c @ [NormalName n]"
proof -
  have n: "\<not> is_absolute n" "split_on (CHR ''/'') n = [n]" "n \<noteq> []" "n \<noteq> ''.''" "segment_component n = NormalName n"
    using assms(2) hd_in_set [of n]
    by (auto simp: plain_name_def is_absolute_def split_on_plain segment_component_def simp del: hd_in_set)
  have c: "c \<noteq> []" using assms(1) by (auto simp: is_absolute_def)
  have segs: "path_segments (path_push c n) = path_segments c @ [n]"
  proof (cases "last c = CHR ''/''")
    case True
    then obtain d where d: "c = d @ ''/''" using c by (metis append_butlast_last_id)
    then show ?thesis
      using n split_on_append_sep [of "CHR ''/''" d n] split_on_append_sep [of "CHR ''/''" d "[]"]
      by (simp add: path_push_def path_segments_def)
  next
    case False
    then show ?thesis
      using n c split_on_append_sep [of "CHR ''/''" c n] by (simp add: path_push_def path_segments_def)
  qed
  have "is_absolute (path_push c n)" by (rule is_absolute_push [OF assms(1)])
  with assms(1) segs n(5) show ?thesis by (simp add: path_components_def)
qed

lemma place_push_names:
  "is_absolute c \<Longrightarrow> list_all plain_name names \<Longrightarrow> place [] (foldl path_push c names) = place [] c @ names"
proof (induction names arbitrary: c)
  case (Cons n ns)
  then have "place [] (path_push c n) = place [] c @ [n]"
    by (simp add: place_def components_push_name)
  with Cons show ?case by (simp add: is_absolute_push)
qed simp

lemma nearest_existing_found:
  "nearest_existing fs w p anc names \<Longrightarrow>
     existing_ancestor fs w p rest = Some (anc, rest @ rev names) \<and> list_all plain_name names"
proof (induction arbitrary: rest rule: nearest_existing.induct)
  case (nearest_self p)
  then show ?case by (simp add: existing_ancestor.simps)
next
  case (nearest_up p q n anc names)
  then show ?case
    using file_name_plain [OF nearest_up(3)] by (simp add: existing_ancestor.simps [of fs w p])
qed

lemma inside_root_confined:
  assumes answers: "canonical_answers fs w" and root: "file_root ext = Some root"
    and abs: "is_absolute (effective_root ext root)" and inside: "\<not> path_escapes_root fs w ext raw"
  shows "confined fs w (effective_root ext root) raw"
proof -
  let ?root = "effective_root ext root"
  let ?p = "requested_path ?root raw"
  have canon: "is_absolute c" "normalize_without_fs c = c" if "fs_canonicalize fs w q = Some c" for q c
    using answers that unfolding canonical_answers_def by blast+
  have lexical: "prefix (place [] ?root) (place [] q)"
    if "path_starts_with (normalize_without_fs q) (normalize_without_fs ?root)" "is_absolute q" for q
    using starts_with_place [OF that(2) abs] that(1) by simp
  note escapes = inside [unfolded path_escapes_root_def root option.case Let_def effective_root_def [symmetric]
      requested_path_def [symmetric]]
  show ?thesis
  proof (cases "fs_canonicalize fs w ?p")
    case (Some c)
    then show ?thesis
      using escapes canon [OF Some] lexical [of c] by (simp add: confined_def)
  next
    case None
    show ?thesis
    proof (cases "fs_is_symlink fs w ?p")
      case True
      then show ?thesis
        using escapes None canon(1) lexical is_absolute_push
        by (auto simp: confined_def Let_def split: option.splits if_splits)
    next
      case False
      have "prefix (place [] ?root) (place [] c @ names)"
        if near: "nearest_existing fs w ?p anc names" and c: "fs_canonicalize fs w anc = Some c" for anc names c
      proof -
        from nearest_existing_found [OF near, of "[]"] c
        have "reconstruct_from_existing_ancestor fs w ?p = Some (foldl path_push c names)"
          and plain: "list_all plain_name names"
          by (simp_all add: reconstruct_from_existing_ancestor_def)
        then have "path_starts_with (normalize_without_fs (foldl path_push c names)) (normalize_without_fs ?root)"
          using escapes None False by simp
        from lexical [OF this is_absolute_pushes [OF canon(1) [OF c]]] show ?thesis
          by (simp add: place_push_names [OF canon(1) [OF c] plain])
      qed
      with None False show ?thesis by (simp add: confined_def)
    qed
  qed
qed

lemma find_None: "List.find P xs = None \<longleftrightarrow> (\<forall>x \<in> set xs. \<not> P x)"
  by (induction xs) simp_all

lemma authorize_file_payload_Inr:
  "authorize_file_payload fs canonical w ext name payload = Inr u \<longleftrightarrow>
     file_root ext = None \<or>
     (\<forall>raw \<in> set (raw_paths_for_request canonical name payload). \<not> path_escapes_root fs w ext raw)"
  using find_None [of "path_escapes_root fs w ext" "raw_paths_for_request canonical name payload"]
  by (cases "file_root ext";
      cases "List.find (path_escapes_root fs w ext) (raw_paths_for_request canonical name payload)")
    (simp_all add: authorize_file_payload_def)

lemma accepted_paths_confined:
  assumes "canonical_answers fs w" and "file_root ext = Some root" and "is_absolute (effective_root ext root)"
    and "authorize_file_payload fs canonical w ext name payload = Inr ()"
  shows "list_all (confined fs w (effective_root ext root)) (raw_paths_for_request canonical name payload)"
  using assms(4) inside_root_confined [OF assms(1-3)] assms(2)
  by (auto simp: authorize_file_payload_Inr list_all_iff)

text \<open>A world in which only the root exists, with a link in it that leads out.\<close>

definition sample_fs :: "unit file_system" where
  "sample_fs = \<lparr>fs_canonicalize = (\<lambda>_ p. if p = ''/box'' then Some ''/box''
       else if p = ''/box/out'' then Some ''/etc/passwd'' else None),
     fs_is_symlink = (\<lambda>_ p. p = ''/box/out''), fs_read_link = (\<lambda>_ _. None),
     fs_exists = (\<lambda>_ p. p \<in> {''/'', ''/box'', ''/box/out''})\<rparr>"

definition sample_file_policy :: file_policy_extension where
  "sample_file_policy = file_policy_new sample_fs () (Some ''/box'')"

lemma sample_fs_ok: "canonical_answers sample_fs ()"
proof -
  have "is_absolute ''/box'' \<and> normalize_without_fs ''/box'' = ''/box''"
    "is_absolute ''/etc/passwd'' \<and> normalize_without_fs ''/etc/passwd'' = ''/etc/passwd''"
    by code_simp+
  then show ?thesis by (auto simp: canonical_answers_def sample_fs_def)
qed

end
