(* ===== verification/Tool_Routing.thy ===== *)
theory Tool_Routing
  imports File_Policy
begin

text \<open>
  Routing of facade tools (\<open>crates/app/src/tools/routing.rs\<close>): which tool a request to a direct tool
  (\<open>read\<close>, \<open>write\<close>, \<open>exec\<close>, \<open>web\<close>, \<open>browser\<close>, \<open>memory\<close>) or to a hidden facade (\<open>agent\<close>, \<open>skills\<close>, \<open>channel\<close>)
  stands for, read off the fields of its payload.  The view is the set of tools that the runtime
  offers; the catalog is a parameter.
\<close>

section \<open>Fields\<close>

definition payload_has_non_null_field :: "json \<Rightarrow> string \<Rightarrow> bool" where
  "payload_has_non_null_field payload key =
     (case json_get payload key of None \<Rightarrow> False | Some v \<Rightarrow> v \<noteq> JNull)"

definition trimmed_field :: "json \<Rightarrow> string \<Rightarrow> string option" where
  "trimmed_field payload key = trimmed_non_empty_path (json_get payload key)"

definition has_any :: "json \<Rightarrow> string list \<Rightarrow> bool" where
  "has_any payload keys = list_ex (payload_has_non_null_field payload) keys"

definition count_true :: "bool list \<Rightarrow> usize" where
  "count_true values = foldl (\<lambda>count v. if v then sat_inc count else count) 0 values"

section \<open>Direct tools\<close>

definition command_uses_shell_syntax :: "string \<Rightarrow> bool" where
  "command_uses_shell_syntax command \<longleftrightarrow>
     CHR 0x0A \<in> set command \<or> sublist ''&&'' command \<or> sublist ''||'' command \<or> CHR ''|'' \<in> set command
     \<or> CHR '';'' \<in> set command \<or> CHR ''>'' \<in> set command \<or> CHR ''<'' \<in> set command
     \<or> sublist ''$('' command \<or> CHR 0x60 \<in> set command"

definition route_direct_exec_tool_name :: "json \<Rightarrow> string + string" where
  "route_direct_exec_tool_name payload =
     (let command = trimmed_field payload ''command'';
          script = trimmed_field payload ''script'';
          has_args = payload_has_non_null_field payload ''args'';
          mode_count = count_true [command \<noteq> None, script \<noteq> None] in
      if mode_count = 0 then
        Inl ''direct_exec_requires_command_or_script: expected `command` for argv mode, or `script` for raw shell mode''
      else if 1 < mode_count then
        (case command of
           Some v \<Rightarrow>
             if command = script then
               Inr (if \<not> has_args \<and> command_uses_shell_syntax v then ''bash.exec'' else ''shell.exec'')
             else Inl ''direct_exec_ambiguous: provide either `command` or `script`, not both''
         | None \<Rightarrow> Inl ''direct_exec_ambiguous: provide either `command` or `script`, not both'')
      else if script \<noteq> None then Inr ''bash.exec''
      else (case command of
          None \<Rightarrow> Inl ''direct_exec_requires_command_or_script: expected `command` for argv mode, or `script` for raw shell mode''
        | Some command \<Rightarrow>
            if \<not> has_args \<and> command_uses_shell_syntax command then Inr ''bash.exec'' else Inr ''shell.exec''))"

definition route_direct_read_tool_name :: "json \<Rightarrow> string + string" where
  "route_direct_read_tool_name payload =
     (let has_path = payload_has_non_null_field payload ''path'';
          has_query = payload_has_non_null_field payload ''query'';
          has_pattern = payload_has_non_null_field payload ''pattern'';
          mode_count = count_true [has_path, has_query, has_pattern] in
      if mode_count = 0 then
        Inl ''direct_read_requires_one_of: expected exactly one of `path`, `query`, or `pattern`''
      else if 1 < mode_count then
        Inl ''direct_read_ambiguous: provide exactly one of `path`, `query`, or `pattern`''
      else if has_path then Inr ''file.read''
      else if has_query then Inr ''content.search''
      else Inr ''glob.search'')"

definition route_direct_write_tool_name :: "json \<Rightarrow> string + string" where
  "route_direct_write_tool_name payload =
     (let has_content = payload_has_non_null_field payload ''content'';
          has_edits = payload_has_non_null_field payload ''edits'';
          has_old_string = payload_has_non_null_field payload ''old_string'';
          has_new_string = payload_has_non_null_field payload ''new_string'';
          exact_edit_mode = has_edits \<or> has_old_string \<or> has_new_string;
          mode_count = count_true [has_content, exact_edit_mode] in
      if mode_count = 0 then
        Inl ''direct_write_requires_one_mode: expected `path` plus `content`, `path` plus `edits`, or legacy `path` plus `old_string` and `new_string`''
      else if 1 < mode_count then
        Inl ''direct_write_ambiguous: do not mix whole-file write fields with exact-edit fields''
      else if \<not> payload_has_non_null_field payload ''path'' then
        Inl ''direct_write_requires_path: expected `path` for direct write''
      else if has_content then Inr ''file.write''
      else if has_edits then Inr ''file.edit''
      else if \<not> has_old_string \<or> \<not> has_new_string then
        Inl ''direct_write_edit_requires_complete_legacy_fields: expected `edits`, or legacy `old_string` and `new_string` for exact-edit mode''
      else Inr ''file.edit'')"

definition route_direct_web_tool_name :: "json \<Rightarrow> string + string" where
  "route_direct_web_tool_name payload =
     (let has_url = payload_has_non_null_field payload ''url'';
          request_mode = has_any payload [''method'', ''headers'', ''body'', ''content_type''] in
      if payload_has_non_null_field payload ''query'' then
        if has_url \<or> request_mode then
          Inl ''direct_web_ambiguous: use `query` for search, or `url` plus optional request fields for fetch/request mode''
        else Inr ''web.search''
      else if \<not> has_url then
        Inl ''direct_web_requires_query_or_url: expected `query`, or `url` for fetch/request mode''
      else if request_mode then Inr ''http.request''
      else Inr ''web.fetch'')"

definition route_direct_web_tool_name_for_view :: "json \<Rightarrow> string set \<Rightarrow> string + string" where
  "route_direct_web_tool_name_for_view payload view =
     and_then (route_direct_web_tool_name payload) (\<lambda>routed.
     let search = ''web.search'' \<in> view; fetch = ''web.fetch'' \<in> view; request = ''http.request'' \<in> view;
         fetch_only_mode_requested = payload_has_non_null_field payload ''mode'' in
     if routed = ''web.search'' \<and> \<not> search then
       if fetch \<or> request then
         Inl ''direct_web_search_unavailable: `web { query }` is unavailable in this runtime, but ordinary network access still works through `web { url }` or low-level request fields''
       else Inl ''direct_web_search_unavailable: `web { query }` is unavailable in this runtime''
     else if routed = ''web.fetch'' \<and> \<not> fetch then
       if request \<and> \<not> fetch_only_mode_requested then Inr ''http.request''
       else if request then
         Inl ''direct_web_fetch_unavailable: plain fetch mode is unavailable in this runtime; low-level request mode is still available through `web { url, method }` or other request fields''
       else Inl ''direct_web_fetch_unavailable: plain fetch mode is unavailable in this runtime''
     else if routed = ''http.request'' \<and> \<not> request then
       if fetch then
         Inl ''direct_web_request_unavailable: low-level request mode is unavailable in this runtime, but ordinary `web { url }` fetch mode is still available''
       else Inl ''direct_web_request_unavailable: low-level request mode is unavailable in this runtime''
     else Inr routed)"

definition route_browser_click :: "json \<Rightarrow> string + string" where
  "route_browser_click payload =
     (let has_link_id = payload_has_non_null_field payload ''link_id'';
          has_selector = payload_has_non_null_field payload ''selector'' in
      if \<not> payload_has_non_null_field payload ''session_id'' then
        Inl ''direct_browser_click_requires_session_id: expected `session_id` for browser click actions''
      else if has_link_id \<and> has_selector then
        Inl ''direct_browser_click_ambiguous: provide either `link_id` or `selector`, not both''
      else if has_link_id then Inr ''browser.click''
      else if has_selector then Inr ''browser.companion.click''
      else Inl ''direct_browser_click_requires_target: expected `link_id` for page-link click or `selector` for managed browser click'')"

definition route_browser_action :: "json \<Rightarrow> string \<Rightarrow> string + string" where
  "route_browser_action payload action =
     (let has_url = payload_has_non_null_field payload ''url'';
          has_session_id = payload_has_non_null_field payload ''session_id'' in
      if action = ''open'' then
        if has_url \<and> \<not> has_session_id then Inr ''browser.open''
        else Inl ''direct_browser_open_requires_url: expected `url` without `session_id`''
      else if action = ''start'' then
        if has_url \<and> \<not> has_session_id then Inr ''browser.companion.session.start''
        else Inl ''direct_browser_start_requires_url: expected `url` without `session_id`''
      else if action = ''navigate'' then
        if has_url \<and> has_session_id then Inr ''browser.companion.navigate''
        else Inl ''direct_browser_navigate_requires_session_and_url: expected `session_id` and `url`''
      else if action = ''extract'' then
        if has_session_id then Inr ''browser.extract''
        else Inl ''direct_browser_extract_requires_session_id: expected `session_id`''
      else if action = ''snapshot'' then
        if has_session_id then Inr ''browser.companion.snapshot''
        else Inl ''direct_browser_snapshot_requires_session_id: expected `session_id`''
      else if action = ''wait'' then
        if has_session_id then Inr ''browser.companion.wait''
        else Inl ''direct_browser_wait_requires_session_id: expected `session_id`''
      else if action = ''stop'' then
        if has_session_id then Inr ''browser.companion.session.stop''
        else Inl ''direct_browser_stop_requires_session_id: expected `session_id`''
      else if action = ''click'' then route_browser_click payload
      else if action = ''type'' then
        if has_session_id \<and> payload_has_non_null_field payload ''selector'' \<and> payload_has_non_null_field payload ''text''
        then Inr ''browser.companion.type''
        else Inl ''direct_browser_type_requires_session_selector_text: expected `session_id`, `selector`, and `text`''
      else Inl (''direct_browser_unknown_action: unknown browser action `'' @ action @ ''`''))"

definition route_direct_browser_tool_name :: "json \<Rightarrow> string + string" where
  "route_direct_browser_tool_name payload =
     (case trimmed_field payload ''action'' of
        Some action \<Rightarrow> route_browser_action payload action
      | None \<Rightarrow>
          let has_url = payload_has_non_null_field payload ''url'';
              has_session_id = payload_has_non_null_field payload ''session_id'';
              has_selector = payload_has_non_null_field payload ''selector'';
              mode_value = map_option trim (Option.bind (json_get payload ''mode'') json_as_str) in
          if payload_has_non_null_field payload ''text'' then
            if has_session_id \<and> has_selector then Inr ''browser.companion.type''
            else Inl ''direct_browser_type_requires_session_selector_text: expected `session_id`, `selector`, and `text`''
          else if has_url \<and> has_session_id then Inr ''browser.companion.navigate''
          else if has_url then Inr ''browser.open''
          else if has_selector then route_browser_click payload
          else if has_any payload [''condition'', ''timeout_ms''] then
            if has_session_id then Inr ''browser.companion.wait''
            else Inl ''direct_browser_wait_requires_session_id: expected `session_id` for browser wait''
          else if payload_has_non_null_field payload ''link_id'' then route_browser_click payload
          else if mode_value \<in> {Some ''summary'', Some ''html''} then
            if has_session_id then Inr ''browser.companion.snapshot''
            else Inl ''direct_browser_snapshot_requires_session_id: expected `session_id` for browser snapshot''
          else if has_session_id then Inr ''browser.extract''
          else Inl ''direct_browser_requires_actionable_fields: expected `url`, or `session_id` plus the fields for extract, click, type, wait, snapshot, navigate, or stop'')"

definition route_direct_memory_tool_name :: "json \<Rightarrow> string + string" where
  "route_direct_memory_tool_name payload =
     (let has_query = payload_has_non_null_field payload ''query'';
          mode_count = count_true [has_query, payload_has_non_null_field payload ''path''] in
      if mode_count = 0 then Inl ''direct_memory_requires_one_of: expected exactly one of `query` or `path`''
      else if 1 < mode_count then Inl ''direct_memory_ambiguous: provide either `query` or `path`, not both''
      else if has_query then Inr ''memory_search''
      else Inr ''memory_get'')"

definition route_direct_tool_name :: "string \<Rightarrow> json \<Rightarrow> string + string" where
  "route_direct_tool_name name payload =
     (if name = ''read'' then route_direct_read_tool_name payload
      else if name = ''write'' then route_direct_write_tool_name payload
      else if name = ''exec'' then route_direct_exec_tool_name payload
      else if name = ''web'' then route_direct_web_tool_name payload
      else if name = ''browser'' then route_direct_browser_tool_name payload
      else if name = ''memory'' then route_direct_memory_tool_name payload
      else Inr ''-'')"

definition route_direct_tool_name_for_view :: "string \<Rightarrow> json \<Rightarrow> string set \<Rightarrow> string + string" where
  "route_direct_tool_name_for_view name payload view =
     (if name = ''web'' then route_direct_web_tool_name_for_view payload view
      else route_direct_tool_name name payload)"

definition unavailable_runtime_hint :: "string \<Rightarrow> string set \<Rightarrow> string" where
  "unavailable_runtime_hint routed view =
     (if \<not> prefix ''browser.companion.'' routed then []
      else if ''browser.open'' \<in> view \<or> ''browser.extract'' \<in> view then
        ''; read-only browser inspection is still available''
      else ''; browser interaction is unavailable in this runtime'')"

definition routed_tool_display_name :: "string \<Rightarrow> string" where
  "routed_tool_display_name routed =
     (if prefix ''browser.companion.'' routed then ''managed browser actions'' else routed)"

definition route_direct_tool_request :: "string set \<Rightarrow> tool_core_request \<Rightarrow> string + tool_core_request" where
  "route_direct_tool_request view request =
     and_then (route_direct_tool_name_for_view (tool_name request) (tool_payload request) view) (\<lambda>routed.
     if routed \<notin> view then
       Inl (''tool_surface_unavailable: `'' @ tool_name request @ ''` cannot route to `''
         @ routed_tool_display_name routed @ ''` in this runtime'' @ unavailable_runtime_hint routed view)
     else Inr \<lparr>tool_name = routed, tool_payload = tool_payload request\<rparr>)"

section \<open>Hidden facades\<close>

definition hidden_operation :: "json \<Rightarrow> string option" where
  "hidden_operation payload = trimmed_field payload ''operation''"

definition agent_operations :: "(string \<times> string) list" where
  "agent_operations =
     [(''approval-list'', ''approval_requests_list''),
      (''approval-status'', ''approval_request_status''),
      (''approval-resolve'', ''approval_request_resolve''), (''sessions-list'', ''sessions_list''),
      (''session-history'', ''sessions_history''), (''session-events'', ''session_events''),
      (''session-search'', ''session_search''), (''session-status'', ''session_status''),
      (''session-wait'', ''session_wait''),
      (''session-policy-status'', ''session_tool_policy_status''),
      (''session-policy-set'', ''session_tool_policy_set''),
      (''session-policy-clear'', ''session_tool_policy_clear''),
      (''session-archive'', ''session_archive''), (''session-cancel'', ''session_cancel''),
      (''session-continue'', ''session_continue''), (''session-recover'', ''session_recover''),
      (''sessions-send'', ''sessions_send''), (''delegate'', ''delegate''),
      (''delegate-background'', ''delegate_async''), (''provider-switch'', ''provider.switch''),
      (''config-import'', ''config.import'')]"

definition skills_operations :: "(string \<times> string) list" where
  "skills_operations =
     [(''search'', ''external_skills.search''), (''recommend'', ''external_skills.recommend''),
      (''source-search'', ''external_skills.source_search''),
      (''inspect'', ''external_skills.inspect''), (''install'', ''external_skills.install''),
      (''run'', ''external_skills.invoke''), (''invoke'', ''external_skills.invoke''),
      (''list'', ''external_skills.list''), (''policy'', ''external_skills.policy''),
      (''fetch'', ''external_skills.fetch''), (''resolve'', ''external_skills.resolve''),
      (''remove'', ''external_skills.remove'')]"

definition route_hidden_agent_tool_name :: "json \<Rightarrow> string + string" where
  "route_hidden_agent_tool_name payload =
     (case hidden_operation payload of
        Some operation \<Rightarrow>
          (case map_of agent_operations operation of
             Some n \<Rightarrow> Inr n
           | None \<Rightarrow> Inl (''hidden_agent_unknown_operation: unknown agent operation `'' @ operation @ ''`''))
      | None \<Rightarrow>
          let has = payload_has_non_null_field payload;
              has_background = (json_get payload ''background'' = Some (JBool True)) in
          if has ''approval_request_id'' then
            (if has ''decision'' then Inr ''approval_request_resolve'' else Inr ''approval_request_status'')
          else if has ''selector'' then Inr ''provider.switch''
          else if has ''task'' then (if has_background then Inr ''delegate_async'' else Inr ''delegate'')
          else if has_any payload [''input_path'', ''output_path'', ''source'', ''source_id'', ''selection_id'',
              ''primary_source_id'', ''primary_selection_id'', ''safe_profile_merge'',
              ''apply_external_skills_plan'', ''force'', ''mode''] then Inr ''config.import''
          else if has ''status'' then Inr ''approval_requests_list''
          else if has ''text'' then Inr ''sessions_send''
          else if has ''input'' then Inr ''session_continue''
          else if has ''query'' then Inr ''session_search''
          else if has_any payload [''tool_ids'', ''runtime_narrowing''] then Inr ''session_tool_policy_set''
          else if has_any payload [''session_ids'', ''dry_run''] then
            Inl ''hidden_agent_requires_operation: provide `operation` for archive, cancel, recover, or other multi-session control work''
          else if has ''session_id'' then
            (if has ''timeout_ms'' then Inr ''session_wait''
             else if has ''after_id'' then Inr ''session_events''
             else if has ''limit'' then Inr ''sessions_history''
             else Inr ''session_status'')
          else if has_any payload [''limit'', ''offset'', ''state'', ''kind'', ''parent_session_id'', ''overdue_only'',
              ''include_archived'', ''include_delegate_lifecycle''] then Inr ''sessions_list''
          else Inl ''hidden_agent_requires_actionable_fields: expected approval, session, delegate, provider, or config fields; add `operation` when the request is ambiguous'')"

definition route_hidden_skills_tool_name :: "json \<Rightarrow> string + string" where
  "route_hidden_skills_tool_name payload =
     (case hidden_operation payload of
        Some operation \<Rightarrow>
          (case map_of skills_operations operation of
             Some n \<Rightarrow> Inr n
           | None \<Rightarrow> Inl (''hidden_skills_unknown_operation: unknown skills operation `'' @ operation @ ''`''))
      | None \<Rightarrow>
          let has = payload_has_non_null_field payload in
          if has ''sources'' then Inr ''external_skills.source_search''
          else if has_any payload [''allowed_domains'', ''blocked_domains'', ''enabled''] then Inr ''external_skills.policy''
          else if has_any payload [''path'', ''bundled_skill_id'', ''source_skill_id''] then Inr ''external_skills.install''
          else if has_any payload [''url'', ''save_as''] then Inr ''external_skills.fetch''
          else if has ''reference'' then
            (if has_any payload [''approval_granted'', ''max_bytes''] then Inr ''external_skills.fetch''
             else Inr ''external_skills.resolve'')
          else if has ''query'' then Inr ''external_skills.search''
          else if has ''skill_id'' then
            (if (case json_as_object payload of None \<Rightarrow> False
                 | Some m \<Rightarrow> list_ex (\<lambda>e. fst e \<noteq> ''skill_id'' \<and> fst e \<noteq> ''operation'') m)
             then Inr ''external_skills.invoke'' else Inr ''external_skills.inspect'')
          else if json_as_object payload = Some [] then Inr ''external_skills.list''
          else Inl ''hidden_skills_requires_actionable_fields: expected search, inspect, install, fetch, resolve, policy, or list fields; add `operation` when the request is ambiguous'')"

fun first_channel_tool ::
    "(string \<Rightarrow> (string \<times> 'k) option) \<Rightarrow> (string \<Rightarrow> string option) \<Rightarrow> string list \<Rightarrow> string option" where
  "first_channel_tool resolve surface_id [] = None"
| "first_channel_tool resolve surface_id (candidate # candidates) =
     (case resolve candidate of
        None \<Rightarrow> first_channel_tool resolve surface_id candidates
      | Some (resolved, _) \<Rightarrow>
          if surface_id resolved = Some ''channel'' then Some resolved
          else first_channel_tool resolve surface_id candidates)"

definition route_hidden_channel_tool_name ::
    "(string \<Rightarrow> (string \<times> 'k) option) \<Rightarrow> (string \<Rightarrow> string option) \<Rightarrow> json \<Rightarrow> string + string" where
  "route_hidden_channel_tool_name resolve surface_id payload =
     (case hidden_operation payload of
        None \<Rightarrow> Inl ''hidden_channel_requires_operation: provide `operation`, such as `messages.send`, `messages.reply`, `card.update`, or `feishu.whoami`''
      | Some operation \<Rightarrow>
          let normalized_operation = replace_char (CHR ''-'') (CHR ''.'') (replace_char (CHR ''_'') (CHR ''.'') operation);
              candidates = [operation]
                @ (if normalized_operation \<noteq> operation then [normalized_operation] else [])
                @ (if \<not> prefix ''feishu.'' normalized_operation then [''feishu.'' @ normalized_operation] else []) in
          (case first_channel_tool resolve surface_id candidates of
             Some n \<Rightarrow> Inr n
           | None \<Rightarrow> Inl (''hidden_channel_unknown_operation: unknown channel operation `'' @ operation @ ''`'')))"

definition route_hidden_discoverable_tool_name ::
    "(string \<Rightarrow> string) \<Rightarrow> (string \<Rightarrow> (string \<times> 'k) option) \<Rightarrow> (string \<Rightarrow> string option) \<Rightarrow> string \<Rightarrow> json
       \<Rightarrow> string + string" where
  "route_hidden_discoverable_tool_name canonical resolve surface_id name payload =
     (let canonical_name = canonical name in
      if canonical_name = ''agent'' then route_hidden_agent_tool_name payload
      else if canonical_name = ''skills'' then route_hidden_skills_tool_name payload
      else if canonical_name = ''channel'' then route_hidden_channel_tool_name resolve surface_id payload
      else ok_or (''tool_not_found: unknown tool `'' @ canonical_name @ ''`'') (map_option fst (resolve canonical_name)))"

text \<open>The operation under which a facade offers a tool.\<close>

definition matches_surface_name :: "string \<Rightarrow> string \<Rightarrow> bool" where
  "matches_surface_name raw expected \<longleftrightarrow>
     raw = expected \<or> replace_char (CHR ''-'') (CHR ''.'') raw = expected
     \<or> replace_char (CHR ''-'') (CHR ''_'') raw = expected"

definition hidden_facade_tool_name_for_hidden_tool :: "string \<Rightarrow> string option" where
  "hidden_facade_tool_name_for_hidden_tool name =
     (if matches_surface_name name ''approval_requests_list'' \<or> matches_surface_name name ''approval_request_status''
        \<or> matches_surface_name name ''approval_request_resolve'' \<or> prefix ''session_'' name \<or> prefix ''sessions_'' name
        \<or> matches_surface_name name ''delegate'' \<or> matches_surface_name name ''delegate_async''
        \<or> matches_surface_name name ''provider.switch'' \<or> matches_surface_name name ''config.import''
      then Some ''agent''
      else if prefix ''external_skills.'' name then Some ''skills''
      else if prefix ''feishu.'' name then Some ''channel''
      else None)"

definition agent_operation_names :: "(string \<times> string) list" where
  "agent_operation_names =
     [(''approval_requests_list'', ''approval-list''),
      (''approval_request_status'', ''approval-status''),
      (''approval_request_resolve'', ''approval-resolve''), (''sessions_list'', ''sessions-list''),
      (''sessions_history'', ''session-history''), (''session_events'', ''session-events''),
      (''session_search'', ''session-search''), (''session_status'', ''session-status''),
      (''session_wait'', ''session-wait''),
      (''session_tool_policy_status'', ''session-policy-status''),
      (''session_tool_policy_set'', ''session-policy-set''),
      (''session_tool_policy_clear'', ''session-policy-clear''),
      (''session_archive'', ''session-archive''), (''session_cancel'', ''session-cancel''),
      (''session_continue'', ''session-continue''), (''session_recover'', ''session-recover''),
      (''sessions_send'', ''sessions-send''), (''delegate'', ''delegate''),
      (''delegate_async'', ''delegate-background''), (''provider.switch'', ''provider-switch''),
      (''config.import'', ''config-import'')]"

definition skills_operation_names :: "(string \<times> string) list" where
  "skills_operation_names =
     [(''external_skills.search'', ''search''), (''external_skills.recommend'', ''recommend''),
      (''external_skills.source_search'', ''source-search''),
      (''external_skills.inspect'', ''inspect''), (''external_skills.install'', ''install''),
      (''external_skills.invoke'', ''run''), (''external_skills.list'', ''list''),
      (''external_skills.policy'', ''policy''), (''external_skills.fetch'', ''fetch''),
      (''external_skills.resolve'', ''resolve''), (''external_skills.remove'', ''remove'')]"

definition hidden_operation_for_tool_name :: "(string \<Rightarrow> string) \<Rightarrow> string \<Rightarrow> string option" where
  "hidden_operation_for_tool_name canonical raw =
     (let canonical_name = canonical raw in
      Option.bind (hidden_facade_tool_name_for_hidden_tool canonical_name) (\<lambda>facade.
      if facade = ''agent'' then map_of agent_operation_names canonical_name
      else if facade = ''skills'' then map_of skills_operation_names canonical_name
      else if facade = ''channel'' then strip_prefix ''feishu.'' canonical_name
      else None))"

section \<open>Names in the log\<close>

definition display_inner_tool_name_for_logs :: "string \<Rightarrow> string" where
  "display_inner_tool_name_for_logs name = (if prefix ''browser.companion.'' name then ''browser'' else name)"

definition resolved_inner_tool_name_for_logs ::
    "(string \<Rightarrow> string) \<Rightarrow> (string \<Rightarrow> (string \<times> 'k) option) \<Rightarrow> (string \<Rightarrow> string option) \<Rightarrow> string \<Rightarrow> json
       \<Rightarrow> string" where
  "resolved_inner_tool_name_for_logs canonical resolve surface_id canonical_name payload =
     (if canonical_name = ''tool.invoke'' then
        let inner_arguments = (case json_get payload ''arguments'' of None \<Rightarrow> JNull | Some a \<Rightarrow> a) in
        (case Option.bind (json_get payload ''tool_id'') json_as_str of
           None \<Rightarrow> ''-''
         | Some tool_id \<Rightarrow>
             display_inner_tool_name_for_logs
               (case route_hidden_discoverable_tool_name canonical resolve surface_id tool_id inner_arguments of
                  Inr n \<Rightarrow> n | Inl _ \<Rightarrow> canonical tool_id))
      else if canonical_name \<notin> {''read'', ''write'', ''exec'', ''web'', ''browser'', ''memory''} then ''-''
      else case route_direct_tool_name canonical_name payload of
          Inr n \<Rightarrow> display_inner_tool_name_for_logs n
        | Inl _ \<Rightarrow> ''-'')"

section \<open>Modes\<close>

lemma count_true_length:
  "length vs \<le> usize_max \<Longrightarrow> count_true vs = length (filter id vs)"
proof (induction vs rule: rev_induct)
  case (snoc v vs)
  have "length (filter id vs) < usize_max"
    using snoc.prems by (intro le_less_trans [OF length_filter_le]) simp
  with snoc show ?case by (auto simp: count_true_def sat_inc_below id_def)
qed (simp add: count_true_def)

lemma count_true_modes [simp]:
  "count_true [a, b] = of_bool a + of_bool b"
  "count_true [a, b, c] = of_bool a + of_bool b + of_bool c"
  by (subst count_true_length; simp add: usize_max_def)+

text \<open>A read request is routed exactly when it has one of the three fields.\<close>

lemma read_routes_iff:
  "(\<exists>n. route_direct_read_tool_name p = Inr n) \<longleftrightarrow>
     length (filter (payload_has_non_null_field p) [''path'', ''query'', ''pattern'']) = 1"
  by (simp add: route_direct_read_tool_name_def Let_def)

text \<open>A command with shell syntax goes to the argument-vector tool only with separate arguments.\<close>

lemma shell_exec_without_shell_syntax:
  assumes "route_direct_exec_tool_name p = Inr ''shell.exec''" and "trimmed_field p ''command'' = Some c"
  shows "payload_has_non_null_field p ''args'' \<or> \<not> command_uses_shell_syntax c"
  using assms by (auto simp: route_direct_exec_tool_name_def Let_def split: if_splits option.splits)

section \<open>Where a direct tool may lead\<close>

definition direct_targets :: "string \<Rightarrow> string set" where
  "direct_targets name =
     (if name = ''read'' then {''file.read'', ''content.search'', ''glob.search''}
      else if name = ''write'' then {''file.write'', ''file.edit''}
      else if name = ''exec'' then {''shell.exec'', ''bash.exec''}
      else if name = ''web'' then {''web.search'', ''web.fetch'', ''http.request''}
      else if name = ''browser'' then {''browser.open'', ''browser.click'', ''browser.extract'',
        ''browser.companion.session.start'', ''browser.companion.session.stop'', ''browser.companion.navigate'',
        ''browser.companion.snapshot'', ''browser.companion.wait'', ''browser.companion.click'', ''browser.companion.type''}
      else if name = ''memory'' then {''memory_search'', ''memory_get''}
      else {''-''})"

lemma read_targets: "route_direct_read_tool_name p = Inr n \<Longrightarrow> n \<in> direct_targets ''read''"
  by (auto simp: route_direct_read_tool_name_def direct_targets_def Let_def split: if_splits)

lemma write_targets: "route_direct_write_tool_name p = Inr n \<Longrightarrow> n \<in> direct_targets ''write''"
  by (auto simp: route_direct_write_tool_name_def direct_targets_def Let_def split: if_splits)

lemma exec_targets: "route_direct_exec_tool_name p = Inr n \<Longrightarrow> n \<in> direct_targets ''exec''"
  by (auto simp: route_direct_exec_tool_name_def direct_targets_def Let_def split: if_splits option.splits)

lemma web_targets: "route_direct_web_tool_name p = Inr n \<Longrightarrow> n \<in> direct_targets ''web''"
  by (auto simp: route_direct_web_tool_name_def direct_targets_def Let_def split: if_splits)

lemma web_view_targets: "route_direct_web_tool_name_for_view p view = Inr n \<Longrightarrow> n \<in> direct_targets ''web''"
  by (auto simp: route_direct_web_tool_name_for_view_def and_then_Inr Let_def direct_targets_def
      split: if_splits dest!: web_targets)

lemma click_targets: "route_browser_click p = Inr n \<Longrightarrow> n \<in> direct_targets ''browser''"
  by (auto simp: route_browser_click_def direct_targets_def Let_def split: if_splits)

lemma action_targets: "route_browser_action p a = Inr n \<Longrightarrow> n \<in> direct_targets ''browser''"
  unfolding route_browser_action_def Let_def
  by (auto simp: direct_targets_def split: if_splits dest!: click_targets)

lemma browser_targets: "route_direct_browser_tool_name p = Inr n \<Longrightarrow> n \<in> direct_targets ''browser''"
  unfolding route_direct_browser_tool_name_def Let_def
  by (auto simp: direct_targets_def split: if_splits option.splits dest!: click_targets action_targets)

lemma memory_targets: "route_direct_memory_tool_name p = Inr n \<Longrightarrow> n \<in> direct_targets ''memory''"
  by (auto simp: route_direct_memory_tool_name_def direct_targets_def Let_def split: if_splits)

lemmas route_targets = read_targets write_targets exec_targets web_targets web_view_targets browser_targets memory_targets

lemma route_direct_targets:
  "route_direct_tool_name name p = Inr n \<Longrightarrow> n \<in> direct_targets name"
  by (auto simp: route_direct_tool_name_def direct_targets_def [of name] split: if_splits
      dest!: route_targets simp: direct_targets_def)

lemma route_view_targets:
  "route_direct_tool_name_for_view name p view = Inr n \<Longrightarrow> n \<in> direct_targets name"
  by (auto simp: route_direct_tool_name_for_view_def split: if_splits
      dest: web_view_targets route_direct_targets)

lemma route_request_Inr:
  assumes "route_direct_tool_request view request = Inr routed"
  shows "tool_name routed \<in> direct_targets (tool_name request)" and "tool_name routed \<in> view"
    and "tool_payload routed = tool_payload request"
  using assms by (auto simp: route_direct_tool_request_def and_then_Inr split: if_splits dest: route_view_targets)

section \<open>Operations of the hidden facades\<close>

lemma trimmed_field_str:
  "json_get p key = Some (JString s) \<Longrightarrow> trim s = s \<Longrightarrow> s \<noteq> [] \<Longrightarrow> trimmed_field p key = Some s"
  by (simp add: trimmed_field_def trimmed_non_empty_path_def)

lemma agent_operations_inverse:
  "list_all (\<lambda>(n, op). map_of agent_operations op = Some n \<and> trim op = op \<and> op \<noteq> []) agent_operation_names"
  by code_simp

lemma skills_operations_inverse:
  "list_all (\<lambda>(n, op). map_of skills_operations op = Some n \<and> trim op = op \<and> op \<noteq> []) skills_operation_names"
  by code_simp

lemma agent_operation_routes:
  assumes "map_of agent_operation_names n = Some op" and "json_get p ''operation'' = Some (JString op)"
  shows "route_hidden_agent_tool_name p = Inr n"
proof -
  have "map_of agent_operations op = Some n \<and> trim op = op \<and> op \<noteq> []"
    using agent_operations_inverse map_of_SomeD [OF assms(1)] by (auto simp: list_all_iff)
  with assms(2) show ?thesis
    by (simp add: route_hidden_agent_tool_name_def hidden_operation_def trimmed_field_str)
qed

lemma skills_operation_routes:
  assumes "map_of skills_operation_names n = Some op" and "json_get p ''operation'' = Some (JString op)"
  shows "route_hidden_skills_tool_name p = Inr n"
proof -
  have "map_of skills_operations op = Some n \<and> trim op = op \<and> op \<noteq> []"
    using skills_operations_inverse map_of_SomeD [OF assms(1)] by (auto simp: list_all_iff)
  with assms(2) show ?thesis
    by (simp add: route_hidden_skills_tool_name_def hidden_operation_def trimmed_field_str)
qed

text \<open>
  C33: a hidden tool is reached through its facade: when \<open>hidden_operation_for_tool_name\<close> offers a tool of
  the agent or skills facade as an operation, a request to the facade that carries this operation is
  routed to exactly that tool, whatever else its payload holds.
\<close>

theorem hidden_operations_round_trip:
  assumes "hidden_operation_for_tool_name canonical raw = Some op"
    and "hidden_facade_tool_name_for_hidden_tool (canonical raw) = Some facade"
    and "facade \<noteq> ''channel''" and "canonical facade = facade"
    and "json_get payload ''operation'' = Some (JString op)"
  shows "route_hidden_discoverable_tool_name canonical resolve surface_id facade payload = Inr (canonical raw)"
  using assms
  by (auto simp: hidden_operation_for_tool_name_def route_hidden_discoverable_tool_name_def Let_def
      split: if_splits intro: agent_operation_routes skills_operation_routes)

theorem hidden_operations_round_trip_witness:
  "route_hidden_discoverable_tool_name id (\<lambda>_. None :: (string \<times> unit) option) (\<lambda>_. None) ''agent''
     (JObject [(''operation'', JString ''delegate-background''), (''task'', JString ''x'')]) = Inr ''delegate_async''"
proof -
  have "hidden_operation_for_tool_name id ''delegate_async'' = Some ''delegate-background''"
    and "hidden_facade_tool_name_for_hidden_tool (id ''delegate_async'') = Some ''agent''"
    by code_simp+
  from hidden_operations_round_trip [OF this, of
      "JObject [(''operation'', JString ''delegate-background''), (''task'', JString ''x'')]" "\<lambda>_. None" "\<lambda>_. None"]
  show ?thesis by (simp add: id_def)
qed

end
