(* ===== verification/Tool_Lease.thy ===== *)
theory Tool_Lease
  imports Shell_Policy Unix_Paths
begin

text \<open>
  Leases for discoverable tools (\<open>crates/app/src/tools/tool_lease_authority.rs\<close>): signed claims that
  bind a tool to a token, a session and a turn for five minutes, and the secret that signs them,
  which processes of one home directory publish and share through a file.  JSON, Base64, SHA-256 and
  the decoding of hexadecimal text are parameters; so are the clock, the digest of the tool catalog
  and the outcomes of file operations.
\<close>

section \<open>Claims\<close>

record tool_lease_claims =
  claim_tool_id :: string
  claim_catalog_digest :: string
  claim_expires_at_unix :: u64
  claim_token_id :: "string option"
  claim_session_id :: "string option"
  claim_turn_id :: "string option"

record tool_lease_binding =
  binding_token_id :: "string option"
  binding_session_id :: "string option"
  binding_turn_id :: "string option"

record lease_codec =
  claims_to_vec :: "tool_lease_claims \<Rightarrow> string + string"
  claims_from_slice :: "string \<Rightarrow> string + tool_lease_claims"
  b64_encode :: "string \<Rightarrow> string"
  b64_decode :: "string \<Rightarrow> string + string"
  sha256_hex :: "string \<Rightarrow> string"

definition tool_lease_ttl_seconds :: u64 where
  "tool_lease_ttl_seconds = 300"

definition extract_tool_lease_binding :: "json_map \<Rightarrow> tool_lease_binding" where
  "extract_tool_lease_binding payload =
     \<lparr>binding_token_id = field_str payload ''_lease_token_id'',
      binding_session_id = field_str payload ''_lease_session_id'',
      binding_turn_id = field_str payload ''_lease_turn_id''\<rparr>"

definition sign_tool_lease_with_secret :: "lease_codec \<Rightarrow> string \<Rightarrow> string \<Rightarrow> string" where
  "sign_tool_lease_with_secret codec encoded_claims secret = sha256_hex codec (secret @ '':'' @ encoded_claims)"

text \<open>\<open>crypto::timing_safe_eq\<close>.\<close>

definition timing_safe_eq :: "string \<Rightarrow> string \<Rightarrow> bool" where
  "timing_safe_eq expected actual \<longleftrightarrow> (if length expected \<noteq> length actual then False else expected = actual)"

definition tool_lease_signature_matches ::
    "lease_codec \<Rightarrow> string + string \<Rightarrow> string \<Rightarrow> string \<Rightarrow> string + bool" where
  "tool_lease_signature_matches codec secret encoded_claims signature =
     and_then secret (\<lambda>secret.
       Inr (timing_safe_eq (sign_tool_lease_with_secret codec encoded_claims secret) signature))"

text \<open>The secret may be unavailable; its loading is modelled below.\<close>

definition issue_tool_lease ::
    "lease_codec \<Rightarrow> string + string \<Rightarrow> string \<Rightarrow> u64 \<Rightarrow> string \<Rightarrow> json_map \<Rightarrow> string + string" where
  "issue_tool_lease codec secret catalog_digest now tool_id payload =
     (let binding = extract_tool_lease_binding payload;
          claims = \<lparr>claim_tool_id = tool_id, claim_catalog_digest = catalog_digest,
            claim_expires_at_unix = sat_add_u64 now tool_lease_ttl_seconds,
            claim_token_id = binding_token_id binding, claim_session_id = binding_session_id binding,
            claim_turn_id = binding_turn_id binding\<rparr> in
      and_then (map_err (\<lambda>error. ''tool_lease_claims_serialize_failed: '' @ error) (claims_to_vec codec claims))
        (\<lambda>claims_bytes.
      let encoded_claims = b64_encode codec claims_bytes in
      and_then secret (\<lambda>secret.
        Inr (encoded_claims @ ''.'' @ sign_tool_lease_with_secret codec encoded_claims secret))))"

text \<open>\<open>str::split_once\<close> with a character.\<close>

definition split_once :: "char \<Rightarrow> string \<Rightarrow> (string \<times> string) option" where
  "split_once c s =
     (if c \<in> set s then Some (takeWhile (\<lambda>x. x \<noteq> c) s, tl (dropWhile (\<lambda>x. x \<noteq> c) s)) else None)"

definition validate_tool_lease ::
    "lease_codec \<Rightarrow> string + string \<Rightarrow> string \<Rightarrow> u64 \<Rightarrow> string \<Rightarrow> string \<Rightarrow> json_map \<Rightarrow> string + unit" where
  "validate_tool_lease codec secret catalog_digest now expected_tool_id lease payload =
     (case split_once (CHR ''.'') lease of
        None \<Rightarrow> Inl ''invalid_tool_lease: malformed lease''
      | Some (encoded_claims, signature) \<Rightarrow>
          and_then (tool_lease_signature_matches codec secret encoded_claims signature) (\<lambda>signatures_match.
          if \<not> signatures_match then Inl ''invalid_tool_lease: signature mismatch''
          else
            and_then (map_err (\<lambda>error. ''invalid_tool_lease: claims decode failed: '' @ error)
                (b64_decode codec encoded_claims)) (\<lambda>claims_bytes.
            and_then (map_err (\<lambda>error. ''invalid_tool_lease: claims parse failed: '' @ error)
                (claims_from_slice codec claims_bytes)) (\<lambda>claims.
            let binding = extract_tool_lease_binding payload in
            if claim_tool_id claims \<noteq> expected_tool_id then Inl ''invalid_tool_lease: tool mismatch''
            else if claim_catalog_digest claims \<noteq> catalog_digest then Inl ''invalid_tool_lease: catalog mismatch''
            else if claim_expires_at_unix claims \<le> now then Inl ''invalid_tool_lease: expired lease''
            else if \<not> (claim_token_id claims = None \<or> claim_token_id claims = binding_token_id binding)
              then Inl ''invalid_tool_lease: token mismatch''
            else if \<not> (claim_session_id claims = None \<or> claim_session_id claims = binding_session_id binding)
              then Inl ''invalid_tool_lease: session mismatch''
            else if \<not> (claim_turn_id claims = None \<or> claim_turn_id claims = binding_turn_id binding)
              then Inl ''invalid_tool_lease: turn mismatch''
            else Inr ()))))"

section \<open>The secret\<close>

text \<open>
  The outcome of reading the file: its content, that it does not exist, or another error; then what
  the reader makes of it.  \<open>hex_len\<close> is the number of bytes that hexadecimal text decodes to.
\<close>

datatype file_read = FileText string | FileNotFound | FileReadError string

datatype read_secret_error =
    ReadIo string
  | ReadEmpty
  | ReadInvalidHex string
  | ReadWrongLength nat

definition read_tool_lease_secret_file_detail ::
    "(string \<Rightarrow> string + nat) \<Rightarrow> file_read \<Rightarrow> read_secret_error + string option" where
  "read_tool_lease_secret_file_detail hex_len answer =
     (case answer of
        FileNotFound \<Rightarrow> Inr None
      | FileReadError error \<Rightarrow> Inl (ReadIo error)
      | FileText raw_secret \<Rightarrow>
          let trimmed_secret = trim raw_secret in
          if trimmed_secret = [] then Inl ReadEmpty
          else (case hex_len trimmed_secret of
                  Inl error \<Rightarrow> Inl (ReadInvalidHex error)
                | Inr secret_length \<Rightarrow>
                    if secret_length \<noteq> 32 then Inl (ReadWrongLength secret_length)
                    else Inr (Some trimmed_secret)))"

fun is_retryable_publication_state :: "read_secret_error \<Rightarrow> bool" where
  "is_retryable_publication_state ReadEmpty = True"
| "is_retryable_publication_state (ReadInvalidHex _) = True"
| "is_retryable_publication_state (ReadWrongLength _) = True"
| "is_retryable_publication_state (ReadIo _) = False"

fun read_secret_error_render :: "string \<Rightarrow> read_secret_error \<Rightarrow> string" where
  "read_secret_error_render path (ReadIo error) =
     ''tool_lease_authority_unavailable: failed to read secret file '' @ path @ '': '' @ error"
| "read_secret_error_render path ReadEmpty =
     ''tool_lease_authority_unavailable: secret file '' @ path @ '' is empty''"
| "read_secret_error_render path (ReadInvalidHex error) =
     ''tool_lease_authority_unavailable: secret file '' @ path @ '' is not valid hex: '' @ error"
| "read_secret_error_render path (ReadWrongLength n) =
     ''tool_lease_authority_unavailable: secret file '' @ path @ '' has '' @ show_nat n @ '' bytes; expected ''
       @ show_nat 32"

text \<open>
  Publishing: a temporary file is written in full and then renamed without replacing an existing
  one.  The first argument is an error of the steps before the rename, or of the rename itself.
\<close>

datatype create_secret_error = AlreadyExists | CreateIo string

definition write_tool_lease_secret_if_missing ::
    "string option \<Rightarrow> string \<Rightarrow> file_read \<Rightarrow> file_read \<times> (create_secret_error + unit)" where
  "write_tool_lease_secret_if_missing io_error secret file =
     (case io_error of
        Some error \<Rightarrow> (file, Inl (CreateIo error))
      | None \<Rightarrow>
          if file = FileNotFound then (FileText (secret @ [CHR 0x0A]), Inr ())
          else (file, Inl AlreadyExists))"

definition publication_retry_attempts :: nat where
  "publication_retry_attempts = 12"

definition ensure_tool_lease_secret_parent_dir :: "string \<Rightarrow> string option \<Rightarrow> string + unit" where
  "ensure_tool_lease_secret_parent_dir path dir_error =
     (case path_parent path of
        None \<Rightarrow> Inr ()
      | Some parent \<Rightarrow>
          (case dir_error of
             None \<Rightarrow> Inr ()
           | Some error \<Rightarrow>
               Inl (''tool_lease_authority_unavailable: failed to create secret directory '' @ parent @ '': '' @ error)))"

text \<open>
  Loading the secret, cut at the points where another process may act on the file: the first read,
  the publication, and each read that waits for the publication of another process.
\<close>

datatype load_phase =
    LoadStart
  | LoadMissing
  | LoadRetry nat
  | Loaded string
  | LoadFailed string

definition load_start ::
    "(string \<Rightarrow> string + nat) \<Rightarrow> string \<Rightarrow> string option \<Rightarrow> file_read \<Rightarrow> load_phase" where
  "load_start hex_len path dir_error file =
     (case read_tool_lease_secret_file_detail hex_len file of
        Inl error \<Rightarrow> LoadFailed (read_secret_error_render path error)
      | Inr (Some existing_secret) \<Rightarrow> Loaded existing_secret
      | Inr None \<Rightarrow>
          (case ensure_tool_lease_secret_parent_dir path dir_error of
             Inl error \<Rightarrow> LoadFailed error
           | Inr _ \<Rightarrow> LoadMissing))"

definition load_create ::
    "string \<Rightarrow> string option \<Rightarrow> string \<Rightarrow> file_read \<Rightarrow> file_read \<times> load_phase" where
  "load_create path io_error generated_secret file =
     (case write_tool_lease_secret_if_missing io_error generated_secret file of
        (file', Inr _) \<Rightarrow> (file', Loaded generated_secret)
      | (file', Inl AlreadyExists) \<Rightarrow> (file', LoadRetry 0)
      | (file', Inl (CreateIo error)) \<Rightarrow>
          (file', LoadFailed (''tool_lease_authority_unavailable: failed to persist secret at '' @ path @ '': '' @ error)))"

definition load_retry :: "(string \<Rightarrow> string + nat) \<Rightarrow> string \<Rightarrow> nat \<Rightarrow> file_read \<Rightarrow> load_phase" where
  "load_retry hex_len path attempt_index file =
     (let give_up = LoadFailed (''tool_lease_authority_unavailable: secret file appeared without readable contents at '' @ path);
          again = (if Suc attempt_index < publication_retry_attempts then LoadRetry (Suc attempt_index) else give_up) in
      if \<not> attempt_index < publication_retry_attempts then give_up
      else (case read_tool_lease_secret_file_detail hex_len file of
              Inr (Some existing_secret) \<Rightarrow> Loaded existing_secret
            | Inr None \<Rightarrow> again
            | Inl error \<Rightarrow>
                if is_retryable_publication_state error then again
                else LoadFailed (read_secret_error_render path error)))"

text \<open>
  The whole function.  The arguments that describe the file are what it is at the first read, at the
  rename, and at each later read.
\<close>

function retry_loop ::
    "(string \<Rightarrow> string + nat) \<Rightarrow> string \<Rightarrow> (nat \<Rightarrow> file_read) \<Rightarrow> nat \<Rightarrow> string + string" where
  "retry_loop hex_len path answers n =
     (case load_retry hex_len path n (answers n) of
        LoadRetry m \<Rightarrow> retry_loop hex_len path answers m
      | Loaded s \<Rightarrow> Inr s
      | LoadFailed e \<Rightarrow> Inl e
      | _ \<Rightarrow> Inl [])"
  by pat_completeness auto

lemma load_retry_next:
  "load_retry hex_len path n file = LoadRetry m \<Longrightarrow> m = Suc n \<and> Suc n < publication_retry_attempts"
  by (auto simp: load_retry_def Let_def split: if_splits sum.splits option.splits)

termination retry_loop
proof (relation "measure (\<lambda>(hex_len, path, answers, n). publication_retry_attempts - n)")
  fix hex_len :: "string \<Rightarrow> string + nat" and path answers n m
  assume "load_retry hex_len path n (answers n) = LoadRetry m"
  from load_retry_next [OF this]
  show "((hex_len, path, answers, m), hex_len, path, answers, n)
      \<in> measure (\<lambda>(hex_len, path, answers, n). publication_retry_attempts - n)"
    by auto
qed simp

declare retry_loop.simps [simp del]

definition load_or_create_tool_lease_secret ::
    "(string \<Rightarrow> string + nat) \<Rightarrow> string \<Rightarrow> string option \<Rightarrow> string option \<Rightarrow> string
       \<Rightarrow> file_read \<Rightarrow> file_read \<Rightarrow> (nat \<Rightarrow> file_read) \<Rightarrow> file_read \<times> (string + string)" where
  "load_or_create_tool_lease_secret hex_len path dir_error io_error generated at_read at_persist answers =
     (case load_start hex_len path dir_error at_read of
        Loaded s \<Rightarrow> (at_read, Inr s)
      | LoadFailed e \<Rightarrow> (at_read, Inl e)
      | _ \<Rightarrow>
          (case load_create path io_error generated at_persist of
             (file, Loaded s) \<Rightarrow> (file, Inr s)
           | (file, LoadFailed e) \<Rightarrow> (file, Inl e)
           | (file, _) \<Rightarrow> (file, retry_loop hex_len path answers 0)))"

text \<open>
  The cache of the process: looked up, looked up again under the lock, filled only by a success.
\<close>

definition tool_lease_secret ::
    "string option \<Rightarrow> string option \<Rightarrow> file_read \<times> (string + string) \<Rightarrow> string option \<times> (string + string)" where
  "tool_lease_secret cached cached_under_lock load =
     (case cached of
        Some s \<Rightarrow> (cached, Inr s)
      | None \<Rightarrow>
          (case cached_under_lock of
             Some s \<Rightarrow> (cached_under_lock, Inr s)
           | None \<Rightarrow>
               (case snd load of
                  Inl e \<Rightarrow> (None, Inl e)
                | Inr s \<Rightarrow> (Some s, Inr s))))"

section \<open>Lifetime of a lease\<close>

text \<open>What the code relies on of the libraries that write and read the claims.\<close>

definition lease_codec_ok :: "lease_codec \<Rightarrow> bool" where
  "lease_codec_ok codec \<longleftrightarrow>
     (\<forall>c. \<exists>v. claims_to_vec codec c = Inr v \<and> claims_from_slice codec v = Inr c)
     \<and> (\<forall>x. b64_decode codec (b64_encode codec x) = Inr x \<and> CHR ''.'' \<notin> set (b64_encode codec x))"

definition same_binding :: "string option \<Rightarrow> string option \<Rightarrow> bool" where
  "same_binding claimed actual \<longleftrightarrow> claimed = None \<or> claimed = actual"

lemma timing_safe_eq_iff: "timing_safe_eq a b \<longleftrightarrow> a = b"
  by (auto simp: timing_safe_eq_def)

lemma split_once_join: "c \<notin> set a \<Longrightarrow> split_once c (a @ c # b) = Some (a, b)"
  by (induction a) (auto simp: split_once_def)

lemma split_once_Some:
  "split_once c s = Some (a, b) \<longleftrightarrow> s = a @ c # b \<and> c \<notin> set a"
proof
  assume split: "split_once c s = Some (a, b)"
  then have "c \<in> set s" by (simp add: split_once_def split: if_splits)
  then obtain u v where "s = u @ c # v" "c \<notin> set u" by (meson split_list_first)
  with split split_once_join [of c u v] show "s = a @ c # b \<and> c \<notin> set a" by simp
qed (simp add: split_once_join)

lemma validate_issued:
  assumes "lease_codec_ok codec"
    and "issue_tool_lease codec (Inr secret) digest now tool payload = Inr lease"
  shows "validate_tool_lease codec (Inr secret') digest' now' tool' lease payload' = Inr ()
    \<longleftrightarrow> (let encoded = takeWhile (\<lambda>x. x \<noteq> CHR ''.'') lease in
         sha256_hex codec (secret' @ '':'' @ encoded) = sha256_hex codec (secret @ '':'' @ encoded))
      \<and> tool' = tool \<and> digest' = digest \<and> now' < sat_add_u64 now 300
      \<and> same_binding (field_str payload ''_lease_token_id'') (field_str payload' ''_lease_token_id'')
      \<and> same_binding (field_str payload ''_lease_session_id'') (field_str payload' ''_lease_session_id'')
      \<and> same_binding (field_str payload ''_lease_turn_id'') (field_str payload' ''_lease_turn_id'')"
proof -
  define claims where "claims = \<lparr>claim_tool_id = tool, claim_catalog_digest = digest,
      claim_expires_at_unix = sat_add_u64 now 300, claim_token_id = field_str payload ''_lease_token_id'',
      claim_session_id = field_str payload ''_lease_session_id'', claim_turn_id = field_str payload ''_lease_turn_id''\<rparr>"
  obtain v where v: "claims_to_vec codec claims = Inr v" "claims_from_slice codec v = Inr claims"
    using assms(1) unfolding lease_codec_ok_def by blast
  define enc where "enc = b64_encode codec v"
  have enc: "b64_decode codec enc = Inr v" "CHR ''.'' \<notin> set enc"
    using assms(1) unfolding lease_codec_ok_def enc_def by blast+
  have lease: "lease = enc @ CHR ''.'' # sha256_hex codec (secret @ '':'' @ enc)"
    using assms(2) v(1) by (simp add: issue_tool_lease_def Let_def extract_tool_lease_binding_def
        tool_lease_ttl_seconds_def claims_def [symmetric] enc_def [symmetric] sign_tool_lease_with_secret_def)
  have split: "split_once (CHR ''.'') lease = Some (enc, sha256_hex codec (secret @ '':'' @ enc))"
    unfolding lease using enc(2) by (rule split_once_join)
  have "takeWhile (\<lambda>x. x \<noteq> CHR ''.'') lease = enc"
    using split by (simp add: split_once_def split: if_splits)
  with enc v(2) show ?thesis
    by (auto simp: validate_tool_lease_def split tool_lease_signature_matches_def timing_safe_eq_iff
        sign_tool_lease_with_secret_def Let_def claims_def extract_tool_lease_binding_def same_binding_def
        not_le)
qed

lemma validated_is_signed:
  assumes "validate_tool_lease codec secret digest now tool lease payload = Inr ()"
  shows "\<exists>s enc. secret = Inr s \<and> lease = enc @ ''.'' @ sha256_hex codec (s @ '':'' @ enc)"
proof -
  obtain enc sig where split: "split_once (CHR ''.'') lease = Some (enc, sig)"
    using assms by (cases "split_once (CHR ''.'') lease") (auto simp: validate_tool_lease_def)
  with assms obtain s where "secret = Inr s" "sig = sha256_hex codec (s @ '':'' @ enc)"
    by (cases secret) (auto simp: validate_tool_lease_def tool_lease_signature_matches_def timing_safe_eq_iff
        sign_tool_lease_with_secret_def split: if_splits)
  with split show ?thesis by (auto simp: split_once_Some)
qed

text \<open>
  C17: a lease opens what it was issued for, and nothing else is a lease.  An issued lease is accepted
  under the same secret exactly for the same tool and catalog, before its five minutes are over, and
  for requests that carry the token, session and turn that it was bound to, as far as it was bound.
  Whatever is accepted ends in the hash of the secret and its claims, so that without the secret a
  lease can only be replayed.
\<close>

theorem tool_lease_opens_its_tool:
  assumes "lease_codec_ok codec" and "issue_tool_lease codec (Inr secret) digest now tool payload = Inr lease"
  shows "(validate_tool_lease codec (Inr secret) digest' now' tool' lease payload' = Inr ()
      \<longleftrightarrow> tool' = tool \<and> digest' = digest \<and> now' < sat_add_u64 now 300
        \<and> same_binding (field_str payload ''_lease_token_id'') (field_str payload' ''_lease_token_id'')
        \<and> same_binding (field_str payload ''_lease_session_id'') (field_str payload' ''_lease_session_id'')
        \<and> same_binding (field_str payload ''_lease_turn_id'') (field_str payload' ''_lease_turn_id''))
    \<and> (validate_tool_lease codec (Inr secret) digest' now' tool' other payload' = Inr ()
      \<longrightarrow> (\<exists>enc. other = enc @ ''.'' @ sha256_hex codec (secret @ '':'' @ enc)))"
proof
  show "validate_tool_lease codec (Inr secret) digest' now' tool' lease payload' = Inr ()
      \<longleftrightarrow> tool' = tool \<and> digest' = digest \<and> now' < sat_add_u64 now 300
        \<and> same_binding (field_str payload ''_lease_token_id'') (field_str payload' ''_lease_token_id'')
        \<and> same_binding (field_str payload ''_lease_session_id'') (field_str payload' ''_lease_session_id'')
        \<and> same_binding (field_str payload ''_lease_turn_id'') (field_str payload' ''_lease_turn_id'')"
    using validate_issued [OF assms, of secret] by (simp add: Let_def)
  show "validate_tool_lease codec (Inr secret) digest' now' tool' other payload' = Inr ()
      \<longrightarrow> (\<exists>enc. other = enc @ ''.'' @ sha256_hex codec (secret @ '':'' @ enc))"
    using validated_is_signed [of codec "Inr secret"] by fastforce
qed

text \<open>
  A concrete codec: the fields of the claims one after the other, each with a mark in front of every
  character and closed by a comma, and full stops escaped.
\<close>

definition quote_text :: "string \<Rightarrow> string" where
  "quote_text s = concat (map (\<lambda>c. [CHR ''x'', c]) s) @ '',''"

fun unquote_text :: "string \<Rightarrow> (string \<times> string) option" where
  "unquote_text (m # c # rest) =
     (if m = CHR '','' then Some ([], c # rest)
      else (case unquote_text rest of None \<Rightarrow> None | Some (s, tail) \<Rightarrow> Some (c # s, tail)))"
| "unquote_text [m] = (if m = CHR '','' then Some ([], []) else None)"
| "unquote_text [] = None"

fun unquote_all :: "nat \<Rightarrow> string \<Rightarrow> string list" where
  "unquote_all 0 s = []"
| "unquote_all (Suc n) s = (case unquote_text s of None \<Rightarrow> [] | Some (x, rest) \<Rightarrow> x # unquote_all n rest)"

fun escape_stops :: "string \<Rightarrow> string" where
  "escape_stops [] = []"
| "escape_stops (c # s) =
     (if c = CHR ''.'' then ''~d'' else if c = CHR ''~'' then ''~t'' else [c]) @ escape_stops s"

fun unescape_stops :: "string \<Rightarrow> string" where
  "unescape_stops (c # d # s) =
     (if c = CHR ''~'' then (if d = CHR ''d'' then CHR ''.'' else CHR ''~'') # unescape_stops s
      else c # unescape_stops (d # s))"
| "unescape_stops [c] = [c]"
| "unescape_stops [] = []"

definition opt_text :: "string option \<Rightarrow> string" where
  "opt_text v = (case v of None \<Rightarrow> [] | Some s \<Rightarrow> CHR ''s'' # s)"

definition text_opt :: "string \<Rightarrow> string option" where
  "text_opt s = (if s = [] then None else Some (tl s))"

definition sample_codec :: lease_codec where
  "sample_codec = \<lparr>
     claims_to_vec = (\<lambda>c. Inr (concat (map quote_text [claim_tool_id c, claim_catalog_digest c,
       replicate (unat (claim_expires_at_unix c)) (CHR ''1''), opt_text (claim_token_id c),
       opt_text (claim_session_id c), opt_text (claim_turn_id c)]))),
     claims_from_slice = (\<lambda>s. case unquote_all 6 s of
         [tool, digest, expiry, token, session, turn] \<Rightarrow>
           Inr \<lparr>claim_tool_id = tool, claim_catalog_digest = digest,
             claim_expires_at_unix = word_of_nat (length expiry), claim_token_id = text_opt token,
             claim_session_id = text_opt session, claim_turn_id = text_opt turn\<rparr>
       | _ \<Rightarrow> Inl ''missing field''),
     b64_encode = escape_stops, b64_decode = (\<lambda>s. Inr (unescape_stops s)), sha256_hex = rev\<rparr>"

lemma unquote_quote: "unquote_text (quote_text s @ rest) = Some (s, rest)"
proof (induction s)
  case Nil
  then show ?case by (cases rest) (simp_all add: quote_text_def)
qed (simp add: quote_text_def)

lemma unquote_all_fields: "unquote_all (length xs) (concat (map quote_text xs)) = xs"
  by (induction xs) (simp_all add: unquote_quote)

lemma unescape_escape: "unescape_stops (escape_stops s) = s"
proof (induction s)
  case (Cons c s)
  then show ?case by (cases "escape_stops s") auto
qed simp

lemma text_opt_text: "text_opt (opt_text v) = v"
  by (cases v) (simp_all add: text_opt_def opt_text_def)

lemma sample_codec_ok: "lease_codec_ok sample_codec"
proof -
  have "\<exists>v. claims_to_vec sample_codec c = Inr v \<and> claims_from_slice sample_codec v = Inr c" for c
    using unquote_all_fields [of "[claim_tool_id c, claim_catalog_digest c,
       replicate (unat (claim_expires_at_unix c)) (CHR ''1''), opt_text (claim_token_id c),
       opt_text (claim_session_id c), opt_text (claim_turn_id c)]"]
    by (simp add: sample_codec_def text_opt_text eval_nat_numeral)
  moreover have "CHR ''.'' \<notin> set (escape_stops x)" for x by (induction x) auto
  ultimately show ?thesis by (simp add: lease_codec_ok_def sample_codec_def unescape_escape)
qed

definition sample_lease_payload :: json_map where
  "sample_lease_payload = [(''_lease_token_id'', JString ''tok'')]"

definition sample_lease :: string where
  "sample_lease = (case issue_tool_lease sample_codec (Inr ''k'') ''cat'' 0 ''t'' sample_lease_payload of
     Inr lease \<Rightarrow> lease | Inl e \<Rightarrow> e)"

theorem tool_lease_opens_its_tool_witness:
  "validate_tool_lease sample_codec (Inr ''k'') ''cat'' 299 ''t'' sample_lease sample_lease_payload = Inr ()
   \<and> validate_tool_lease sample_codec (Inr ''k'') ''cat'' 300 ''t'' sample_lease sample_lease_payload \<noteq> Inr ()
   \<and> validate_tool_lease sample_codec (Inr ''k'') ''cat'' 299 ''t'' sample_lease [] \<noteq> Inr ()"
proof -
  have issued: "issue_tool_lease sample_codec (Inr ''k'') ''cat'' 0 ''t'' sample_lease_payload = Inr sample_lease"
    by (simp add: sample_lease_def issue_tool_lease_def sample_codec_def Let_def)
  have "sat_add_u64 0 300 = 300" by (simp add: sat_add_u64_def)
  then show ?thesis
    using tool_lease_opens_its_tool [OF sample_codec_ok issued, of "''cat''" 299 "''t''" sample_lease_payload]
      tool_lease_opens_its_tool [OF sample_codec_ok issued, of "''cat''" 300 "''t''" sample_lease_payload]
      tool_lease_opens_its_tool [OF sample_codec_ok issued, of "''cat''" 299 "''t''" "[]"]
    by (simp add: same_binding_def sample_lease_payload_def field_str_def)
qed

section \<open>One secret for all processes\<close>

text \<open>
  Processes that share the file.  Each is at a point of loading the secret; a process that has
  loaded it keeps it in its cache, and one that failed may try again.  A read may also fail for
  reasons of its own.
\<close>

record lease_world =
  secret_file :: file_read
  loaders :: "nat \<Rightarrow> load_phase"

text \<open>What the code relies on of a generated secret: thirty-two bytes in hexadecimal.\<close>

definition generated_ok :: "(string \<Rightarrow> string + nat) \<Rightarrow> string \<Rightarrow> bool" where
  "generated_ok hex_len g \<longleftrightarrow> hex_len g = Inr 32 \<and> g \<noteq> [] \<and> (\<forall>c \<in> set g. \<not> is_ws c)"

inductive lease_step :: "(string \<Rightarrow> string + nat) \<Rightarrow> string \<Rightarrow> lease_world \<Rightarrow> lease_world \<Rightarrow> bool"
  for hex_len path where
  Start: "loaders st p = LoadStart \<Longrightarrow> answer = secret_file st \<or> answer = FileReadError e \<Longrightarrow>
    lease_step hex_len path st
      (st\<lparr>loaders := (loaders st)(p := load_start hex_len path dir_error answer)\<rparr>)"
| Create: "loaders st p = LoadMissing \<Longrightarrow> generated_ok hex_len g \<Longrightarrow>
    load_create path io_error g (secret_file st) = (file, phase) \<Longrightarrow>
    lease_step hex_len path st (st\<lparr>secret_file := file, loaders := (loaders st)(p := phase)\<rparr>)"
| Retry: "loaders st p = LoadRetry n \<Longrightarrow> answer = secret_file st \<or> answer = FileReadError e \<Longrightarrow>
    lease_step hex_len path st
      (st\<lparr>loaders := (loaders st)(p := load_retry hex_len path n answer)\<rparr>)"
| Again: "loaders st p = LoadFailed e \<Longrightarrow>
    lease_step hex_len path st (st\<lparr>loaders := (loaders st)(p := LoadStart)\<rparr>)"

inductive lease_reachable :: "(string \<Rightarrow> string + nat) \<Rightarrow> string \<Rightarrow> lease_world \<Rightarrow> bool"
  for hex_len path where
  Init: "lease_reachable hex_len path \<lparr>secret_file = file, loaders = (\<lambda>_. LoadStart)\<rparr>"
| Step: "lease_reachable hex_len path st \<Longrightarrow> lease_step hex_len path st st' \<Longrightarrow> lease_reachable hex_len path st'"

text \<open>Whoever has loaded a secret has the one that the file holds.\<close>

definition lease_inv :: "(string \<Rightarrow> string + nat) \<Rightarrow> lease_world \<Rightarrow> bool" where
  "lease_inv hex_len st \<longleftrightarrow>
     (\<forall>p s. loaders st p = Loaded s \<longrightarrow>
        read_tool_lease_secret_file_detail hex_len (secret_file st) = Inr (Some s))"

lemma read_error_not_Some [simp]:
  "read_tool_lease_secret_file_detail hex_len (FileReadError e) = Inl (ReadIo e)"
  "read_tool_lease_secret_file_detail hex_len FileNotFound = Inr None"
  by (simp_all add: read_tool_lease_secret_file_detail_def)

lemma load_start_Loaded:
  "load_start hex_len path d answer = Loaded s \<Longrightarrow>
     read_tool_lease_secret_file_detail hex_len answer = Inr (Some s)"
  by (auto simp: load_start_def split: sum.splits option.splits)

lemma load_retry_Loaded:
  "load_retry hex_len path n answer = Loaded s \<Longrightarrow>
     read_tool_lease_secret_file_detail hex_len answer = Inr (Some s)"
  by (auto simp: load_retry_def Let_def split: sum.splits option.splits if_splits)

lemma read_published:
  assumes "generated_ok hex_len g"
  shows "read_tool_lease_secret_file_detail hex_len (FileText (g @ [CHR 0x0A])) = Inr (Some g)"
proof -
  have "trim_start (g @ [CHR 0x0A]) = g @ [CHR 0x0A]"
    using assms by (cases g) (simp_all add: trim_start_def generated_ok_def)
  moreover have "trim_end (g @ [CHR 0x0A]) = g"
    using assms by (cases g rule: rev_cases) (simp_all add: trim_end_def generated_ok_def is_ws_def)
  ultimately have "trim (g @ [CHR 0x0A]) = g" by (simp add: trim_def)
  with assms show ?thesis by (simp add: read_tool_lease_secret_file_detail_def generated_ok_def)
qed

lemma load_create_cases:
  assumes "load_create path io_error g file = (file', phase)"
  obtains "file = FileNotFound" "file' = FileText (g @ [CHR 0x0A])" "phase = Loaded g"
  | "file' = file" "\<forall>s. phase \<noteq> Loaded s"
  using assms by (auto simp: load_create_def write_tool_lease_secret_if_missing_def split: option.splits if_splits)

lemma lease_inv_step:
  assumes "lease_inv hex_len st" "lease_step hex_len path st st'"
  shows "lease_inv hex_len st'"
  using assms(2)
proof cases
  case (Start p answer e d)
  with assms(1) show ?thesis
    by (auto simp: lease_inv_def dest!: load_start_Loaded split: if_splits)
next
  case (Retry p n answer e)
  with assms(1) show ?thesis
    by (auto simp: lease_inv_def dest!: load_retry_Loaded split: if_splits)
next
  case (Again p e)
  with assms(1) show ?thesis by (simp add: lease_inv_def)
next
  case (Create p g io_error f phase)
  from Create(4) show ?thesis
  proof (cases rule: load_create_cases)
    case 1
    then have "loaders st q \<noteq> Loaded s" for q s
      using assms(1) unfolding lease_inv_def by force
    with 1 Create read_published [OF Create(3)] show ?thesis by (simp add: lease_inv_def)
  next
    case 2
    with assms(1) Create show ?thesis by (simp add: lease_inv_def)
  qed
qed

lemma lease_reachable_inv: "lease_reachable hex_len path st \<Longrightarrow> lease_inv hex_len st"
  by (induction rule: lease_reachable.induct) (simp add: lease_inv_def, rule lease_inv_step)

text \<open>
  C13: all processes sign with one secret.  However processes interleave their reads and their
  attempts to publish a secret of their own, whatever the file held before and whichever operations
  fail, every process that has loaded a secret has the text of the file, thirty-two bytes in
  hexadecimal, so that any two of them agree and keep agreeing.
\<close>

theorem lease_secret_agreement:
  assumes "lease_reachable hex_len path st" and "loaders st p = Loaded s" and "loaders st q = Loaded s'"
  shows "s = s' \<and> (\<exists>c. secret_file st = FileText c \<and> trim c = s \<and> hex_len s = Inr 32)"
proof -
  have read: "read_tool_lease_secret_file_detail hex_len (secret_file st) = Inr (Some s)"
    "read_tool_lease_secret_file_detail hex_len (secret_file st) = Inr (Some s')"
    using lease_reachable_inv [OF assms(1)] assms(2,3) unfolding lease_inv_def by blast+
  then have "s = s'" by simp
  with read(1) show ?thesis
    by (cases "secret_file st")
      (auto simp: read_tool_lease_secret_file_detail_def Let_def split: if_splits sum.splits)
qed

text \<open>Two processes find no file; the second one to publish takes over the secret of the first.\<close>

definition race_start :: "nat \<Rightarrow> load_phase" where
  "race_start = (\<lambda>_. LoadStart)"

definition race_end :: lease_world where
  "race_end = \<lparr>secret_file = FileText ''aa\<newline>'',
     loaders = race_start(0 := LoadMissing, 1 := LoadMissing, 0 := Loaded ''aa'', 1 := LoadRetry 0, 1 := Loaded ''aa'')\<rparr>"

lemma race_reachable: "lease_reachable (\<lambda>_. Inr 32) ''/h/s'' race_end"
proof -
  let ?R = "lease_reachable (\<lambda>_. Inr 32) ''/h/s''"
  have start: "load_start (\<lambda>_. Inr 32) ''/h/s'' None FileNotFound = LoadMissing"
    "load_create ''/h/s'' None ''aa'' FileNotFound = (FileText ''aa\<newline>'', Loaded ''aa'')"
    "load_create ''/h/s'' None ''bb'' (FileText ''aa\<newline>'') = (FileText ''aa\<newline>'', LoadRetry 0)"
    "load_retry (\<lambda>_. Inr 32) ''/h/s'' 0 (FileText ''aa\<newline>'') = Loaded ''aa''"
    by code_simp+
  have ok: "generated_ok (\<lambda>_. Inr 32) ''aa''" "generated_ok (\<lambda>_. Inr 32) ''bb''" by code_simp+
  let ?w = "\<lambda>f l. \<lparr>secret_file = f, loaders = l\<rparr>"
  let ?l1 = "race_start(0 := LoadMissing)" and ?f = "FileText ''aa\<newline>''"
  let ?l2 = "?l1(1 := LoadMissing)" let ?l3 = "?l2(0 := Loaded ''aa'')" let ?l4 = "?l3(1 := LoadRetry 0)"
  have "?R (?w FileNotFound race_start)" unfolding race_start_def by (rule lease_reachable.Init)
  moreover have "lease_step (\<lambda>_. Inr 32) ''/h/s'' (?w FileNotFound race_start) (?w FileNotFound ?l1)"
    using lease_step.Start [of "?w FileNotFound race_start" 0 FileNotFound "[]" "\<lambda>_. Inr 32" "''/h/s''" None] start
    by (simp add: race_start_def)
  moreover have "lease_step (\<lambda>_. Inr 32) ''/h/s'' (?w FileNotFound ?l1) (?w FileNotFound ?l2)"
    using lease_step.Start [of "?w FileNotFound ?l1" 1 FileNotFound "[]" "\<lambda>_. Inr 32" "''/h/s''" None] start
    by (simp add: race_start_def)
  moreover have "lease_step (\<lambda>_. Inr 32) ''/h/s'' (?w FileNotFound ?l2) (?w ?f ?l3)"
    using lease_step.Create [of "?w FileNotFound ?l2" 0 "\<lambda>_. Inr 32" "''aa''" "''/h/s''" None ?f "Loaded ''aa''"] start ok
    by simp
  moreover have "lease_step (\<lambda>_. Inr 32) ''/h/s'' (?w ?f ?l3) (?w ?f ?l4)"
    using lease_step.Create [of "?w ?f ?l3" 1 "\<lambda>_. Inr 32" "''bb''" "''/h/s''" None ?f "LoadRetry 0"] start ok
    by simp
  moreover have "lease_step (\<lambda>_. Inr 32) ''/h/s'' (?w ?f ?l4) race_end"
    using lease_step.Retry [of "?w ?f ?l4" 1 0 ?f "[]" "\<lambda>_. Inr 32" "''/h/s''"] start
    unfolding race_end_def by simp
  ultimately show ?thesis by (meson lease_reachable.Step)
qed

theorem lease_secret_agreement_witness:
  "loaders race_end 0 = loaders race_end 1
   \<and> (\<exists>c. secret_file race_end = FileText c \<and> trim c = ''aa'')"
proof -
  have "loaders race_end 0 = Loaded ''aa''" "loaders race_end 1 = Loaded ''aa''"
    by (simp_all add: race_end_def)
  with lease_secret_agreement [OF race_reachable this] show ?thesis by simp
qed

end
