(* ===== verification/Tool_Dispatch.thy ===== *)
theory Tool_Dispatch
  imports Tool_Routing Tool_Lease
begin

text \<open>
  The way of a tool request through \<open>crates/app/src/tools/mod.rs\<close>: the capabilities that it needs, the
  call through the kernel, and the adapter behind it, which rejects forged internal context, opens
  \<open>tool.invoke\<close> (\<open>tool_lease.rs\<close>), routes direct tools (\<open>routing.rs\<close>) and checks the policies once more
  (\<open>direct_policy_preflight.rs\<close>) before the tool itself runs.

  Parameters of the model: the catalog (names, kinds, surfaces and visibility of
  tools), the tools themselves, the search over the catalog, and the outcomes of the file
  system.  A narrowing of the runtime configuration concerns browser and web settings only; the
  narrowings that apply are handed to the tools as a list.
\<close>

section \<open>The environment\<close>

datatype tool_execution_kind = ToolCore | ToolApp

record ('w, 'n) tool_env =
  canonical_tool_name :: "string \<Rightarrow> string"
  resolve_tool_execution :: "string \<Rightarrow> (string \<times> tool_execution_kind) option"
  tool_surface_id_for_name :: "string \<Rightarrow> string option"
  is_provider_exposed_tool_name :: "string \<Rightarrow> bool"
  runtime_tool_view :: "tool_runtime_config \<Rightarrow> 'n list \<Rightarrow> string set"
  parse_narrowing :: "json \<Rightarrow> string + 'n"
  string_error :: "json \<Rightarrow> string"
  canonicalize_root :: "'w \<Rightarrow> string \<Rightarrow> string + string \<times> bool"
  tool_fs :: "'w file_system"
  lease_codec_of :: lease_codec
  lease_secret :: "'w \<Rightarrow> string + string"
  catalog_digest :: string
  unix_seconds :: "'w \<Rightarrow> u64"
  tool_search :: "tool_runtime_config \<Rightarrow> 'n list \<Rightarrow> tool_core_request \<Rightarrow> 'w \<Rightarrow> 'w \<times> (string + plane_outcome)"
  dispatch_tool :: "tool_runtime_config \<Rightarrow> 'n list \<Rightarrow> tool_core_request \<Rightarrow> 'w \<Rightarrow> 'w \<times> (string + plane_outcome)"

text \<open>The routing of \<open>routing.rs\<close> over this catalog.\<close>

abbreviation route_hidden :: "('w, 'n) tool_env \<Rightarrow> string \<Rightarrow> json \<Rightarrow> string + string" where
  "route_hidden env \<equiv> route_hidden_discoverable_tool_name (canonical_tool_name env)
     (resolve_tool_execution env) (tool_surface_id_for_name env)"

section \<open>Internal context\<close>

definition reserved_internal_tool_context_key_in_payload :: "json \<Rightarrow> string option" where
  "reserved_internal_tool_context_key_in_payload payload =
     Option.bind (json_as_object payload) reserved_internal_tool_context_key_in_map"

definition ensure_untrusted_payload :: "bool \<Rightarrow> string \<Rightarrow> json \<Rightarrow> string \<Rightarrow> string + unit" where
  "ensure_untrusted_payload trusted name payload payload_path =
     (if trusted then Inr ()
      else case reserved_internal_tool_context_key_in_payload payload of
        None \<Rightarrow> Inr ()
      | Some offending_key \<Rightarrow>
          Inl (''tool `'' @ name @ ''` '' @ payload_path @ ''.'' @ offending_key
            @ '' is reserved for trusted internal tool context; retry without that field''))"

definition take_trusted_internal_tool_context :: "json_map \<Rightarrow> json_map \<times> json_map" where
  "take_trusted_internal_tool_context body =
     (AList.delete ''_loong'' body,
      case Option.bind (map_of body ''_loong'') json_as_object of None \<Rightarrow> [] | Some m \<Rightarrow> m)"

definition merge_trusted_internal_tool_context_into_arguments ::
    "json_map \<Rightarrow> json \<Rightarrow> string + json_map" where
  "merge_trusted_internal_tool_context_into_arguments arguments internal_context =
     and_then (ok_or ''tool.invoke payload._loong must be an object'' (json_as_object internal_context))
       (\<lambda>trusted_context.
     case reserved_internal_tool_context_key_in_map arguments of
       Some offending_key \<Rightarrow>
         Inl (''tool.invoke payload.arguments.'' @ offending_key @ '' is reserved for trusted internal tool context'')
     | None \<Rightarrow> Inr (AList.update ''_loong'' (JObject trusted_context) arguments))"

definition trusted_runtime_narrowing_from_payload ::
    "('w, 'n) tool_env \<Rightarrow> bool \<Rightarrow> json \<Rightarrow> string + 'n option" where
  "trusted_runtime_narrowing_from_payload env trusted payload =
     (if \<not> trusted then Inr None
      else case Option.bind (trusted_internal_tool_context_from_payload payload)
          (\<lambda>body. map_of body ''runtime_narrowing'') of
        None \<Rightarrow> Inr None
      | Some v \<Rightarrow>
          (case parse_narrowing env v of
             Inl error \<Rightarrow> Inl (''invalid_internal_runtime_narrowing: '' @ error)
           | Inr n \<Rightarrow> Inr (Some n)))"

definition trusted_workspace_root_from_payload ::
    "('w, 'n) tool_env \<Rightarrow> 'w \<Rightarrow> bool \<Rightarrow> json \<Rightarrow> string + string option" where
  "trusted_workspace_root_from_payload env w trusted payload =
     (if \<not> trusted then Inr None
      else case Option.bind (trusted_internal_tool_context_from_payload payload)
          (\<lambda>body. map_of body ''workspace_root'') of
        None \<Rightarrow> Inr None
      | Some v \<Rightarrow>
          (case json_as_str v of
             None \<Rightarrow> Inl (''invalid_internal_workspace_root: '' @ string_error env v)
           | Some raw_workspace_root \<Rightarrow>
               let trimmed_workspace_root = trim raw_workspace_root in
               if trimmed_workspace_root = [] then
                 Inl ''invalid_internal_workspace_root: expected a non-empty path''
               else if \<not> is_absolute trimmed_workspace_root then
                 Inl ''invalid_internal_workspace_root: path must be absolute''
               else (case canonicalize_root env w trimmed_workspace_root of
                   Inl error \<Rightarrow> Inl (''invalid_internal_workspace_root: canonicalize failed: '' @ error)
                 | Inr (root, is_dir) \<Rightarrow>
                     if \<not> is_dir then Inl ''invalid_internal_workspace_root: path must be a directory''
                     else Inr (Some root))))"

section \<open>Capabilities of a request\<close>

definition tool_requires_network_egress :: "string \<Rightarrow> bool" where
  "tool_requires_network_egress name \<longleftrightarrow>
     name \<in> {''web'', ''browser'', ''http.request'', ''web.fetch'', ''web.search'', ''browser.open'', ''browser.click'',
       ''exec'', ''external_skills.fetch'', ''external_skills.source_search''}"

definition invoked_discoverable_tool_request ::
    "('w, 'n) tool_env \<Rightarrow> json \<Rightarrow> (string \<times> json) option" where
  "invoked_discoverable_tool_request env payload =
     Option.bind (map_option (canonical_tool_name env) (Option.bind (json_get payload ''tool_id'') json_as_str))
       (\<lambda>tool_id.
     if tool_id \<in> {''tool.search'', ''tool.invoke''} then None
     else
       let arguments = (case json_get payload ''arguments'' of None \<Rightarrow> payload | Some a \<Rightarrow> a);
           resolved_tool_name = (case route_hidden env tool_id arguments of Inl _ \<Rightarrow> tool_id | Inr n \<Rightarrow> n) in
       Option.bind (resolve_tool_execution env resolved_tool_name) (\<lambda>(resolved, _).
       if is_provider_exposed_tool_name env resolved then None else Some (resolved, arguments)))"

definition direct_capabilities :: "string \<Rightarrow> json \<Rightarrow> capability set" where
  "direct_capabilities name payload =
     {InvokeTool} \<union> (if tool_requires_network_egress name then {NetworkEgress} else {})
     \<union> (if name \<in> {''read'', ''file.read'', ''glob.search'', ''content.search''} then {FilesystemRead}
        else if name \<in> {''memory'', ''memory_search'', ''memory_get''} then {FilesystemRead}
        else if name \<in> {''sessions_list'', ''sessions_history'', ''session_status'', ''session_events'', ''session_wait'',
          ''session_search'', ''session_tool_policy_status''} then {MemoryRead}
        else if name \<in> {''write'', ''file.write'', ''file.edit''} then {FilesystemWrite}
        else if name \<in> {''exec'', ''bash.exec''} then {FilesystemRead, FilesystemWrite, NetworkEgress}
        else if name = ''config.import'' then
          {FilesystemRead} \<union> (if config_import_mode_requires_write_value payload then {FilesystemWrite} else {})
        else {})"

text \<open>
  The recursion of \<open>tool.invoke\<close>: it ends because an invoked tool is never exposed to the provider
  itself, which the catalog says of \<open>tool.invoke\<close>.
\<close>

partial_function (option) required_capabilities_for_tool_name_and_payload ::
    "('w, 'n) tool_env \<Rightarrow> string \<Rightarrow> json \<Rightarrow> capability set option" where
  "required_capabilities_for_tool_name_and_payload env name payload =
     (if name = ''tool.invoke'' then
        (case invoked_discoverable_tool_request env payload of
           None \<Rightarrow> Some ({InvokeTool} \<union> (if tool_requires_network_egress name then {NetworkEgress} else {}))
         | Some (invoked_name, invoked_payload) \<Rightarrow>
             required_capabilities_for_tool_name_and_payload env invoked_name invoked_payload)
      else Some (direct_capabilities name payload))"

definition required_capabilities_for_request :: "('w, 'n) tool_env \<Rightarrow> tool_core_request \<Rightarrow> capability set option" where
  "required_capabilities_for_request env request =
     required_capabilities_for_tool_name_and_payload env
       (canonical_tool_name env (tool_name request)) (tool_payload request)"

section \<open>The adapter\<close>

definition direct_policy_preflight ::
    "('w, 'n) tool_env \<Rightarrow> 'w \<Rightarrow> tool_runtime_config \<Rightarrow> tool_core_request \<Rightarrow> string + unit" where
  "direct_policy_preflight env w config request =
     (case json_as_object (tool_payload request) of
        None \<Rightarrow> Inr ()
      | Some payload \<Rightarrow>
          let name = canonical_tool_name env (tool_name request) in
          if name = ''shell.exec'' then authorize_direct_shell_payload config payload
          else if name \<in> {''file.read'', ''file.write'', ''file.edit'', ''config.import''} then
            authorize_direct_file_payload (tool_fs env) (canonical_tool_name env) w config name payload
          else Inr ())"

text \<open>The tool runs, under its timeout if it has one, only after the preflight.\<close>

definition execute_discoverable_tool_core_with_config ::
    "('w, 'n) tool_env \<Rightarrow> tool_runtime_config \<Rightarrow> 'n list \<Rightarrow> tool_core_request \<Rightarrow> 'w
       \<Rightarrow> 'w \<times> (string + plane_outcome)" where
  "execute_discoverable_tool_core_with_config env config narrowings request w =
     (let request = normalize_shell_request_for_execution (canonical_tool_name env) request in
      case direct_policy_preflight env w config request of
        Inl e \<Rightarrow> (w, Inl e)
      | Inr _ \<Rightarrow> dispatch_tool env config narrowings request w)"

definition execute_direct_tool_core_with_config ::
    "('w, 'n) tool_env \<Rightarrow> tool_runtime_config \<Rightarrow> 'n list \<Rightarrow> tool_core_request \<Rightarrow> 'w
       \<Rightarrow> 'w \<times> (string + plane_outcome)" where
  "execute_direct_tool_core_with_config env config narrowings request w =
     (case route_direct_tool_request (runtime_tool_view env config narrowings) request of
        Inl e \<Rightarrow> (w, Inl e)
      | Inr routed_request \<Rightarrow> execute_discoverable_tool_core_with_config env config narrowings routed_request w)"

text \<open>The arguments of \<open>tool.invoke\<close>, with the internal context of the outer payload merged in.\<close>

definition invoke_arguments :: "json_map \<Rightarrow> string + json_map" where
  "invoke_arguments payload =
     and_then (ok_or ''tool.invoke payload.arguments must be an object''
         (json_as_object (case map_of payload ''arguments'' of None \<Rightarrow> JObject [] | Some a \<Rightarrow> a)))
       (\<lambda>arguments.
     case map_of payload ''_loong'' of
       None \<Rightarrow> Inr arguments
     | Some internal_context \<Rightarrow> merge_trusted_internal_tool_context_into_arguments arguments internal_context)"

definition hidden_facades :: "string list" where
  "hidden_facades = [''agent'', ''skills'', ''channel'']"

definition resolve_tool_invoke_request ::
    "('w, 'n) tool_env \<Rightarrow> 'w \<Rightarrow> tool_core_request
       \<Rightarrow> string + (string \<times> tool_execution_kind) \<times> tool_core_request" where
  "resolve_tool_invoke_request env w request =
     (if canonical_tool_name env (tool_name request) \<noteq> ''tool.invoke'' then
        Inl (''tool_invoke_required: expected `tool.invoke`, got `'' @ tool_name request @ ''`'')
      else
        and_then (ok_or ''tool.invoke payload must be an object'' (json_as_object (tool_payload request))) (\<lambda>payload.
        and_then (ok_or ''tool.invoke requires payload.tool_id''
            (map_option (canonical_tool_name env) (field_str payload ''tool_id''))) (\<lambda>tool_id.
        and_then (ok_or ''tool.invoke requires payload.lease'' (field_str payload ''lease'')) (\<lambda>lease.
        and_then (invoke_arguments payload) (\<lambda>arguments.
        let routed_hidden_tool_name = route_hidden env tool_id (JObject arguments) in
        and_then (validate_tool_lease (lease_codec_of env) (lease_secret env w) (catalog_digest env)
            (unix_seconds env w) tool_id lease payload) (\<lambda>_.
        let arguments = (if tool_id \<in> set hidden_facades then AList.delete ''operation'' arguments else arguments);
            resolved_tool_name = (case routed_hidden_tool_name of Inl _ \<Rightarrow> tool_id | Inr n \<Rightarrow> n) in
        and_then (ok_or (''tool_not_found: unknown tool `'' @ resolved_tool_name @ ''`'')
            (resolve_tool_execution env resolved_tool_name)) (\<lambda>resolved.
        if is_provider_exposed_tool_name env (fst resolved) then
          Inl (''tool_not_provider_exposed: '' @ fst resolved @ '' must be called directly as a core tool'')
        else Inr (resolved, \<lparr>tool_name = fst resolved, tool_payload = JObject arguments\<rparr>))))))))"

definition execute_tool_invoke_tool_with_config ::
    "('w, 'n) tool_env \<Rightarrow> bool \<Rightarrow> tool_runtime_config \<Rightarrow> 'n list \<Rightarrow> tool_core_request \<Rightarrow> 'w
       \<Rightarrow> 'w \<times> (string + plane_outcome)" where
  "execute_tool_invoke_tool_with_config env trusted config narrowings request w =
     (let inner_arguments = (case json_get (tool_payload request) ''arguments'' of None \<Rightarrow> JNull | Some a \<Rightarrow> a) in
      case and_then (ensure_untrusted_payload trusted (tool_name request) inner_arguments ''payload.arguments'')
          (\<lambda>_. resolve_tool_invoke_request env w request) of
        Inl e \<Rightarrow> (w, Inl e)
      | Inr ((name, kind), effective_request) \<Rightarrow>
          (case kind of
             ToolCore \<Rightarrow> execute_discoverable_tool_core_with_config env config narrowings effective_request w
           | ToolApp \<Rightarrow> (w, Inl (''tool_requires_app_dispatcher: '' @ name))))"

text \<open>
  The entry of the adapter.  The internal context of a trusted payload may move the file root and
  narrow the configuration; logging does not matter here.
\<close>

definition execute_tool_core_with_config ::
    "('w, 'n) tool_env \<Rightarrow> bool \<Rightarrow> tool_runtime_config \<Rightarrow> tool_core_request \<Rightarrow> 'w
       \<Rightarrow> 'w \<times> (string + plane_outcome)" where
  "execute_tool_core_with_config env trusted config request w =
     (let canonical_name = canonical_tool_name env (tool_name request);
          payload = tool_payload request in
      case trusted_workspace_root_from_payload env w trusted payload of
        Inl e \<Rightarrow> (w, Inl e)
      | Inr workspace_root \<Rightarrow>
     (case trusted_runtime_narrowing_from_payload env trusted payload of
        Inl e \<Rightarrow> (w, Inl e)
      | Inr runtime_narrowing \<Rightarrow>
          let config = (case workspace_root of None \<Rightarrow> config | Some root \<Rightarrow> config\<lparr>config_file_root := Some root\<rparr>);
              narrowings = (case runtime_narrowing of None \<Rightarrow> [] | Some n \<Rightarrow> [n]) in
     (case ensure_untrusted_payload trusted (tool_name request) payload ''payload'' of
        Inl e \<Rightarrow> (w, Inl e)
      | Inr _ \<Rightarrow>
          let request = normalize_shell_request_for_execution (canonical_tool_name env)
                \<lparr>tool_name = canonical_name, tool_payload = payload\<rparr> in
     (case trusted_runtime_narrowing_from_payload env trusted (tool_payload request) of
        Inl e \<Rightarrow> (w, Inl e)
      | Inr again \<Rightarrow>
          let narrowings = narrowings @ (case again of None \<Rightarrow> [] | Some n \<Rightarrow> [n]) in
          if canonical_name = ''tool.search'' then tool_search env config narrowings request w
          else if canonical_name = ''tool.invoke'' then
            execute_tool_invoke_tool_with_config env trusted config narrowings request w
          else if canonical_name \<in> {''read'', ''write'', ''exec'', ''web'', ''browser'', ''memory''} then
            execute_direct_tool_core_with_config env config narrowings request w
          else execute_discoverable_tool_core_with_config env config narrowings request w))))"

section \<open>What reaches the tools\<close>

text \<open>
  The requests that may reach a tool: a shell request names an admitted command, on the strength of
  the configured lists alone, and a file request only paths that do not leave the root.
\<close>

definition tool_admitted ::
    "('w, 'n) tool_env \<Rightarrow> 'w \<Rightarrow> tool_runtime_config \<Rightarrow> tool_core_request \<Rightarrow> bool" where
  "tool_admitted env w config request =
     (case json_as_object (tool_payload request) of
        None \<Rightarrow> True
      | Some m \<Rightarrow>
          let name = canonical_tool_name env (tool_name request) in
          (if name = ''shell.exec'' then
             (case field_str m ''command'' of
                None \<Rightarrow> True
              | Some c \<Rightarrow> trim c = [] \<or> bare_command (trim c) \<and> trim c \<notin> shell_deny config
                  \<and> (trim c \<in> shell_allow config \<or> shell_default_mode config = ShellAllow))
           else if name \<in> {''file.read'', ''file.write'', ''file.edit'', ''config.import''} then
             config_file_root config = None
             \<or> list_all (\<lambda>raw. \<not> path_escapes_root (tool_fs env) w
                   (file_policy_new (tool_fs env) w (config_file_root config)) raw)
                 (raw_paths_for_request (canonical_tool_name env) name m)
           else True))"

definition no_context :: "json \<Rightarrow> bool" where
  "no_context v \<longleftrightarrow> reserved_internal_tool_context_key_in_payload v = None"

lemma no_context_object [simp]: "no_context (JObject m) \<longleftrightarrow> map_of m ''_loong'' = None"
  by (simp add: no_context_def reserved_internal_tool_context_key_in_payload_def
      reserved_internal_tool_context_key_in_map_def)

lemma no_context_other: "json_as_object v = None \<Longrightarrow> no_context v"
  by (simp add: no_context_def reserved_internal_tool_context_key_in_payload_def)

lemma ensure_untrusted_Inr: "ensure_untrusted_payload False name v path = Inr u \<longleftrightarrow> no_context v"
  by (auto simp: ensure_untrusted_payload_def no_context_def split: option.splits)

lemma no_approval: "map_of m ''_loong'' = None \<Longrightarrow> \<not> shell_exec_matches_trusted_internal_approval m key"
  by (simp add: shell_exec_matches_trusted_internal_approval_def trusted_internal_tool_context_from_payload_def
      reserved_internal_tool_context_key_in_map_def)

lemma normalize_object_keeps_context: "no_context (normalize_shell_payload_object v) \<longleftrightarrow> no_context v"
proof (cases v)
  case (JObject m)
  show ?thesis
  proof (cases "field_str m ''command''")
    case None
    with JObject show ?thesis by (simp add: Let_def)
  next
    case (Some c)
    then show ?thesis
      by (cases rule: normalize_shell_object_cases) (simp_all add: JObject del: normalize_shell_payload_object.simps)
  qed
qed simp_all

lemma normalize_request_keeps_context:
  "no_context (normalize_shell_payload_for_request canonical name v) \<longleftrightarrow> no_context v"
proof -
  have "no_context (normalize_shell_invoke_payload canonical v) \<longleftrightarrow> no_context v"
    by (cases v) (auto simp: normalize_shell_invoke_payload_def Let_def update_conv' delete_conv' split: option.splits)
  then show ?thesis by (simp add: normalize_shell_payload_for_request_def normalize_object_keeps_context)
qed

lemma preflight_admits:
  assumes "direct_policy_preflight env w config request = Inr ()" "no_context (tool_payload request)"
  shows "tool_admitted env w config request"
proof (cases "json_as_object (tool_payload request)")
  case None
  then show ?thesis by (simp add: tool_admitted_def)
next
  case (Some m)
  then have m: "map_of m ''_loong'' = None" using assms(2) by (simp add: json_as_object_Some)
  let ?name = "canonical_tool_name env (tool_name request)"
  show ?thesis
  proof (cases "?name = ''shell.exec''")
    case True
    with Some assms(1) have "authorize_shell_payload (tool_policy_from_config config) ''shell.exec'' m = Inr ()"
      by (simp add: direct_policy_preflight_def authorize_direct_shell_payload_def map_err_Inr)
    with no_approval [OF m] True Some show ?thesis
      by (auto simp: tool_admitted_def authorize_shell_payload_Inr command_admitted_def tool_policy_from_config_def
          split: option.splits)
  next
    case False
    with Some assms(1) show ?thesis
      by (auto simp: direct_policy_preflight_def authorize_direct_file_payload_def map_err_Inr Let_def
          authorize_file_payload_Inr tool_admitted_def file_policy_new_def list_all_iff split: if_splits)
  qed
qed

text \<open>A dispatcher that does something else on requests that are not admitted.\<close>

text \<open>The same environment with other tools behind every request that fails a test.\<close>

definition guard_with ::
    "('w \<Rightarrow> tool_runtime_config \<Rightarrow> tool_core_request \<Rightarrow> bool) \<Rightarrow> ('w, 'n) tool_env
     \<Rightarrow> (tool_runtime_config \<Rightarrow> 'n list \<Rightarrow> tool_core_request \<Rightarrow> 'w \<Rightarrow> 'w \<times> (string + plane_outcome))
     \<Rightarrow> ('w, 'n) tool_env" where
  "guard_with test env other = env\<lparr>dispatch_tool := (\<lambda>config ns request w.
     if test w config request then dispatch_tool env config ns request w
     else other config ns request w)\<rparr>"

abbreviation guarded_dispatch ::
    "('w, 'n) tool_env
     \<Rightarrow> (tool_runtime_config \<Rightarrow> 'n list \<Rightarrow> tool_core_request \<Rightarrow> 'w \<Rightarrow> 'w \<times> (string + plane_outcome))
     \<Rightarrow> ('w, 'n) tool_env" where
  "guarded_dispatch env other \<equiv> guard_with (tool_admitted env) env other"

lemma guarded_selectors:
  "canonical_tool_name (guard_with test env other) = canonical_tool_name env"
  "tool_surface_id_for_name (guard_with test env other) = tool_surface_id_for_name env"
  "resolve_tool_execution (guard_with test env other) = resolve_tool_execution env"
  "is_provider_exposed_tool_name (guard_with test env other) = is_provider_exposed_tool_name env"
  "runtime_tool_view (guard_with test env other) = runtime_tool_view env"
  "parse_narrowing (guard_with test env other) = parse_narrowing env"
  "string_error (guard_with test env other) = string_error env"
  "canonicalize_root (guard_with test env other) = canonicalize_root env"
  "tool_fs (guard_with test env other) = tool_fs env"
  "lease_codec_of (guard_with test env other) = lease_codec_of env"
  "lease_secret (guard_with test env other) = lease_secret env"
  "catalog_digest (guard_with test env other) = catalog_digest env"
  "unix_seconds (guard_with test env other) = unix_seconds env"
  "tool_search (guard_with test env other) = tool_search env"
  by (simp_all add: guard_with_def)

lemma guarded_fields [simp]:
  "canonical_tool_name (guard_with test env other) = canonical_tool_name env"
  "trusted_runtime_narrowing_from_payload (guard_with test env other) t v = trusted_runtime_narrowing_from_payload env t v"
  "trusted_workspace_root_from_payload (guard_with test env other) w t v = trusted_workspace_root_from_payload env w t v"
  "direct_policy_preflight (guard_with test env other) w c q = direct_policy_preflight env w c q"
  "runtime_tool_view (guard_with test env other) = runtime_tool_view env"
  "resolve_tool_invoke_request (guard_with test env other) w q = resolve_tool_invoke_request env w q"
  "tool_search (guard_with test env other) = tool_search env"
  unfolding trusted_runtime_narrowing_from_payload_def trusted_workspace_root_from_payload_def
    direct_policy_preflight_def resolve_tool_invoke_request_def guarded_selectors
  by (rule refl)+

lemma guarded_dispatch_admitted:
  "test w config request \<Longrightarrow>
     dispatch_tool (guard_with test env other) config ns request w = dispatch_tool env config ns request w"
  by (simp add: guard_with_def)

lemma guarded_discoverable:
  assumes "no_context (tool_payload request)"
  shows "execute_discoverable_tool_core_with_config (guarded_dispatch env other) config ns request w
    = execute_discoverable_tool_core_with_config env config ns request w"
proof -
  let ?request = "normalize_shell_request_for_execution (canonical_tool_name env) request"
  have "no_context (tool_payload ?request)"
    using assms by (simp add: normalize_shell_request_for_execution_def normalize_request_keeps_context)
  then have "tool_admitted env w config ?request" if "direct_policy_preflight env w config ?request = Inr ()"
    by (rule preflight_admits [OF that])
  then show ?thesis
    by (auto simp: execute_discoverable_tool_core_with_config_def Let_def guarded_dispatch_admitted split: sum.split)
qed

lemma invoke_arguments_no_context:
  assumes "map_of payload ''_loong'' = None" "invoke_arguments payload = Inr arguments"
    and "no_context (case map_of payload ''arguments'' of None \<Rightarrow> JNull | Some a \<Rightarrow> a)"
  shows "map_of arguments ''_loong'' = None"
  using assms by (cases "map_of payload ''arguments''")
    (auto simp: invoke_arguments_def ok_or_Inr and_then_Inr json_as_object_Some)

lemma resolved_no_context:
  assumes "no_context (tool_payload request)"
    and "no_context (case json_get (tool_payload request) ''arguments'' of None \<Rightarrow> JNull | Some a \<Rightarrow> a)"
    and "resolve_tool_invoke_request env w request = Inr (resolved, effective)"
  shows "no_context (tool_payload effective)"
proof -
  obtain payload arguments where p: "tool_payload request = JObject payload" "invoke_arguments payload = Inr arguments"
      "tool_payload effective = JObject arguments \<or> tool_payload effective = JObject (AList.delete ''operation'' arguments)"
    using assms(3)
    by (auto simp: resolve_tool_invoke_request_def and_then_Inr ok_or_Inr json_as_object_Some Let_def split: if_splits)
  have "map_of arguments ''_loong'' = None"
    using assms(1,2) p(1,2) by (intro invoke_arguments_no_context [OF _ p(2)]) simp_all
  with p(3) show ?thesis by (auto simp: delete_conv')
qed

lemma guarded_invoke:
  assumes "no_context (tool_payload request)"
  shows "execute_tool_invoke_tool_with_config (guarded_dispatch env other) False config ns request w
    = execute_tool_invoke_tool_with_config env False config ns request w"
proof -
  let ?inner = "case json_get (tool_payload request) ''arguments'' of None \<Rightarrow> JNull | Some a \<Rightarrow> a"
  have "execute_discoverable_tool_core_with_config (guarded_dispatch env other) config ns effective w
      = execute_discoverable_tool_core_with_config env config ns effective w"
    if "and_then (ensure_untrusted_payload False (tool_name request) ?inner ''payload.arguments'')
      (\<lambda>_. resolve_tool_invoke_request env w request) = Inr (resolved, effective)" for resolved effective
  proof -
    from that have "no_context ?inner" "resolve_tool_invoke_request env w request = Inr (resolved, effective)"
      by (auto simp: and_then_Inr ensure_untrusted_Inr)
    then show ?thesis by (intro guarded_discoverable resolved_no_context [OF assms])
  qed
  then show ?thesis
    by (auto simp: execute_tool_invoke_tool_with_config_def Let_def split: sum.split tool_execution_kind.split)
qed

lemma route_keeps_payload:
  "route_direct_tool_request view request = Inr routed \<Longrightarrow> tool_payload routed = tool_payload request"
  by (auto simp: route_direct_tool_request_def and_then_Inr split: if_splits)

text \<open>
  C5: an untrusted request cannot reach a tool past the policies.  Whatever name it comes under (the
  tool itself, a facade, \<open>tool.invoke\<close>), whatever its payload claims, the adapter behaves the same
  when the tools are replaced by ones that do anything else on requests that the configuration does
  not admit: such a request never reaches them.
\<close>

theorem tools_see_only_admitted_requests:
  "execute_tool_core_with_config (guarded_dispatch env other) False config request w
     = execute_tool_core_with_config env False config request w"
proof (cases "no_context (tool_payload request)")
  case False
  then have "ensure_untrusted_payload False (tool_name request) (tool_payload request) ''payload'' \<noteq> Inr ()"
    by (simp add: ensure_untrusted_Inr)
  then show ?thesis
    by (simp add: execute_tool_core_with_config_def trusted_workspace_root_from_payload_def
        trusted_runtime_narrowing_from_payload_def Let_def split: sum.split)
next
  case True
  define q where "q = normalize_shell_request_for_execution (canonical_tool_name env)
      \<lparr>tool_name = canonical_tool_name env (tool_name request), tool_payload = tool_payload request\<rparr>"
  have clean: "no_context (tool_payload q)"
    using True by (simp add: q_def normalize_shell_request_for_execution_def normalize_request_keeps_context)
  have "execute_direct_tool_core_with_config (guarded_dispatch env other) config ns q w
      = execute_direct_tool_core_with_config env config ns q w" for ns
    using clean by (auto simp: execute_direct_tool_core_with_config_def guarded_discoverable
        dest!: route_keeps_payload split: sum.split)
  moreover have "ensure_untrusted_payload False (tool_name request) (tool_payload request) ''payload'' = Inr ()"
    using True by (simp add: ensure_untrusted_Inr)
  ultimately show ?thesis using clean
    unfolding execute_tool_core_with_config_def Let_def guarded_fields q_def [symmetric]
    by (simp add: trusted_workspace_root_from_payload_def trusted_runtime_narrowing_from_payload_def
        guarded_discoverable guarded_invoke)
qed

end
