(* ===== verification/Tool_Guarantees.thy ===== *)
theory Tool_Guarantees
  imports Tool_Dispatch
begin

text \<open>
  Tool requests through the kernel: the adapter of the tools (\<open>kernel_adapter.rs\<close>) and the functions of
  \<open>crates/app/src/tools/mod.rs\<close> that call \<open>execute_tool_core\<close> of the kernel, and what the registered
  policy extensions guarantee for calls that complete.  Whether a payload is trusted is a task-local
  flag of the source; it is an argument of the adapter here.
\<close>

section \<open>Operations\<close>

definition mvp_tool_adapter ::
    "('w, 'n) tool_env \<Rightarrow> bool \<Rightarrow> tool_runtime_config
       \<Rightarrow> ('w, tool_core_request, plane_outcome, tool_plane_error) core_adapter" where
  "mvp_tool_adapter env trusted config =
     \<lparr>core_adapter_name = ''mvp-tools'',
      core_adapter_run = (\<lambda>w request.
        case execute_tool_core_with_config env trusted config request w of
          (w', r) \<Rightarrow> (w', map_err (\<lambda>e. Error (ToolExecution e)) r))\<rparr>"

text \<open>\<open>None\<close> would be an endless chain of invocations.\<close>

definition execute_kernel_tool_request ::
    "('w, 'n) tool_env \<Rightarrow> capability_token \<Rightarrow> tool_core_request \<Rightarrow> ('p, 'a, 'w) loong_kernel
       \<Rightarrow> ('p, 'a, 'w, plane_outcome) kernel_result option" where
  "execute_kernel_tool_request env token request k =
     map_option (\<lambda>caps. execute_tool_core (token_pack_id token) token caps None request k)
       (required_capabilities_for_request env request)"

definition execute_tool ::
    "('w, 'n) tool_env \<Rightarrow> capability_token \<Rightarrow> tool_core_request \<Rightarrow> ('p, 'a, 'w) loong_kernel
       \<Rightarrow> (('p, 'a, 'w) loong_kernel \<times> (string failure + plane_outcome)) option" where
  "execute_tool env token request k =
     (let request = prepare_kernel_tool_request (canonical_tool_name env) request
            (allowed_capabilities token) (Some (token_id token)) None None in
      map_option (\<lambda>(k, r). (k, map_err (map_failure kernel_error_display) r))
        (execute_kernel_tool_request env token request k))"

section \<open>Capabilities\<close>

lemma invoked_not_exposed:
  "invoked_discoverable_tool_request env payload = Some (name, p) \<Longrightarrow> \<not> is_provider_exposed_tool_name env name"
  by (auto simp: invoked_discoverable_tool_request_def Let_def bind_eq_Some_conv split: if_splits)

lemma required_capabilities_plain [simp]:
  "name \<noteq> ''tool.invoke'' \<Longrightarrow>
     required_capabilities_for_tool_name_and_payload env name payload = Some (direct_capabilities name payload)"
  by (simp add: required_capabilities_for_tool_name_and_payload.simps)

lemma required_capabilities_invoke:
  assumes "is_provider_exposed_tool_name env ''tool.invoke''"
  shows "required_capabilities_for_tool_name_and_payload env ''tool.invoke'' payload =
    Some (case invoked_discoverable_tool_request env payload of
        None \<Rightarrow> {InvokeTool}
      | Some (name, p) \<Rightarrow> direct_capabilities name p)"
proof (cases "invoked_discoverable_tool_request env payload")
  case None
  then show ?thesis
    by (simp add: required_capabilities_for_tool_name_and_payload.simps [of env "''tool.invoke''"]
        tool_requires_network_egress_def)
next
  case (Some np)
  obtain name p where np: "np = (name, p)" by (cases np)
  with Some invoked_not_exposed [of env payload name p] assms have "name \<noteq> ''tool.invoke''" by auto
  with Some np show ?thesis
    by (simp add: required_capabilities_for_tool_name_and_payload.simps [of env "''tool.invoke''"])
qed

lemma invoke_tool_required:
  assumes "is_provider_exposed_tool_name env ''tool.invoke''"
  shows "\<exists>caps. required_capabilities_for_request env request = Some caps \<and> InvokeTool \<in> caps"
  using required_capabilities_invoke [OF assms]
  by (cases "canonical_tool_name env (tool_name request) = ''tool.invoke''")
    (auto simp: required_capabilities_for_request_def direct_capabilities_def split: option.splits prod.splits)

section \<open>Completed calls\<close>

lemma execute_tool_completed:
  assumes "execute_tool env token request k = Some (k', Inr outcome)"
  obtains caps where
    "required_capabilities_for_request env (prepare_kernel_tool_request (canonical_tool_name env) request
       (allowed_capabilities token) (Some (token_id token)) None None) = Some caps"
    "permits k (token_pack_id token) token (CallToolCore caps None
       (prepare_kernel_tool_request (canonical_tool_name env) request
         (allowed_capabilities token) (Some (token_id token)) None None))"
proof -
  let ?q = "prepare_kernel_tool_request (canonical_tool_name env) request
       (allowed_capabilities token) (Some (token_id token)) None None"
  from assms obtain caps k1 r where caps: "required_capabilities_for_request env ?q = Some caps"
    and run: "execute_tool_core (token_pack_id token) token caps None ?q k = (k1, r)"
      "map_err (map_failure kernel_error_display) r = Inr outcome"
    by (auto simp: execute_tool_def execute_kernel_tool_request_def Let_def)
  from run(2) have "r = Inr outcome" by (simp add: map_err_Inr)
  with run(1) have "run_call (token_pack_id token) token (CallToolCore caps None ?q) k
      = (k1, Inr (PlaneResult outcome))"
    by (simp add: returning_def)
  from run_call_Inr_permits [OF this] caps that show thesis by blast
qed

text \<open>The arguments of a shell request, made under its own name or through \<open>tool.invoke\<close>.\<close>

definition shell_arguments :: "(string \<Rightarrow> string) \<Rightarrow> tool_core_request \<Rightarrow> json_map option" where
  "shell_arguments canonical request =
     (if canonical (tool_name request) = ''shell.exec'' then json_as_object (tool_payload request)
      else if canonical (tool_name request) = ''tool.invoke'' then
        Option.bind (json_as_object (tool_payload request)) (\<lambda>outer.
        Option.bind (field_str outer ''tool_id'') (\<lambda>tool_id.
        if canonical tool_id = ''shell.exec'' then Option.bind (map_of outer ''arguments'') json_as_object else None))
      else None)"

lemma effective_prepared:
  assumes "shell_arguments canonical request = Some m"
    and q_def: "q = prepare_kernel_tool_request canonical request granted token session turn"
  shows "effective_shell_request canonical (tool_policy_params (tool_name q) (tool_payload q))
    = (''shell.exec'', Some (normalize_shell_payload_object (JObject m)))"
proof (cases "canonical (tool_name request) = ''shell.exec''")
  case True
  with assms show ?thesis
    by (simp add: prepare_kernel_tool_request_def normalize_shell_request_for_execution_def
        normalize_shell_payload_for_request_def effective_shell_request_def tool_policy_params_def
        shell_arguments_def json_as_object_Some Let_def del: normalize_shell_payload_object.simps)
next
  case False
  with assms(1) obtain outer tool where invoke: "canonical (tool_name request) = ''tool.invoke''"
      "tool_payload request = JObject outer" "map_of outer ''tool_id'' = Some (JString tool)"
      "canonical tool = ''shell.exec''" "map_of outer ''arguments'' = Some (JObject m)"
    by (auto simp: shell_arguments_def bind_eq_Some_conv json_as_object_Some field_str_Some split: if_splits)
  then show ?thesis
    by (auto simp: q_def prepare_kernel_tool_request_def normalize_shell_request_for_execution_def
        normalize_shell_payload_for_request_def normalize_shell_invoke_payload_def field_str_def
        effective_shell_request_def tool_policy_params_def inject_tool_lease_binding_def insert_opt_def
        Let_def update_conv' delete_conv' simp del: normalize_shell_payload_object.simps split: option.split)
qed

text \<open>
  C4: shell commands that run are admitted.  When a shell request, made directly or through
  \<open>tool.invoke\<close>, completes on a kernel with the tool policy registered, the first word of its command
  is a bare lower-case name that the policy does not deny and that it allows, by its list, its default
  or the approval in the trusted context; a command of several words holds no quoting, substitution
  or chaining characters; and the token may invoke tools.
\<close>

theorem completed_shell_command_admitted:
  assumes "engine k = static_engine" and "is_provider_exposed_tool_name env ''tool.invoke''"
    and "tool_policy (canonical_tool_name env) ext \<in> set (policy_extensions k)"
    and "shell_arguments (canonical_tool_name env) request = Some m"
    and "field_str m ''command'' = Some command" and "trim command \<noteq> []"
    and "execute_tool env token request k = Some (k', Inr outcome)"
  shows "\<exists>w ws. split_whitespace command = w # ws \<and> command_admitted ext m w
    \<and> (ws = [] \<or> set (trim command) \<inter> set risky_shell_chars = {})
    \<and> InvokeTool \<in> allowed_capabilities token"
proof -
  let ?q = "prepare_kernel_tool_request (canonical_tool_name env) request
       (allowed_capabilities token) (Some (token_id token)) None None"
  obtain caps where caps: "required_capabilities_for_request env ?q = Some caps"
    and permits: "permits k (token_pack_id token) token (CallToolCore caps None ?q)"
    using execute_tool_completed [OF assms(7)] .
  from permits obtain pack where auth: "authorize (policy k) token (pack_id pack) (clock k (world k)) caps = Inr ()"
      and ext: "\<forall>ext \<in> set (policy_extensions k).
        authorize_extension ext (world k) (call_context k pack token (CallToolCore caps None ?q)) = Inr ()"
    using assms(1) by (auto simp: permits_def split: option.splits)
  from bspec [OF ext assms(3)]
  have policy: "tool_policy_authorize (canonical_tool_name env) ext
      (call_context k pack token (CallToolCore caps None ?q)) = Inr ()"
    by (simp add: tool_policy_def)
  obtain m' where m': "normalize_shell_payload_object (JObject m) = JObject m'"
    using assms(5) by (cases rule: normalize_shell_object_cases) auto
  from policy have "authorize_shell_payload ext ''shell.exec'' m' = Inr ()"
    using effective_prepared [OF assms(4) refl] m' by (simp add: tool_policy_authorize_def call_context_def)
  from prepared_shell_admitted [OF assms(5,6) m' this] obtain w ws where
    "split_whitespace command = w # ws" "command_admitted ext m w"
    "ws = [] \<or> set (trim command) \<inter> set risky_shell_chars = {}"
    by blast
  moreover have "InvokeTool \<in> allowed_capabilities token"
    using auth invoke_tool_required [OF assms(2), of ?q] caps by (auto simp: authorize_Inr_iff)
  ultimately show ?thesis by blast
qed


section \<open>A kernel with both policies\<close>

definition sample_config :: tool_runtime_config where
  "sample_config = \<lparr>shell_allow = {''git''}, shell_deny = {''rm''}, shell_default_mode = ShellDeny,
     config_file_root = Some ''/box''\<rparr>"

definition sample_tool_env :: "(unit, unit) tool_env" where
  "sample_tool_env = \<lparr>canonical_tool_name = id,
     resolve_tool_execution = (\<lambda>n. Some (n, ToolCore)), tool_surface_id_for_name = (\<lambda>_. None),
     is_provider_exposed_tool_name = (\<lambda>n. n = ''tool.invoke''),
     runtime_tool_view = (\<lambda>_ _. {''file.read'', ''shell.exec''}), parse_narrowing = (\<lambda>_. Inl []), string_error = (\<lambda>_. []),
     canonicalize_root = (\<lambda>_ p. Inr (p, True)), tool_fs = sample_fs, lease_codec_of = sample_codec,
     lease_secret = (\<lambda>_. Inr ''k''), catalog_digest = ''cat'', unix_seconds = (\<lambda>_. 0),
     tool_search = (\<lambda>_ _ _ w. (w, Inr sample_outcome)), dispatch_tool = (\<lambda>_ _ _ w. (w, Inr sample_outcome))\<rparr>"

definition tool_pack :: vertical_pack_manifest where
  "tool_pack = sample_pack\<lparr>granted_capabilities := {InvokeTool, FilesystemRead}\<rparr>"

definition tool_token :: capability_token where
  "tool_token = (sample_token 20)\<lparr>allowed_capabilities := {InvokeTool, FilesystemRead}\<rparr>"

definition tool_kernel :: "(static_policy_engine, in_memory_audit_sink, unit) loong_kernel" where
  "tool_kernel = (new_with_in_memory_audit static_engine static_default (\<lambda>_. 10) ())
     \<lparr>packs := [(''sales'', tool_pack)],
      policy_extensions := [tool_policy id (tool_policy_from_config sample_config),
        file_policy sample_fs id sample_file_policy],
      tool_plane := plane_register_core (mvp_tool_adapter sample_tool_env False sample_config) plane_new\<rparr>"

definition sample_shell_request :: tool_core_request where
  "sample_shell_request = \<lparr>tool_name = ''shell.exec'', tool_payload = JObject [(''command'', JString ''git status'')]\<rparr>"


lemma tool_kernel_simps [simp]:
  "bt_get (packs tool_kernel) ''sales'' = Some tool_pack" "engine tool_kernel = static_engine"
  "policy tool_kernel = static_default" "world tool_kernel = ()" "clock tool_kernel w = 10"
  "policy_extensions tool_kernel = [tool_policy id (tool_policy_from_config sample_config),
     file_policy sample_fs id sample_file_policy]"
  "sink tool_kernel = in_memory_record" "audit tool_kernel = in_memory_default" "event_seq tool_kernel = 0"
  "pack_id tool_pack = ''sales''" "granted_capabilities tool_pack = {InvokeTool, FilesystemRead}"
  "token_pack_id tool_token = ''sales''" "allowed_capabilities tool_token = {InvokeTool, FilesystemRead}"
  "token_id tool_token = ''tok-1''"
  by (simp_all add: tool_kernel_def new_with_in_memory_audit_def with_runtime_def bt_get_def
      tool_pack_def sample_pack_def tool_token_def sample_token_def)

lemma tool_plane_runs:
  "tool_execute_core (tool_plane tool_kernel) () None q =
     (case execute_tool_core_with_config sample_tool_env False sample_config q () of
        (w', r) \<Rightarrow> (w', map_err (\<lambda>e. Error (ToolExecution e)) r))"
  by (simp add: tool_kernel_def tool_execute_core_def plane_execute_core_def plane_register_core_def plane_new_def
      resolve_core_def mvp_tool_adapter_def Let_def bt_empty_ok)

lemma tool_kernel_completes:
  assumes "required_capabilities_for_request sample_tool_env q = Some caps" "caps \<subseteq> {InvokeTool, FilesystemRead}"
    and "prepare_kernel_tool_request id request {InvokeTool, FilesystemRead} (Some ''tok-1'') None None = q"
    and "\<And>ctx. ctx_request_parameters ctx = Some (tool_policy_params (tool_name q) (tool_payload q)) \<Longrightarrow>
      ctx_token ctx = tool_token \<Longrightarrow>
      tool_policy_authorize id (tool_policy_from_config sample_config) ctx = Inr ()
      \<and> file_policy_authorize sample_fs id sample_file_policy () ctx = Inr ()"
    and "execute_tool_core_with_config sample_tool_env False sample_config q () = ((), Inr sample_outcome)"
  shows "\<exists>k'. execute_tool sample_tool_env tool_token request tool_kernel = Some (k', Inr sample_outcome)"
proof -
  let ?c = "CallToolCore caps None q"
  have "authorize static_default tool_token ''sales'' 10 caps = Inr ()"
    using assms(2) by (simp add: authorize_Inr_iff static_default_def) (simp add: tool_token_def sample_token_def)
  moreover have "within_pack tool_pack ?c" using assms(2) by (simp add: within_pack_def)
  ultimately have permits: "permits tool_kernel ''sales'' tool_token ?c"
    using assms(4) [of "call_context tool_kernel tool_pack tool_token ?c"]
    by (simp add: permits_def tool_policy_def file_policy_def call_context_def)
  have "\<exists>k'. run_call ''sales'' tool_token ?c tool_kernel = (k', Inr (PlaneResult sample_outcome))"
    unfolding run_call_governed governed_permitted [OF permits tool_kernel_simps(1)]
    by (simp add: run_adapter_def tool_plane_runs assms(5) returning_def emit_eq in_memory_record_def
        in_memory_default_def with_capacity_def default_in_memory_audit_capacity_def)
  then obtain k' where "execute_tool_core ''sales'' tool_token caps None q tool_kernel = (k', Inr sample_outcome)"
    by (auto simp: returning_def elim!: try_bind_InrE)
  with assms(1,3) show ?thesis
    by (simp add: execute_tool_def execute_kernel_tool_request_def sample_tool_env_def)
qed

theorem completed_shell_command_admitted_witness:
  "\<exists>k'. execute_tool sample_tool_env tool_token sample_shell_request tool_kernel = Some (k', Inr sample_outcome)
     \<and> command_admitted (tool_policy_from_config sample_config) [(''command'', JString ''git status'')] ''git''"
proof -
  let ?m = "[(''command'', JString ''git status'')]"
  define q where "q = \<lparr>tool_name = ''shell.exec'',
    tool_payload = JObject [(''command'', JString ''git''), (''args'', JArray [JString ''status''])]\<rparr>"
  have "required_capabilities_for_request sample_tool_env q = Some {InvokeTool}"
    by (simp add: required_capabilities_for_request_def q_def sample_tool_env_def direct_capabilities_def
        tool_requires_network_egress_def)
  moreover have "prepare_kernel_tool_request id sample_shell_request {InvokeTool, FilesystemRead} (Some ''tok-1'') None None = q"
    unfolding q_def by code_simp
  moreover have "authorize_shell_payload (tool_policy_from_config sample_config) ''shell.exec''
      [(''command'', JString ''git''), (''args'', JArray [JString ''status''])] = Inr ()"
    by code_simp
  moreover have "execute_tool_core_with_config sample_tool_env False sample_config q () = ((), Inr sample_outcome)"
    unfolding q_def by code_simp
  ultimately have "\<exists>k'. execute_tool sample_tool_env tool_token sample_shell_request tool_kernel
      = Some (k', Inr sample_outcome)"
    by (intro tool_kernel_completes [of q "{InvokeTool}"])
      (auto simp: q_def tool_policy_authorize_def file_policy_authorize_def effective_shell_request_def
        tool_policy_params_def file_required_capabilities_def Let_def)
  then obtain k' where k': "execute_tool sample_tool_env tool_token sample_shell_request tool_kernel
      = Some (k', Inr sample_outcome)" ..
  have "trim ''git status'' \<noteq> []" "split_whitespace ''git status'' = [''git'', ''status'']" by code_simp+
  with completed_shell_command_admitted [of tool_kernel sample_tool_env "tool_policy_from_config sample_config"
      sample_shell_request ?m "''git status''", OF _ _ _ _ _ _ k']
  have "command_admitted (tool_policy_from_config sample_config) ?m ''git''"
    by (simp add: sample_tool_env_def shell_arguments_def sample_shell_request_def field_str_def)
  with k' show ?thesis by blast
qed


end
