(* ===== verification/Tool_Capabilities.thy ===== *)
theory Tool_Capabilities
  imports Tool_Guarantees
begin

text \<open>
  The capabilities that the kernel asks of a token before a tool request
  (\<open>required_capabilities_for_request\<close>) are enough for the tool that the adapter behind the kernel
  runs in the end, although the adapter resolves facades and \<open>tool.invoke\<close> on its own, after merging
  the internal context into the arguments.
\<close>

section \<open>Facades for direct tools\<close>

lemma direct_capabilities_payload:
  "name \<noteq> ''config.import'' \<Longrightarrow> direct_capabilities name p = direct_capabilities name q"
  by (simp add: direct_capabilities_def)

lemma invoke_tool_direct: "InvokeTool \<in> direct_capabilities name p"
  by (simp add: direct_capabilities_def)

lemma facade_capabilities:
  "\<forall>n \<in> direct_targets ''read''. direct_capabilities n p \<subseteq> direct_capabilities ''read'' q"
  "\<forall>n \<in> direct_targets ''write''. direct_capabilities n p \<subseteq> direct_capabilities ''write'' q"
  "\<forall>n \<in> direct_targets ''exec''. direct_capabilities n p \<subseteq> direct_capabilities ''exec'' q"
  "\<forall>n \<in> direct_targets ''web''. direct_capabilities n p \<subseteq> direct_capabilities ''web'' q"
  "\<forall>n \<in> direct_targets ''browser''. direct_capabilities n p \<subseteq> direct_capabilities ''browser'' q"
  "\<forall>n \<in> direct_targets ''memory''. direct_capabilities n p \<subseteq> direct_capabilities ''memory'' q"
  by (simp_all add: direct_targets_def direct_capabilities_def tool_requires_network_egress_def)

lemma other_target_capabilities:
  "name \<notin> {''read'', ''write'', ''exec'', ''web'', ''browser'', ''memory''} \<Longrightarrow> n \<in> direct_targets name \<Longrightarrow>
     direct_capabilities n p = {InvokeTool}"
  by (simp add: direct_targets_def direct_capabilities_def tool_requires_network_egress_def)

lemma direct_target_capabilities:
  assumes "n \<in> direct_targets name"
  shows "direct_capabilities n p \<subseteq> direct_capabilities name q"
proof (cases "name \<in> {''read'', ''write'', ''exec'', ''web'', ''browser'', ''memory''}")
  case True
  then consider "name = ''read''" | "name = ''write''" | "name = ''exec''" | "name = ''web''"
    | "name = ''browser''" | "name = ''memory''" by fast
  then show ?thesis by cases (use assms facade_capabilities in \<open>simp_all only:\<close>)
next
  case False
  from other_target_capabilities [OF this assms] invoke_tool_direct show ?thesis by simp
qed

text \<open>
  A direct tool never leads to a tool that needs more than the facade: the routed request names a
  tool that the runtime offers, carries the same payload, and needs no capability that the facade
  does not need.
\<close>

lemma facades_do_not_escalate:
  assumes "route_direct_tool_request view request = Inr routed"
  shows "tool_name routed \<in> view \<and> tool_payload routed = tool_payload request
    \<and> direct_capabilities (tool_name routed) (tool_payload routed)
      \<subseteq> direct_capabilities (tool_name request) (tool_payload request)"
  using route_request_Inr [OF assms] by (simp add: direct_target_capabilities)

section \<open>The routing under the internal context\<close>

text \<open>Arguments that differ in the internal context only, and arguments that hold nothing else.\<close>

definition same_but_context :: "json \<Rightarrow> json \<Rightarrow> bool" where
  "same_but_context p q \<longleftrightarrow> (\<forall>key. key \<noteq> ''_loong'' \<longrightarrow> json_get p key = json_get q key)"

definition only_context :: "json \<Rightarrow> bool" where
  "only_context q \<longleftrightarrow> (\<forall>key. key \<noteq> ''_loong'' \<longrightarrow> json_get q key = None)"

lemma fields_same:
  assumes "same_but_context p q"
  shows "key \<noteq> ''_loong'' \<Longrightarrow> payload_has_non_null_field q key = payload_has_non_null_field p key"
    and "''_loong'' \<notin> set keys \<Longrightarrow> has_any q keys = has_any p keys"
    and "hidden_operation q = hidden_operation p"
    and "key \<noteq> ''_loong'' \<Longrightarrow> json_get q key = json_get p key"
proof -
  show get: "key \<noteq> ''_loong'' \<Longrightarrow> json_get q key = json_get p key" for key
    using assms by (simp add: same_but_context_def)
  show field: "key \<noteq> ''_loong'' \<Longrightarrow> payload_has_non_null_field q key = payload_has_non_null_field p key" for key
    by (simp add: payload_has_non_null_field_def get)
  show "''_loong'' \<notin> set keys \<Longrightarrow> has_any q keys = has_any p keys"
    by (induction keys) (auto simp: has_any_def field)
  show "hidden_operation q = hidden_operation p"
    by (simp add: hidden_operation_def trimmed_field_def get)
qed

lemma fields_empty:
  assumes "only_context q"
  shows "key \<noteq> ''_loong'' \<Longrightarrow> \<not> payload_has_non_null_field q key"
    and "''_loong'' \<notin> set keys \<Longrightarrow> \<not> has_any q keys"
    and "hidden_operation q = None"
proof -
  show field: "key \<noteq> ''_loong'' \<Longrightarrow> \<not> payload_has_non_null_field q key" for key
    using assms by (simp add: payload_has_non_null_field_def only_context_def)
  show "''_loong'' \<notin> set keys \<Longrightarrow> \<not> has_any q keys"
    by (induction keys) (auto simp: has_any_def field)
  show "hidden_operation q = None"
    using assms by (simp add: hidden_operation_def trimmed_field_def trimmed_non_empty_path_def only_context_def)
qed

lemma agent_route_context:
  assumes "same_but_context p q"
  shows "route_hidden_agent_tool_name q = route_hidden_agent_tool_name p"
  unfolding route_hidden_agent_tool_name_def Let_def 
  by (simp add: fields_same [OF assms] cong: if_cong option.case_cong split del: if_split)

lemma agent_route_empty:
  assumes "only_context q"
  shows "\<exists>e. route_hidden_agent_tool_name q = Inl e"
  unfolding route_hidden_agent_tool_name_def Let_def by (simp add: fields_empty [OF assms])

lemma channel_route_context:
  assumes "same_but_context p q"
  shows "route_hidden_channel_tool_name resolve surface_id q = route_hidden_channel_tool_name resolve surface_id p"
  unfolding route_hidden_channel_tool_name_def fields_same(3) [OF assms] by (rule refl)

lemma channel_route_empty:
  assumes "only_context q"
  shows "\<exists>e. route_hidden_channel_tool_name resolve surface_id q = Inl e"
  unfolding route_hidden_channel_tool_name_def by (simp add: fields_empty [OF assms])

text \<open>Only the skills facade reads the payload as a whole, and then only to tell these three apart.\<close>

definition context_routes :: "string set" where
  "context_routes = {''external_skills.inspect'', ''external_skills.invoke'', ''external_skills.list''}"

definition skills_tail :: "json \<Rightarrow> string + string" where
  "skills_tail payload =
     (if payload_has_non_null_field payload ''skill_id'' then
        (if (case json_as_object payload of None \<Rightarrow> False
             | Some m \<Rightarrow> list_ex (\<lambda>e. fst e \<noteq> ''skill_id'' \<and> fst e \<noteq> ''operation'') m)
         then Inr ''external_skills.invoke'' else Inr ''external_skills.inspect'')
      else if json_as_object payload = Some [] then Inr ''external_skills.list''
      else Inl ''hidden_skills_requires_actionable_fields: expected search, inspect, install, fetch, resolve, policy, or list fields; add `operation` when the request is ambiguous'')"

lemma skills_tail_routes: "skills_tail p = Inr n \<Longrightarrow> n \<in> context_routes"
  unfolding skills_tail_def context_routes_def
  by (cases "payload_has_non_null_field p ''skill_id''"; cases "json_as_object p = Some []")
    (auto split: if_split_asm)

definition skills_chain :: "json \<Rightarrow> string + string \<Rightarrow> string + string" where
  "skills_chain payload t =
     (if payload_has_non_null_field payload ''sources'' then Inr ''external_skills.source_search''
      else if has_any payload [''allowed_domains'', ''blocked_domains'', ''enabled''] then Inr ''external_skills.policy''
      else if has_any payload [''path'', ''bundled_skill_id'', ''source_skill_id''] then Inr ''external_skills.install''
      else if has_any payload [''url'', ''save_as''] then Inr ''external_skills.fetch''
      else if payload_has_non_null_field payload ''reference'' then
        (if has_any payload [''approval_granted'', ''max_bytes''] then Inr ''external_skills.fetch''
         else Inr ''external_skills.resolve'')
      else if payload_has_non_null_field payload ''query'' then Inr ''external_skills.search''
      else t)"

lemma skills_route_chain:
  "hidden_operation p = None \<Longrightarrow> route_hidden_skills_tool_name p = skills_chain p (skills_tail p)"
  unfolding route_hidden_skills_tool_name_def Let_def skills_tail_def skills_chain_def by (simp only: option.case)

lemma if_chain_tail:
  "(if a then x1 else if b then x2 else if c then x3 else if d then x4
      else if e then (if f then x4 else x5) else if g then x6 else t) = r \<Longrightarrow>
   (if a then x1 else if b then x2 else if c then x3 else if d then x4
      else if e then (if f then x4 else x5) else if g then x6 else u) = r \<or> t = r"
  by (simp split: if_splits)

lemma skills_chain_context:
  assumes "same_but_context p q"
  shows "skills_chain q t = skills_chain p t"
  unfolding skills_chain_def
  by (simp add: fields_same [OF assms] cong: if_cong split del: if_split)

lemma skills_route_context:
  assumes "same_but_context p q" and "route_hidden_skills_tool_name q = Inr n"
  shows "route_hidden_skills_tool_name p = Inr n \<or> n \<in> context_routes"
proof (cases "hidden_operation p")
  case None
  then have "skills_chain p (skills_tail q) = Inr n"
    using assms by (simp add: skills_route_chain fields_same(3) [OF assms(1)] skills_chain_context [OF assms(1)])
  then have "skills_chain p (skills_tail p) = Inr n \<or> skills_tail q = Inr n"
    unfolding skills_chain_def by (rule if_chain_tail)
  with None show ?thesis by (auto simp: skills_route_chain dest: skills_tail_routes)
next
  case (Some op)
  with assms show ?thesis by (simp add: route_hidden_skills_tool_name_def fields_same(3) [OF assms(1)])
qed

lemma skills_route_empty:
  assumes "only_context q" and "route_hidden_skills_tool_name q = Inr n"
  shows "n \<in> context_routes"
proof -
  have "route_hidden_skills_tool_name q = skills_tail q"
    unfolding route_hidden_skills_tool_name_def Let_def skills_tail_def [symmetric]
    by (simp add: fields_empty [OF assms(1)] split del: if_split)
  with assms(2) show ?thesis by (simp add: skills_tail_routes)
qed

section \<open>Invoked tools\<close>

text \<open>
  What is relied on of the catalog: canonical names are fixed, a tool is resolved under its canonical
  name, the skills that a facade names go by these names, and \<open>tool.invoke\<close> is called directly.
\<close>

definition catalog_ok :: "('w, 'n) tool_env \<Rightarrow> bool" where
  "catalog_ok env \<longleftrightarrow>
     (\<forall>n. canonical_tool_name env (canonical_tool_name env n) = canonical_tool_name env n)
     \<and> (\<forall>n r k. resolve_tool_execution env n = Some (r, k) \<longrightarrow> r = canonical_tool_name env n)
     \<and> (\<forall>n \<in> snd ` set skills_operations. canonical_tool_name env n = n)
     \<and> is_provider_exposed_tool_name env ''tool.invoke''"

lemma catalog_okD:
  assumes "catalog_ok env"
  shows "canonical_tool_name env (canonical_tool_name env n) = canonical_tool_name env n"
    and "resolve_tool_execution env n = Some (r, k) \<Longrightarrow> r = canonical_tool_name env n"
    and "n \<in> context_routes \<Longrightarrow> canonical_tool_name env n = n"
    and "is_provider_exposed_tool_name env ''tool.invoke''"
proof -
  have "context_routes \<subseteq> snd ` set skills_operations"
    by (simp add: context_routes_def skills_operations_def)
  then show "n \<in> context_routes \<Longrightarrow> canonical_tool_name env n = n"
    using assms by (auto simp only: catalog_ok_def)
qed (use assms in \<open>simp_all only: catalog_ok_def\<close>)

definition plain_tool :: "string \<Rightarrow> bool" where
  "plain_tool n \<longleftrightarrow> (\<forall>p. direct_capabilities n p = {InvokeTool})"

lemma plain_tools:
  "plain_tool ''agent''" "plain_tool ''skills''" "plain_tool ''channel''" "plain_tool ''tool.search''"
  "plain_tool ''shell.exec''" "n \<in> context_routes \<Longrightarrow> plain_tool n"
proof -
  show "n \<in> context_routes \<Longrightarrow> plain_tool n"
    unfolding context_routes_def plain_tool_def
    by (elim insertE emptyE) (simp_all add: direct_capabilities_def tool_requires_network_egress_def)
qed (simp_all add: plain_tool_def direct_capabilities_def tool_requires_network_egress_def)

abbreviation routed_name :: "('w, 'n) tool_env \<Rightarrow> string \<Rightarrow> json \<Rightarrow> string" where
  "routed_name env tool_id arguments \<equiv> (case route_hidden env tool_id arguments of Inl _ \<Rightarrow> tool_id | Inr n \<Rightarrow> n)"

text \<open>The internal context may change where a request leads, but then no further than to a plain tool.\<close>

lemma routed_name_context:
  assumes "catalog_ok env" and "same_but_context p q \<or> only_context q"
  shows "routed_name env tool_id q = routed_name env tool_id p
    \<or> plain_tool (canonical_tool_name env (routed_name env tool_id q))"
proof -
  let ?c = "canonical_tool_name env tool_id"
  have facade: "?c = ''agent'' \<or> ?c = ''skills'' \<or> ?c = ''channel'' \<Longrightarrow> route_hidden env tool_id q = Inl e \<Longrightarrow> ?thesis" for e
    using plain_tools(1,2,3) by auto
  consider "?c = ''agent''" | "?c = ''skills''" | "?c = ''channel''"
    | "?c \<noteq> ''agent''" "?c \<noteq> ''skills''" "?c \<noteq> ''channel''" by blast
  then show ?thesis
  proof cases
    case 1
    then have route: "route_hidden env tool_id x = route_hidden_agent_tool_name x" for x
      by (simp add: route_hidden_discoverable_tool_name_def)
    from assms(2) show ?thesis
      using agent_route_context agent_route_empty 1 facade unfolding route by metis
  next
    case 2
    then have route: "route_hidden env tool_id x = route_hidden_skills_tool_name x" for x
      by (simp add: route_hidden_discoverable_tool_name_def)
    show ?thesis
    proof (cases "route_hidden_skills_tool_name q")
      case (Inl e)
      with 2 facade show ?thesis unfolding route by blast
    next
      case (Inr n)
      with assms(2) have "route_hidden_skills_tool_name p = Inr n \<or> n \<in> context_routes"
        using skills_route_context skills_route_empty by blast
      with Inr show ?thesis unfolding route using catalog_okD(3) [OF assms(1)] plain_tools(6) by auto
    qed
  next
    case 3
    then have route: "route_hidden env tool_id x = route_hidden_channel_tool_name (resolve_tool_execution env)
        (tool_surface_id_for_name env) x" for x
      by (simp add: route_hidden_discoverable_tool_name_def)
    from assms(2) show ?thesis
      using channel_route_context channel_route_empty 3 facade unfolding route by metis
  next
    case 4
    then show ?thesis by (simp add: route_hidden_discoverable_tool_name_def)
  qed
qed

lemma config_import_context:
  assumes "same_but_context p q \<or> only_context q"
  shows "direct_capabilities name q \<subseteq> direct_capabilities name p"
proof (cases "name = ''config.import''")
  case True
  have mode: "config_import_mode_requires_write_value v \<longleftrightarrow>
      (case map_option trim (Option.bind (json_get v ''mode'') json_as_str) of
         Some s \<Rightarrow> s \<in> {''apply'', ''apply_selected'', ''rollback_last_apply''} | None \<Rightarrow> False)" for v
    by (cases v) (auto simp: config_import_mode_requires_write_value_def config_import_mode_requires_write_object_def
        config_import_mode_def field_str_def json_get_def json_as_object_def split: option.splits)
  have "config_import_mode_requires_write_value q \<Longrightarrow> config_import_mode_requires_write_value p"
    using assms by (auto simp: mode same_but_context_def only_context_def)
  with True show ?thesis by (simp add: direct_capabilities_def tool_requires_network_egress_def)
next
  case False
  from direct_capabilities_payload [OF this] show ?thesis by blast
qed

lemma without_operation_capabilities:
  "direct_capabilities name (JObject (AList.delete ''operation'' m)) = direct_capabilities name (JObject m)"
  by (simp add: direct_capabilities_def config_import_mode_requires_write_value_def
      config_import_mode_requires_write_object_def config_import_mode_def field_str_def delete_conv')

lemma invoke_arguments_context:
  assumes "invoke_arguments outer = Inr arguments"
  shows "same_but_context (case map_of outer ''arguments'' of None \<Rightarrow> JObject outer | Some a \<Rightarrow> a) (JObject arguments)
    \<or> only_context (JObject arguments)"
  using assms
  by (cases "map_of outer ''arguments''"; cases "map_of outer ''_loong''")
    (auto simp: invoke_arguments_def merge_trusted_internal_tool_context_into_arguments_def and_then_Inr ok_or_Inr
      json_as_object_Some same_but_context_def only_context_def update_conv' split: option.splits)

lemma resolve_invoke_Inr:
  assumes "resolve_tool_invoke_request env w request = Inr ((r, k), effective)"
  obtains outer raw arguments where
    "tool_payload request = JObject outer" "map_of outer ''tool_id'' = Some (JString raw)"
    "invoke_arguments outer = Inr arguments"
    "resolve_tool_execution env (routed_name env (canonical_tool_name env raw) (JObject arguments)) = Some (r, k)"
    "\<not> is_provider_exposed_tool_name env r" "tool_name effective = r"
    "direct_capabilities r (tool_payload effective) = direct_capabilities r (JObject arguments)"
  using assms
  by (auto simp: resolve_tool_invoke_request_def and_then_Inr ok_or_Inr json_as_object_Some field_str_Some
      without_operation_capabilities Let_def split: if_splits)

lemma normalized_invoke:
  assumes "normalize_shell_invoke_payload canonical payload = JObject outer"
    and "map_of outer ''tool_id'' = Some (JString raw)"
  shows "canonical raw = ''shell.exec'' \<or> payload = JObject outer"
  using assms by (cases payload)
    (auto simp: normalize_shell_invoke_payload_def field_str_def update_conv' delete_conv' Let_def
      split: option.splits if_splits)

lemma invoked_request_Some:
  assumes "catalog_ok env" and "map_of outer ''tool_id'' = Some (JString raw)"
    and "tool_id = canonical_tool_name env raw" and "tool_id \<notin> {''tool.search'', ''tool.invoke''}"
    and "arguments = (case map_of outer ''arguments'' of None \<Rightarrow> JObject outer | Some a \<Rightarrow> a)"
    and "resolve_tool_execution env (routed_name env tool_id arguments) = Some (r, k)"
    and "\<not> is_provider_exposed_tool_name env r"
  shows "required_capabilities_for_tool_name_and_payload env ''tool.invoke'' (JObject outer)
    = Some (direct_capabilities r arguments)"
proof -
  have "invoked_discoverable_tool_request env (JObject outer) = Some (r, arguments)"
    using assms(2,4,6,7) unfolding invoked_discoverable_tool_request_def json_simps assms(3,5) [symmetric]
    by (simp add: assms(3) [symmetric] assms(5) [symmetric] Let_def)
  then show ?thesis by (simp add: required_capabilities_invoke [OF catalog_okD(4) [OF assms(1)]])
qed

lemma required_invoke_InvokeTool:
  assumes "catalog_ok env" and "required_capabilities_for_tool_name_and_payload env ''tool.invoke'' payload = Some caps"
  shows "InvokeTool \<in> caps"
  using assms(2) by (auto simp: required_capabilities_invoke [OF catalog_okD(4) [OF assms(1)]] invoke_tool_direct
      split: option.splits)

lemma direct_name_resolves:
  assumes "catalog_ok env" and "canonical_tool_name env tool_id = tool_id"
    and "tool_id \<notin> {''agent'', ''skills'', ''channel''}"
  shows "canonical_tool_name env (routed_name env tool_id p) = tool_id"
  using assms(2,3) catalog_okD(2) [OF assms(1), of tool_id]
  by (auto simp: route_hidden_discoverable_tool_name_def ok_or_def split: option.splits)

lemma invoked_within_capabilities:
  assumes ok: "catalog_ok env"
    and payload: "tool_payload request = normalize_shell_invoke_payload (canonical_tool_name env) payload"
    and run: "resolve_tool_invoke_request env w request = Inr ((r, k), effective)"
    and caps: "required_capabilities_for_tool_name_and_payload env ''tool.invoke'' payload = Some caps"
  shows "canonical_tool_name env (tool_name effective) = tool_name effective
    \<and> direct_capabilities (tool_name effective) (tool_payload effective) \<subseteq> caps"
proof -
  obtain outer raw arguments where o: "tool_payload request = JObject outer"
    "map_of outer ''tool_id'' = Some (JString raw)" "invoke_arguments outer = Inr arguments"
    "resolve_tool_execution env (routed_name env (canonical_tool_name env raw) (JObject arguments)) = Some (r, k)"
    "\<not> is_provider_exposed_tool_name env r" "tool_name effective = r"
    "direct_capabilities r (tool_payload effective) = direct_capabilities r (JObject arguments)"
    using resolve_invoke_Inr [OF run] .
  define tool_id where "tool_id = canonical_tool_name env raw"
  define given where "given = (case map_of outer ''arguments'' of None \<Rightarrow> JObject outer | Some a \<Rightarrow> a)"
  have id: "canonical_tool_name env tool_id = tool_id" by (simp add: tool_id_def catalog_okD(1) [OF ok])
  have r: "r = canonical_tool_name env (routed_name env tool_id (JObject arguments))"
    using catalog_okD(2) [OF ok o(4)] by (simp only: tool_id_def)
  have plain: "direct_capabilities r (JObject arguments) \<subseteq> caps" if "plain_tool r"
    using that required_invoke_InvokeTool [OF ok caps] by (simp add: plain_tool_def)
  have "direct_capabilities r (JObject arguments) \<subseteq> caps"
  proof (cases "tool_id \<in> {''shell.exec'', ''tool.search'', ''tool.invoke''}")
    case True
    then have "r = tool_id" using r direct_name_resolves [OF ok id] by auto
    with True o(5) catalog_okD(4) [OF ok] plain_tools(4,5) plain show ?thesis by blast
  next
    case False
    have unchanged: "payload = JObject outer"
      using normalized_invoke [OF payload [symmetric, unfolded o(1)] o(2)] False by (simp add: tool_id_def)
    have rel: "same_but_context given (JObject arguments) \<or> only_context (JObject arguments)"
      using invoke_arguments_context [OF o(3)] by (simp only: given_def)
    from routed_name_context [OF ok this, of tool_id]
    consider "plain_tool r" | "routed_name env tool_id (JObject arguments) = routed_name env tool_id given"
      unfolding r [symmetric] by blast
    then show ?thesis
    proof cases
      case 1
      then show ?thesis by (rule plain)
    next
      case 2
      from o(4) have "resolve_tool_execution env (routed_name env tool_id given) = Some (r, k)"
        unfolding tool_id_def [symmetric] 2 .
      then have "caps = direct_capabilities r given"
        using invoked_request_Some [OF ok o(2) tool_id_def _ given_def _ o(5)] False caps unchanged by auto
      with config_import_context [OF rel] show ?thesis by simp
    qed
  qed
  with o(6,7) r catalog_okD(1) [OF ok] show ?thesis by simp
qed

section \<open>The adapter\<close>

abbreviation within ::
    "capability set \<Rightarrow> ('w, 'n) tool_env
     \<Rightarrow> (tool_runtime_config \<Rightarrow> 'n list \<Rightarrow> tool_core_request \<Rightarrow> 'w \<Rightarrow> 'w \<times> (string + plane_outcome))
     \<Rightarrow> ('w, 'n) tool_env" where
  "within caps env other \<equiv>
     guard_with (\<lambda>_ _ q. direct_capabilities (tool_name q) (tool_payload q) \<subseteq> caps) env other"

lemma normalize_keeps_capabilities:
  assumes "canonical name = name"
  shows "direct_capabilities name (normalize_shell_payload_for_request canonical name p) = direct_capabilities name p"
proof (cases "name = ''config.import''")
  case True
  with assms show ?thesis by (simp add: normalize_shell_payload_for_request_def)
qed (rule direct_capabilities_payload)

lemma within_discoverable:
  assumes "direct_capabilities (tool_name q)
      (normalize_shell_payload_for_request (canonical_tool_name env) (tool_name q) (tool_payload q)) \<subseteq> caps"
  shows "execute_discoverable_tool_core_with_config (within caps env other) config ns q w
    = execute_discoverable_tool_core_with_config env config ns q w"
  using assms by (auto simp: execute_discoverable_tool_core_with_config_def guarded_dispatch_admitted
      normalize_shell_request_for_execution_def Let_def split: sum.split)

lemma within_direct:
  assumes "direct_capabilities (tool_name q) p \<subseteq> caps"
  shows "execute_direct_tool_core_with_config (within caps env other) config ns q w
    = execute_direct_tool_core_with_config env config ns q w"
proof (cases "route_direct_tool_request (runtime_tool_view env config ns) q")
  case (Inr routed)
  have "direct_capabilities (tool_name routed) v \<subseteq> caps" for v
    using direct_target_capabilities [OF route_request_Inr(1) [OF Inr]] assms by blast
  then show ?thesis
    using Inr by (simp add: execute_direct_tool_core_with_config_def within_discoverable)
qed (simp add: execute_direct_tool_core_with_config_def)

lemma within_invoke:
  assumes "catalog_ok env"
    and "tool_payload request = normalize_shell_invoke_payload (canonical_tool_name env) payload"
    and "required_capabilities_for_tool_name_and_payload env ''tool.invoke'' payload = Some caps"
  shows "execute_tool_invoke_tool_with_config (within caps env other) trusted config ns request w
    = execute_tool_invoke_tool_with_config env trusted config ns request w"
proof -
  have "execute_discoverable_tool_core_with_config (within caps env other) config ns effective w
      = execute_discoverable_tool_core_with_config env config ns effective w"
    if "resolve_tool_invoke_request env w request = Inr ((r, k), effective)" for r k effective
    using invoked_within_capabilities [OF assms(1,2) that assms(3)]
    by (intro within_discoverable) (simp add: normalize_keeps_capabilities)
  then show ?thesis
    by (auto simp: execute_tool_invoke_tool_with_config_def Let_def and_then_Inr
        split: sum.split tool_execution_kind.split)
qed

text \<open>
  C6: no tool runs beyond the capabilities that the kernel checked.  Let \<open>caps\<close> be what
  \<open>required_capabilities_for_request\<close> asks for a request.  The adapter behaves the same when the tools
  are replaced by ones that do anything else on requests that need a capability outside \<open>caps\<close>: such
  a request never reaches them, neither through a direct tool nor through \<open>tool.invoke\<close> and its
  facades, with internal context or without.
\<close>

theorem tools_stay_within_required_capabilities:
  assumes "catalog_ok env" and "required_capabilities_for_request env request = Some caps"
  shows "execute_tool_core_with_config (within caps env other) trusted config request w
     = execute_tool_core_with_config env trusted config request w"
proof -
  define name where "name = canonical_tool_name env (tool_name request)"
  define q where "q = normalize_shell_request_for_execution (canonical_tool_name env)
      \<lparr>tool_name = name, tool_payload = tool_payload request\<rparr>"
  have name: "canonical_tool_name env name = name" by (simp add: name_def catalog_okD(1) [OF assms(1)])
  have q: "tool_name q = name"
    "tool_payload q = normalize_shell_payload_for_request (canonical_tool_name env) name (tool_payload request)"
    by (simp_all add: q_def normalize_shell_request_for_execution_def)
  have caps: "required_capabilities_for_tool_name_and_payload env name (tool_payload request) = Some caps"
    using assms(2) by (simp add: required_capabilities_for_request_def name_def)
  have plain: "direct_capabilities name (tool_payload request) \<subseteq> caps" if "name \<noteq> ''tool.invoke''"
    using caps that by simp
  have direct: "execute_direct_tool_core_with_config (within caps env other) c ns q w
      = execute_direct_tool_core_with_config env c ns q w" if "name \<noteq> ''tool.invoke''" for c ns
    using plain [OF that] q(1) by (intro within_direct) simp
  have discoverable: "execute_discoverable_tool_core_with_config (within caps env other) c ns q w
      = execute_discoverable_tool_core_with_config env c ns q w" if "name \<noteq> ''tool.invoke''" for c ns
    using plain [OF that] by (intro within_discoverable) (simp add: q normalize_keeps_capabilities [of "canonical_tool_name env" name, OF name])
  have invoke: "execute_tool_invoke_tool_with_config (within caps env other) trusted c ns q w
      = execute_tool_invoke_tool_with_config env trusted c ns q w" if "name = ''tool.invoke''" for c ns
    using that caps name by (intro within_invoke [OF assms(1)]) (simp_all add: q normalize_shell_payload_for_request_def)
  show ?thesis
    unfolding execute_tool_core_with_config_def Let_def guarded_fields name_def [symmetric] q_def [symmetric]
    by (cases "name = ''tool.invoke''") (simp_all add: direct discoverable invoke cong: sum.case_cong if_cong)
qed

lemma sample_catalog_ok: "catalog_ok sample_tool_env"
  by (simp add: catalog_ok_def sample_tool_env_def)

text \<open>Here the request goes through \<open>tool.invoke\<close> and the skills facade, with an internal context.\<close>

definition context_invocation :: tool_core_request where
  "context_invocation = \<lparr>tool_name = ''tool.invoke'', tool_payload = JObject [(''tool_id'', JString ''skills''),
     (''lease'', JString ''l''), (''arguments'', JObject [(''skill_id'', JString ''pdf'')]),
     (''_loong'', JObject [(''workspace_root'', JString ''/box'')])]\<rparr>"

lemma context_invocation_required:
  "required_capabilities_for_request sample_tool_env context_invocation = Some {InvokeTool}"
proof -
  have "invoked_discoverable_tool_request sample_tool_env (tool_payload context_invocation)
      = Some (''external_skills.inspect'', JObject [(''skill_id'', JString ''pdf'')])"
    by code_simp
  then show ?thesis
    by (simp add: required_capabilities_for_request_def required_capabilities_invoke sample_tool_env_def
        context_invocation_def direct_capabilities_def tool_requires_network_egress_def)
qed

theorem tools_stay_within_required_capabilities_witness:
  "execute_tool_core_with_config (within {InvokeTool} sample_tool_env (\<lambda>_ _ _ w. (w, Inl ''other'')))
       True sample_config context_invocation ()
     = execute_tool_core_with_config sample_tool_env True sample_config context_invocation ()"
  by (rule tools_stay_within_required_capabilities [OF sample_catalog_ok context_invocation_required])

section \<open>What the internal context changes\<close>

text \<open>
  C38: the name that the kernel side works with and the tool that runs may differ.  Take a request to
  \<open>tool.invoke\<close> with a valid lease whose arguments for the skills facade only name a skill, in a session
  that adds an internal context, and a catalog that offers the inspection and the invocation of
  skills as tools of their own.  Where its capabilities are computed, the request is read as the
  inspection of the skill; \<open>resolve_tool_invoke_request\<close> merges the context into the arguments before it
  routes them, counts it as an argument of the skill, and answers with the invocation.
\<close>

theorem context_turns_inspection_into_invocation:
  assumes "canonical_tool_name env (tool_name request) = ''tool.invoke''" and "tool_payload request = JObject outer"
    and "map_of outer ''tool_id'' = Some (JString raw)" and "canonical_tool_name env raw = ''skills''"
    and "canonical_tool_name env ''skills'' = ''skills''"
    and "map_of outer ''arguments'' = Some (JObject [(''skill_id'', JString skill)])"
    and "map_of outer ''_loong'' = Some (JObject ctx)" and "map_of outer ''lease'' = Some (JString lease)"
    and "validate_tool_lease (lease_codec_of env) (lease_secret env w) (catalog_digest env) (unix_seconds env w)
      ''skills'' lease outer = Inr ()"
    and "resolve_tool_execution env ''external_skills.inspect'' = Some (''external_skills.inspect'', inspect_kind)"
    and "resolve_tool_execution env ''external_skills.invoke'' = Some (''external_skills.invoke'', invoke_kind)"
    and "\<not> is_provider_exposed_tool_name env ''external_skills.inspect''"
    and "\<not> is_provider_exposed_tool_name env ''external_skills.invoke''"
  shows "invoked_discoverable_tool_request env (tool_payload request)
      = Some (''external_skills.inspect'', JObject [(''skill_id'', JString skill)])
    \<and> resolve_tool_invoke_request env w request
      = Inr ((''external_skills.invoke'', invoke_kind),
          \<lparr>tool_name = ''external_skills.invoke'',
           tool_payload = JObject [(''skill_id'', JString skill), (''_loong'', JObject ctx)]\<rparr>)"
proof -
  have routes: "route_hidden_skills_tool_name (JObject [(''skill_id'', JString skill)]) = Inr ''external_skills.inspect''"
    "route_hidden_skills_tool_name (JObject [(''skill_id'', JString skill), (''_loong'', JObject ctx)])
      = Inr ''external_skills.invoke''"
    by (simp_all add: route_hidden_skills_tool_name_def hidden_operation_def trimmed_field_def
        trimmed_non_empty_path_def payload_has_non_null_field_def has_any_def)
  have merged: "invoke_arguments outer = Inr [(''skill_id'', JString skill), (''_loong'', JObject ctx)]"
    using assms(6,7) by (simp add: invoke_arguments_def and_then_def ok_or_def
        merge_trusted_internal_tool_context_into_arguments_def reserved_internal_tool_context_key_in_map_def)
  have "invoked_discoverable_tool_request env (tool_payload request)
      = Some (''external_skills.inspect'', JObject [(''skill_id'', JString skill)])"
    using assms(2-6,10,12) routes(1)
    by (simp add: invoked_discoverable_tool_request_def route_hidden_discoverable_tool_name_def Let_def)
  moreover have "resolve_tool_invoke_request env w request
      = Inr ((''external_skills.invoke'', invoke_kind),
          \<lparr>tool_name = ''external_skills.invoke'',
           tool_payload = JObject [(''skill_id'', JString skill), (''_loong'', JObject ctx)]\<rparr>)"
    using assms(1-5,8,9,11,13) merged routes(2)
    by (simp add: resolve_tool_invoke_request_def route_hidden_discoverable_tool_name_def field_str_def
        and_then_def ok_or_def hidden_facades_def Let_def)
  ultimately show ?thesis by blast
qed

definition skills_lease :: string where
  "skills_lease = (case issue_tool_lease sample_codec (Inr ''k'') ''cat'' 0 ''skills'' [] of
     Inr lease \<Rightarrow> lease | Inl e \<Rightarrow> e)"

definition leased_invocation :: json_map where
  "leased_invocation = [(''tool_id'', JString ''skills''), (''lease'', JString skills_lease),
     (''arguments'', JObject [(''skill_id'', JString ''pdf'')]),
     (''_loong'', JObject [(''workspace_root'', JString ''/box'')])]"

theorem context_turns_inspection_into_invocation_witness:
  "\<exists>effective. resolve_tool_invoke_request sample_tool_env ()
      \<lparr>tool_name = ''tool.invoke'', tool_payload = JObject leased_invocation\<rparr>
    = Inr ((''external_skills.invoke'', ToolCore), effective)"
proof -
  have lease: "validate_tool_lease sample_codec (Inr ''k'') ''cat'' 0 ''skills'' skills_lease leased_invocation = Inr ()"
  proof -
    have "issue_tool_lease sample_codec (Inr ''k'') ''cat'' 0 ''skills'' [] = Inr skills_lease"
      by (simp add: skills_lease_def issue_tool_lease_def sample_codec_def Let_def)
    from validate_issued [OF sample_codec_ok this] show ?thesis
      by (simp add: same_binding_def sat_add_u64_def field_str_def Let_def)
  qed
  have fields: "map_of leased_invocation ''tool_id'' = Some (JString ''skills'')"
    "map_of leased_invocation ''arguments'' = Some (JObject [(''skill_id'', JString ''pdf'')])"
    "map_of leased_invocation ''_loong'' = Some (JObject [(''workspace_root'', JString ''/box'')])"
    "map_of leased_invocation ''lease'' = Some (JString skills_lease)"
    by (simp_all add: leased_invocation_def)
  from context_turns_inspection_into_invocation [of sample_tool_env
      "\<lparr>tool_name = ''tool.invoke'', tool_payload = JObject leased_invocation\<rparr>" leased_invocation "''skills''"
      "''pdf''" "[(''workspace_root'', JString ''/box'')]" skills_lease "()" ToolCore ToolCore] lease fields
  show ?thesis by (simp add: sample_tool_env_def)
qed

end
