(* ===== verification/Bash_Governance.thy ===== *)
theory Bash_Governance
  imports Tool_Routing Event_Log
begin

text \<open>
  The governance of \<open>bash.exec\<close> in \<open>app/src/tools\<close>: prefix rules (\<open>bash_rules.rs\<close>), their application to
  the units of a command (\<open>bash_governance.rs\<close>), and the tool in front of the process (\<open>bash.rs\<close>).

  Parameters: the analysis of a command into units, which rests on the tree-sitter grammar, the rules
  loaded from Starlark files, the check of the working directory, and the process.
\<close>

section \<open>Rules\<close>

datatype prefix_rule_decision = RuleAllow | RuleDeny

datatype compiled_rule_origin = RuleFile | LegacyShellCompatibility

record compiled_prefix_rule =
  rule_source :: string
  rule_prefix :: "string list"
  rule_decision :: prefix_rule_decision
  rule_origin :: compiled_rule_origin

definition prefix_matches_tokens :: "string list \<Rightarrow> string list \<Rightarrow> bool" where
  "prefix_matches_tokens command prefix_tokens \<longleftrightarrow>
     length prefix_tokens \<le> length command \<and> list_all (\<lambda>(c, p). c = p) (zip command prefix_tokens)"

definition command_tokens_for_rule ::
    "compiled_prefix_rule \<Rightarrow> string list \<Rightarrow> string list \<Rightarrow> string list" where
  "command_tokens_for_rule rule argv lowered_argv =
     (if rule_origin rule = LegacyShellCompatibility then lowered_argv else argv)"

definition matching_rule_source ::
    "compiled_prefix_rule list \<Rightarrow> string list \<Rightarrow> prefix_rule_decision \<Rightarrow> string option" where
  "matching_rule_source rules argv decision =
     (let lowered_argv = map to_ascii_lowercase argv in
      map_option rule_source (List.find (\<lambda>rule.
        rule_decision rule = decision
        \<and> prefix_matches_tokens (command_tokens_for_rule rule argv lowered_argv) (rule_prefix rule)) rules))"

text \<open>The rules of a runtime: the shell lists of the configuration, then the loaded rules.\<close>

definition translate_legacy_shell_rules ::
    "string \<Rightarrow> prefix_rule_decision \<Rightarrow> string list \<Rightarrow> compiled_prefix_rule list" where
  "translate_legacy_shell_rules source decision commands =
     List.map_filter (\<lambda>command.
       let normalized = to_ascii_lowercase (trim command) in
       if normalized = [] then None
       else Some \<lparr>rule_source = source @ '':'' @ normalized, rule_prefix = [normalized],
         rule_decision = decision, rule_origin = LegacyShellCompatibility\<rparr>) commands"

record bash_governance_policy =
  governance_rules :: "compiled_prefix_rule list"
  governance_load_error :: "string option"

definition build_bash_governance_runtime_policy ::
    "string + compiled_prefix_rule list \<Rightarrow> string list \<Rightarrow> string list \<Rightarrow> bash_governance_policy" where
  "build_bash_governance_runtime_policy loaded allow deny =
     (let rules = translate_legacy_shell_rules ''shell_allow'' RuleAllow allow
            @ translate_legacy_shell_rules ''shell_deny'' RuleDeny deny in
      case loaded of
        Inr loaded_rules \<Rightarrow> \<lparr>governance_rules = rules @ loaded_rules, governance_load_error = None\<rparr>
      | Inl error \<Rightarrow> \<lparr>governance_rules = rules, governance_load_error = Some error\<rparr>)"

section \<open>Units of a command\<close>

datatype unsupported_structure_kind = BackgroundOperator | CommandSubstitution | CompoundCommand
  | EnvPrefixAssignment | Pipeline | ProcessSubstitution | Redirection | Subshell

datatype unit_operator = Sequential | AndIf | OrIf

datatype unit_classification = GovernablePlainCommand "string list" | Unsupported unsupported_structure_kind

record minimal_command_unit =
  classification :: unit_classification
  preceding_operator :: "unit_operator option"

record bash_command_analysis =
  parse_unreliable :: bool
  command_units :: "minimal_command_unit list"

datatype unit_decision_source = ExplicitAllow string | ExplicitDeny string | DefaultUnmatchedPrefix
  | DefaultUnsupportedStructure unsupported_structure_kind | DefaultParseUnreliable

datatype unit_governance_decision = UnitAllow | UnitDeny | UnitDefault

record unit_governance_outcome =
  outcome_operator :: "unit_operator option"
  outcome_classification :: unit_classification
  unit_decision :: unit_governance_decision
  decision_source :: unit_decision_source

datatype final_governance_decision = FinalAllow | FinalDeny

datatype final_decision_source = AllUnitsExplicitlyAllowed | ParseUnreliableDefault | DefaultFallbackNoUnits
  | UnitSource usize unit_decision_source

record bash_governance_outcome =
  governed_command :: string
  outcome_unreliable :: bool
  unit_outcomes :: "unit_governance_outcome list"
  governance_default :: shell_policy_default
  final_decision :: final_governance_decision
  final_source :: final_decision_source

fun final_default_decision :: "shell_policy_default \<Rightarrow> final_governance_decision" where
  "final_default_decision ShellAllow = FinalAllow"
| "final_default_decision ShellDeny = FinalDeny"

definition parse_unreliable_unit_outcome :: "minimal_command_unit \<Rightarrow> unit_governance_outcome" where
  "parse_unreliable_unit_outcome u = \<lparr>outcome_operator = preceding_operator u,
     outcome_classification = classification u, unit_decision = UnitDefault,
     decision_source = DefaultParseUnreliable\<rparr>"

definition evaluate_unit :: "compiled_prefix_rule list \<Rightarrow> minimal_command_unit \<Rightarrow> unit_governance_outcome" where
  "evaluate_unit rules u =
     (let (decision, source) =
        (case classification u of
           GovernablePlainCommand argv \<Rightarrow>
             (case matching_rule_source rules argv RuleDeny of
                Some s \<Rightarrow> (UnitDeny, ExplicitDeny s)
              | None \<Rightarrow>
                  (case matching_rule_source rules argv RuleAllow of
                     Some s \<Rightarrow> (UnitAllow, ExplicitAllow s)
                   | None \<Rightarrow> (UnitDefault, DefaultUnmatchedPrefix)))
         | Unsupported kind \<Rightarrow> (UnitDefault, DefaultUnsupportedStructure kind)) in
      \<lparr>outcome_operator = preceding_operator u, outcome_classification = classification u,
       unit_decision = decision, decision_source = source\<rparr>)"

text \<open>The first outcome with a decision, by its index.\<close>

definition first_with ::
    "unit_governance_decision \<Rightarrow> unit_governance_outcome list \<Rightarrow> (usize \<times> unit_decision_source) option" where
  "first_with d outcomes =
     map_option (\<lambda>(i, out). (i, decision_source out))
       (List.find (\<lambda>(i, out). unit_decision out = d) (zip [0..<length outcomes] outcomes))"

definition evaluate_bash_analysis ::
    "string \<Rightarrow> bash_command_analysis \<Rightarrow> compiled_prefix_rule list \<Rightarrow> shell_policy_default
       \<Rightarrow> bash_governance_outcome" where
  "evaluate_bash_analysis command analysis rules mode =
     (let outcomes = map (evaluate_unit rules) (command_units analysis);
          result = (\<lambda>outs decision source. \<lparr>governed_command = command,
            outcome_unreliable = parse_unreliable analysis, unit_outcomes = outs,
            governance_default = mode, final_decision = decision, final_source = source\<rparr>) in
      if parse_unreliable analysis then
        (case first_with UnitDeny outcomes of
           Some (i, source) \<Rightarrow> result outcomes FinalDeny (UnitSource i source)
         | None \<Rightarrow> result (map parse_unreliable_unit_outcome (command_units analysis))
             (final_default_decision mode) ParseUnreliableDefault)
      else
        (case first_with UnitDeny outcomes of
           Some (i, source) \<Rightarrow> result outcomes FinalDeny (UnitSource i source)
         | None \<Rightarrow>
             if outcomes \<noteq> [] \<and> list_all (\<lambda>out. unit_decision out = UnitAllow) outcomes then
               result outcomes FinalAllow AllUnitsExplicitlyAllowed
             else (case first_with UnitDefault outcomes of
                 Some (i, source) \<Rightarrow> result outcomes (final_default_decision mode) (UnitSource i source)
               | None \<Rightarrow> result outcomes (final_default_decision mode) DefaultFallbackNoUnits)))"

section \<open>Reasons\<close>

fun unsupported_structure_label :: "unsupported_structure_kind \<Rightarrow> string" where
  "unsupported_structure_label BackgroundOperator = ''background operator''"
| "unsupported_structure_label CommandSubstitution = ''command substitution''"
| "unsupported_structure_label CompoundCommand = ''compound command''"
| "unsupported_structure_label EnvPrefixAssignment = ''environment-prefix assignment''"
| "unsupported_structure_label Pipeline = ''pipeline''"
| "unsupported_structure_label ProcessSubstitution = ''process substitution''"
| "unsupported_structure_label Redirection = ''redirection''"
| "unsupported_structure_label Subshell = ''subshell''"

definition unit_display :: "unit_governance_outcome \<Rightarrow> string" where
  "unit_display out =
     (case outcome_classification out of
        GovernablePlainCommand argv \<Rightarrow> join '' '' argv
      | Unsupported kind \<Rightarrow> ''unsupported '' @ unsupported_structure_label kind)"

fun default_mode_label :: "shell_policy_default \<Rightarrow> string" where
  "default_mode_label ShellAllow = ''allow''"
| "default_mode_label ShellDeny = ''deny''"

definition denial_reason :: "bash_governance_outcome \<Rightarrow> string option" where
  "denial_reason out =
     (let by_default = ''default-'' @ default_mode_label (governance_default out) @ '' policy denied it'';
          unreliable = ''bash command could not be parsed reliably and '' @ by_default in
      if final_decision out \<noteq> FinalDeny then None
      else Some (case final_source out of
          AllUnitsExplicitlyAllowed \<Rightarrow> ''bash governance denied command unexpectedly''
        | ParseUnreliableDefault \<Rightarrow> unreliable
        | DefaultFallbackNoUnits \<Rightarrow> ''bash command produced no governable units and '' @ by_default
        | UnitSource index source \<Rightarrow>
            let shown = (if index < length (unit_outcomes out) then unit_display (unit_outcomes out ! index)
                  else ''unknown unit'');
                unit = ''bash command unit `'' @ shown @ ''` '' in
            (case source of
               ExplicitDeny s \<Rightarrow> unit @ ''matched deny rule `'' @ s @ ''`''
             | ExplicitAllow s \<Rightarrow> unit @ ''matched allow rule `'' @ s @ ''` but overall evaluation still denied''
             | DefaultUnmatchedPrefix \<Rightarrow> unit @ ''matched no allow rule and '' @ by_default
             | DefaultUnsupportedStructure kind \<Rightarrow>
                 unit @ ''uses unsupported '' @ unsupported_structure_label kind @ '' structure and '' @ by_default
             | DefaultParseUnreliable \<Rightarrow> unreliable)))"

section \<open>The tool\<close>

definition bash_exec_allowed_fields :: "string list" where
  "bash_exec_allowed_fields = [''command'', ''cwd'', ''timeout_ms'', ''_loong'', ''_loong'']"

definition reject_unknown_bash_exec_fields :: "json_map \<Rightarrow> string + unit" where
  "reject_unknown_bash_exec_fields payload =
     (let unknown_fields = sort (filter (\<lambda>key. key \<notin> set bash_exec_allowed_fields) (map fst payload)) in
      if unknown_fields = [] then Inr ()
      else Inl (''bash.exec payload contains unknown field(s): '' @ join '', '' unknown_fields))"

definition parse_bash_timeout_ms :: "json_map \<Rightarrow> string + u64" where
  "parse_bash_timeout_ms payload =
     and_then
       (case map_of payload ''timeout_ms'' of
          None \<Rightarrow> Inr 120000
        | Some (JNumber n) \<Rightarrow>
            if 0 \<le> n \<and> n < 2 ^ 64 then Inr (word_of_int n)
            else Inl ''bash.exec payload.timeout_ms must be an integer''
        | Some _ \<Rightarrow> Inl ''bash.exec payload.timeout_ms must be an integer'')
       (\<lambda>timeout_ms. Inr (clamp 1000 600000 timeout_ms))"

record bash_exec_policy =
  bash_available :: bool
  bash_command :: "string option"
  bash_login_shell :: bool
  bash_governance :: bash_governance_policy

definition bash_exec_args :: "string \<Rightarrow> bool \<Rightarrow> string list" where
  "bash_exec_args command login_shell = (if login_shell then [''-lc'', command] else [''-c'', command])"

record 'w bash_env =
  analyze_bash_command :: "string \<Rightarrow> bash_command_analysis"
  bash_cwd :: "'w \<Rightarrow> json_map \<Rightarrow> string + string"
  run_bash :: "string \<Rightarrow> string list \<Rightarrow> string \<Rightarrow> u64 \<Rightarrow> 'w \<Rightarrow> 'w \<times> (string + plane_outcome)"

definition evaluate_bash_command ::
    "'w bash_env \<Rightarrow> string \<Rightarrow> compiled_prefix_rule list \<Rightarrow> shell_policy_default \<Rightarrow> bash_governance_outcome" where
  "evaluate_bash_command env command rules mode =
     evaluate_bash_analysis command (analyze_bash_command env command) rules mode"

text \<open>Everything up to the start of the process: the program, the command, its directory and its timeout.\<close>

definition prepare_bash_call ::
    "'w bash_env \<Rightarrow> bash_exec_policy \<Rightarrow> shell_policy_default \<Rightarrow> tool_core_request \<Rightarrow> 'w
       \<Rightarrow> string + string \<times> string \<times> string \<times> u64" where
  "prepare_bash_call env runtime mode request w =
     and_then (ok_or ''bash.exec payload must be an object'' (json_as_object (tool_payload request))) (\<lambda>payload.
     and_then (reject_unknown_bash_exec_fields payload) (\<lambda>_.
     and_then (ok_or ''bash.exec requires payload.command'' (trimmed_field (JObject payload) ''command'')) (\<lambda>command.
     and_then (bash_cwd env w payload) (\<lambda>cwd.
     and_then (parse_bash_timeout_ms payload) (\<lambda>timeout_ms.
     if \<not> (bash_available runtime \<and> bash_command runtime \<noteq> None) then Inl ''bash unavailable''
     else case governance_load_error (bash_governance runtime) of
       Some load_error \<Rightarrow> Inl (''policy_denied: bash governance rules failed to load: '' @ load_error)
     | None \<Rightarrow>
         let governance = evaluate_bash_command env command (governance_rules (bash_governance runtime)) mode in
         if final_decision governance = FinalDeny then
           Inl (''policy_denied: '' @ (case denial_reason governance of
               Some detail \<Rightarrow> detail | None \<Rightarrow> ''bash governance denied command''))
         else
           and_then (ok_or ''bash unavailable'' (bash_command runtime)) (\<lambda>runtime_command.
           Inr (runtime_command, command, cwd, timeout_ms)))))))"

definition execute_bash_tool_with_config ::
    "'w bash_env \<Rightarrow> bash_exec_policy \<Rightarrow> shell_policy_default \<Rightarrow> tool_core_request \<Rightarrow> 'w
       \<Rightarrow> 'w \<times> (string + plane_outcome)" where
  "execute_bash_tool_with_config env runtime mode request w =
     (case prepare_bash_call env runtime mode request w of
        Inl e \<Rightarrow> (w, Inl e)
      | Inr (runtime_command, command, cwd, timeout_ms) \<Rightarrow>
          run_bash env runtime_command (bash_exec_args command (bash_login_shell runtime)) cwd timeout_ms w)"

section \<open>What is admitted\<close>

text \<open>A rule matches an argument vector, and the verdict on a unit, without any order among the rules.\<close>

definition rule_matches :: "compiled_prefix_rule \<Rightarrow> string list \<Rightarrow> bool" where
  "rule_matches rule argv \<longleftrightarrow>
     prefix (rule_prefix rule)
       (if rule_origin rule = LegacyShellCompatibility then map to_ascii_lowercase argv else argv)"

definition unit_matched :: "compiled_prefix_rule list \<Rightarrow> prefix_rule_decision \<Rightarrow> minimal_command_unit \<Rightarrow> bool" where
  "unit_matched rules decision u =
     (case classification u of
        GovernablePlainCommand argv \<Rightarrow> list_ex (\<lambda>r. rule_decision r = decision \<and> rule_matches r argv) rules
      | Unsupported _ \<Rightarrow> False)"

definition bash_admitted ::
    "bash_command_analysis \<Rightarrow> compiled_prefix_rule list \<Rightarrow> shell_policy_default \<Rightarrow> bool" where
  "bash_admitted analysis rules mode \<longleftrightarrow>
     \<not> list_ex (unit_matched rules RuleDeny) (command_units analysis)
     \<and> (mode = ShellAllow
        \<or> \<not> parse_unreliable analysis \<and> command_units analysis \<noteq> []
          \<and> list_all (unit_matched rules RuleAllow) (command_units analysis))"

lemma prefix_matches_tokens_iff: "prefix_matches_tokens command p \<longleftrightarrow> prefix p command"
proof (induction p arbitrary: command)
  case (Cons x p)
  then show ?case by (cases command) (auto simp: prefix_matches_tokens_def)
qed (simp add: prefix_matches_tokens_def)

lemma find_Some_iff: "(\<exists>x. List.find P xs = Some x) \<longleftrightarrow> list_ex P xs"
  by (induction xs) auto

lemma matching_rule_source_iff:
  "(\<exists>s. matching_rule_source rules argv d = Some s) \<longleftrightarrow>
     list_ex (\<lambda>r. rule_decision r = d \<and> rule_matches r argv) rules"
  by (auto simp: matching_rule_source_def prefix_matches_tokens_iff command_tokens_for_rule_def rule_matches_def
      Let_def find_Some_iff [symmetric])

lemma matching_rule_source_None:
  "matching_rule_source rules argv d = None \<longleftrightarrow>
     \<not> list_ex (\<lambda>r. rule_decision r = d \<and> rule_matches r argv) rules"
  using matching_rule_source_iff [of rules argv d] by (cases "matching_rule_source rules argv d") auto

lemma evaluate_unit_decision:
  "unit_decision (evaluate_unit rules u) =
     (if unit_matched rules RuleDeny u then UnitDeny
      else if unit_matched rules RuleAllow u then UnitAllow else UnitDefault)"
  by (cases "classification u")
    (auto simp: evaluate_unit_def unit_matched_def matching_rule_source_None [symmetric] split: option.splits)

lemma first_with_None: "first_with d outs = None \<longleftrightarrow> \<not> list_ex (\<lambda>out. unit_decision out = d) outs"
proof -
  have "first_with d outs = None \<longleftrightarrow> (\<forall>i < length outs. unit_decision (outs ! i) \<noteq> d)"
    by (auto simp: first_with_def find_None_iff set_zip)
  then show ?thesis by (simp add: list_ex_iff all_set_conv_all_nth)
qed

lemma first_deny_None:
  "first_with UnitDeny (map (evaluate_unit rules) us) = None \<longleftrightarrow> \<not> list_ex (unit_matched rules RuleDeny) us"
  by (simp add: first_with_None list_ex_iff evaluate_unit_decision)

lemma all_allowed:
  "\<not> list_ex (unit_matched rules RuleDeny) us \<Longrightarrow>
     list_all (\<lambda>out. unit_decision out = UnitAllow) (map (evaluate_unit rules) us)
       \<longleftrightarrow> list_all (unit_matched rules RuleAllow) us"
  by (auto simp: list_all_iff list_ex_iff evaluate_unit_decision split: if_splits)

lemma final_default_decision_allow: "final_default_decision d = FinalAllow \<longleftrightarrow> d = ShellAllow"
  by (cases d) simp_all

lemma evaluate_bash_analysis_iff:
  "final_decision (evaluate_bash_analysis command analysis rules mode) = FinalAllow
     \<longleftrightarrow> bash_admitted analysis rules mode"
proof (cases "list_ex (unit_matched rules RuleDeny) (command_units analysis)")
  case True
  then obtain i s where "first_with UnitDeny (map (evaluate_unit rules) (command_units analysis)) = Some (i, s)"
    using first_deny_None [of rules "command_units analysis"] by fastforce
  with True show ?thesis by (simp add: evaluate_bash_analysis_def bash_admitted_def Let_def)
next
  case False
  then have "first_with UnitDeny (map (evaluate_unit rules) (command_units analysis)) = None"
    by (simp only: first_deny_None not_False_eq_True)
  with False all_allowed [OF False] show ?thesis
    by (auto simp: evaluate_bash_analysis_def bash_admitted_def final_default_decision_allow Let_def
        split: option.split)
qed

lemma prepare_bash_call_admitted:
  assumes "prepare_bash_call env runtime mode request w = Inr (program, command, cwd, timeout_ms)"
  shows "bash_admitted (analyze_bash_command env command) (governance_rules (bash_governance runtime)) mode"
proof -
  have "final_decision (evaluate_bash_command env command (governance_rules (bash_governance runtime)) mode) \<noteq> FinalDeny"
    using assms by (auto simp: prepare_bash_call_def and_then_Inr Let_def split: if_splits option.splits)
  then show ?thesis
    using evaluate_bash_analysis_iff final_governance_decision.exhaust unfolding evaluate_bash_command_def by metis
qed

lemma prepare_bash_call_process: "prepare_bash_call (env\<lparr>run_bash := f\<rparr>) = prepare_bash_call env"
proof -
  have "evaluate_bash_command (env\<lparr>run_bash := f\<rparr>) = evaluate_bash_command env"
    by (intro ext) (simp add: evaluate_bash_command_def)
  moreover have "bash_cwd (env\<lparr>run_bash := f\<rparr>) = bash_cwd env" by simp
  ultimately show ?thesis by (intro ext) (simp only: prepare_bash_call_def)
qed

lemma last_bash_exec_args: "last (bash_exec_args command login) = command"
  by (simp add: bash_exec_args_def)

text \<open>
  C7: no ungoverned command reaches bash.  The tool behaves the same when the process is replaced by one
  that does anything else on a command that is not admitted: one with a unit that a deny rule matches,
  under whatever default, or, unless the default allows, one that does not parse reliably, holds no
  unit, or holds a unit that is no plain command or that no allow rule matches.
\<close>

theorem bash_runs_only_admitted_commands:
  "execute_bash_tool_with_config
     (env\<lparr>run_bash := (\<lambda>program args cwd timeout w.
        if bash_admitted (analyze_bash_command env (last args)) (governance_rules (bash_governance runtime)) mode
        then run_bash env program args cwd timeout w else other program args cwd timeout w)\<rparr>)
     runtime mode request w
   = execute_bash_tool_with_config env runtime mode request w"
proof (cases "prepare_bash_call env runtime mode request w")
  case (Inr call)
  then show ?thesis
    using prepare_bash_call_admitted [of env runtime mode request w]
    by (cases call) (simp add: execute_bash_tool_with_config_def prepare_bash_call_process last_bash_exec_args)
qed (simp add: execute_bash_tool_with_config_def prepare_bash_call_process)

text \<open>The deny list of the shell holds inside bash as well, in any case of letters and under any default.\<close>

lemma shell_deny_holds_in_bash:
  assumes "d \<in> set deny" and "trim d \<noteq> []" and "to_ascii_lowercase name = to_ascii_lowercase (trim d)"
    and "u \<in> set (command_units analysis)" and "classification u = GovernablePlainCommand (name # args)"
  shows "\<not> bash_admitted analysis (governance_rules (build_bash_governance_runtime_policy loaded allow deny)) mode"
proof -
  let ?n = "to_ascii_lowercase (trim d)"
  let ?r = "\<lparr>rule_source = ''shell_deny:'' @ ?n, rule_prefix = [?n], rule_decision = RuleDeny,
    rule_origin = LegacyShellCompatibility\<rparr>"
  have "?n \<noteq> []" using assms(2) by (simp add: to_ascii_lowercase_def)
  then have "?r \<in> set (translate_legacy_shell_rules ''shell_deny'' RuleDeny deny)"
    using assms(1) by (auto simp: translate_legacy_shell_rules_def List.map_filter_def Let_def image_iff intro!: bexI [of _ d])
  then have "?r \<in> set (governance_rules (build_bash_governance_runtime_policy loaded allow deny))"
    by (simp add: build_bash_governance_runtime_policy_def Let_def split: sum.split)
  moreover have "rule_matches ?r (name # args)" using assms(3) by (simp add: rule_matches_def)
  ultimately have "unit_matched (governance_rules (build_bash_governance_runtime_policy loaded allow deny)) RuleDeny u"
    using assms(5) by (auto simp: unit_matched_def list_ex_iff intro!: bexI [of _ ?r])
  with assms(4) show ?thesis by (auto simp: bash_admitted_def list_ex_iff)
qed

section \<open>The script mode of exec\<close>

text \<open>
  C37: the script mode of \<open>exec\<close> never runs.  A request to \<open>exec\<close> that gives a \<open>script\<close> and no \<open>command\<close>, in
  a runtime that offers \<open>bash.exec\<close>, is routed to \<open>bash.exec\<close> with its payload unchanged; there it is
  refused, before anything else is looked at, for unknown fields among which is \<open>script\<close>.
\<close>

theorem script_mode_never_runs:
  assumes "tool_name request = ''exec''" and "tool_payload request = JObject m"
    and "trimmed_field (JObject m) ''script'' = Some script" and "trimmed_field (JObject m) ''command'' = None"
    and "''bash.exec'' \<in> view"
  shows "\<exists>unknown. route_direct_tool_request view request
      = Inr \<lparr>tool_name = ''bash.exec'', tool_payload = tool_payload request\<rparr>
    \<and> ''script'' \<in> set unknown
    \<and> execute_bash_tool_with_config env runtime mode
        \<lparr>tool_name = ''bash.exec'', tool_payload = tool_payload request\<rparr> w
      = (w, Inl (''bash.exec payload contains unknown field(s): '' @ join '', '' unknown))"
proof -
  let ?unknown = "sort (filter (\<lambda>key. key \<notin> set bash_exec_allowed_fields) (map fst m))"
  have "map_of m ''script'' \<noteq> None"
    using assms(3) by (cases "map_of m ''script''") (simp_all add: trimmed_field_def trimmed_non_empty_path_def)
  then have script: "''script'' \<in> set ?unknown"
    by (auto simp: map_of_eq_None_iff bash_exec_allowed_fields_def)
  then have "?unknown \<noteq> []" by (metis empty_iff list.set(1))
  then have e: "reject_unknown_bash_exec_fields m
      = Inl (''bash.exec payload contains unknown field(s): '' @ join '', '' ?unknown)"
    by (simp add: reject_unknown_bash_exec_fields_def Let_def)
  have "route_direct_exec_tool_name (JObject m) = Inr ''bash.exec''"
    using assms(3,4) by (simp add: route_direct_exec_tool_name_def)
  then have "route_direct_tool_request view request
      = Inr \<lparr>tool_name = ''bash.exec'', tool_payload = tool_payload request\<rparr>"
    using assms(1,2,5) by (simp add: route_direct_tool_request_def route_direct_tool_name_for_view_def
        route_direct_tool_name_def and_then_def)
  moreover have "execute_bash_tool_with_config env runtime mode
        \<lparr>tool_name = ''bash.exec'', tool_payload = tool_payload request\<rparr> w
      = (w, Inl (''bash.exec payload contains unknown field(s): '' @ join '', '' ?unknown))"
    by (simp add: assms(2) execute_bash_tool_with_config_def prepare_bash_call_def and_then_def ok_or_def e)
  ultimately show ?thesis using script by blast
qed

definition sample_bash_env :: "unit bash_env" where
  "sample_bash_env = \<lparr>analyze_bash_command = (\<lambda>_. \<lparr>parse_unreliable = False, command_units = []\<rparr>),
     bash_cwd = (\<lambda>_ _. Inr ''/''), run_bash = (\<lambda>_ _ _ _ w. (w, Inl []))\<rparr>"

theorem script_mode_never_runs_witness:
  "\<exists>unknown. execute_bash_tool_with_config sample_bash_env
       \<lparr>bash_available = True, bash_command = Some ''/bin/bash'', bash_login_shell = False,
        bash_governance = \<lparr>governance_rules = [], governance_load_error = None\<rparr>\<rparr> ShellAllow
       \<lparr>tool_name = ''bash.exec'', tool_payload = JObject [(''script'', JString ''ls | wc'')]\<rparr> ()
     = ((), Inl (''bash.exec payload contains unknown field(s): '' @ join '', '' unknown))
     \<and> ''script'' \<in> set unknown"
proof -
  have "trimmed_field (JObject [(''script'', JString ''ls | wc'')]) ''script'' = Some ''ls | wc''"
    "trimmed_field (JObject [(''script'', JString ''ls | wc'')]) ''command'' = None" by code_simp+
  from script_mode_never_runs [OF _ _ this, of
      "\<lparr>tool_name = ''exec'', tool_payload = JObject [(''script'', JString ''ls | wc'')]\<rparr>" "{''bash.exec''}"
      sample_bash_env _ ShellAllow "()"]
  show ?thesis by fastforce
qed

end
