(* ===== verification/Integration_Catalog.thy ===== *)
theory Integration_Catalog
  imports Kernel_Core
begin

text \<open>
  The catalog of providers and channels and the agent that provisions them
  (\<open>kernel/src/integration.rs\<close>): a plan repairs the catalog and extends the pack so that a request can
  be served.
\<close>

section \<open>The catalog\<close>

record provider_config =
  provider_id :: string
  provider_connector :: string
  provider_version :: string
  provider_metadata :: "(string, string) btree_map"

record channel_config =
  channel_id :: string
  channel_provider :: string
  channel_endpoint :: string
  channel_enabled :: bool
  channel_metadata :: "(string, string) btree_map"

record provider_template =
  template_provider_id :: string
  default_connector_name :: string
  default_version :: string
  template_metadata :: "(string, string) btree_map"

record integration_catalog =
  providers :: "(string, provider_config) btree_map"
  channels :: "(string, channel_config) btree_map"
  templates :: "(string, provider_template) btree_map"
  revision :: u64

definition catalog_new :: integration_catalog where
  "catalog_new = \<lparr>providers = bt_empty, channels = bt_empty, templates = bt_empty, revision = 0\<rparr>"

definition register_template :: "provider_template \<Rightarrow> integration_catalog \<Rightarrow> integration_catalog" where
  "register_template t cat = cat\<lparr>templates := bt_insert (template_provider_id t) t (templates cat)\<rparr>"

definition bump_revision :: "integration_catalog \<Rightarrow> integration_catalog" where
  "bump_revision cat = cat\<lparr>revision := sat_add_u64 (revision cat) 1\<rparr>"

definition upsert_provider :: "provider_config \<Rightarrow> integration_catalog \<Rightarrow> integration_catalog" where
  "upsert_provider p cat = bump_revision (cat\<lparr>providers := bt_insert (provider_id p) p (providers cat)\<rparr>)"

definition upsert_channel :: "channel_config \<Rightarrow> integration_catalog \<Rightarrow> integration_catalog" where
  "upsert_channel c cat = bump_revision (cat\<lparr>channels := bt_insert (channel_id c) c (channels cat)\<rparr>)"

definition channels_for_provider :: "integration_catalog \<Rightarrow> string \<Rightarrow> channel_config list" where
  "channels_for_provider cat pid = filter (\<lambda>c. channel_provider c = pid) (bt_values (channels cat))"

section \<open>Plans and hotfixes\<close>

datatype provision_action =
    AddProvider provider_config string
  | PatchProvider provider_config string
  | AddChannel channel_config string
  | PatchChannel channel_config string

record provision_plan =
  plan_actions :: "provision_action list"
  pack_connector_additions :: "string set"
  pack_capability_additions :: "capability set"

definition is_noop :: "provision_plan \<Rightarrow> bool" where
  "is_noop p \<longleftrightarrow> plan_actions p = [] \<and> pack_connector_additions p = {} \<and> pack_capability_additions p = {}"

fun apply_action :: "provision_action \<Rightarrow> integration_catalog \<Rightarrow> integration_catalog" where
  "apply_action (AddProvider p _) cat = upsert_provider p cat"
| "apply_action (PatchProvider p _) cat = upsert_provider p cat"
| "apply_action (AddChannel c _) cat = upsert_channel c cat"
| "apply_action (PatchChannel c _) cat = upsert_channel c cat"

definition apply_plan ::
    "provision_plan \<Rightarrow> integration_catalog \<Rightarrow> vertical_pack_manifest
       \<Rightarrow> (integration_catalog \<times> vertical_pack_manifest) \<times> (integration_error + unit)" where
  "apply_plan p cat pack =
     ((fold apply_action (plan_actions p) cat,
       pack\<lparr>allowed_connectors := allowed_connectors pack \<union> pack_connector_additions p,
         granted_capabilities := granted_capabilities pack \<union> pack_capability_additions p\<rparr>), Inr ())"

datatype integration_hotfix =
    ProviderVersion string string
  | ProviderConnector string string
  | ChannelEndpoint string string
  | ChannelEnabled string bool

fun apply_hotfix :: "integration_hotfix \<Rightarrow> integration_catalog \<Rightarrow> integration_catalog \<times> (integration_error + unit)" where
  "apply_hotfix (ProviderVersion pid v) cat =
     (case bt_get (providers cat) pid of
        None \<Rightarrow> (cat, Inl (ProviderNotFound pid))
      | Some p \<Rightarrow>
          (bump_revision (cat\<lparr>providers := bt_insert pid (p\<lparr>provider_version := v\<rparr>) (providers cat)\<rparr>), Inr ()))"
| "apply_hotfix (ProviderConnector pid n) cat =
     (case bt_get (providers cat) pid of
        None \<Rightarrow> (cat, Inl (ProviderNotFound pid))
      | Some p \<Rightarrow>
          (bump_revision (cat\<lparr>providers := bt_insert pid (p\<lparr>provider_connector := n\<rparr>) (providers cat)\<rparr>), Inr ()))"
| "apply_hotfix (ChannelEndpoint cid e) cat =
     (case bt_get (channels cat) cid of
        None \<Rightarrow> (cat, Inl (ChannelNotFound cid))
      | Some c \<Rightarrow>
          (bump_revision (cat\<lparr>channels := bt_insert cid (c\<lparr>channel_endpoint := e\<rparr>) (channels cat)\<rparr>), Inr ()))"
| "apply_hotfix (ChannelEnabled cid b) cat =
     (case bt_get (channels cat) cid of
        None \<Rightarrow> (cat, Inl (ChannelNotFound cid))
      | Some c \<Rightarrow>
          (bump_revision (cat\<lparr>channels := bt_insert cid (c\<lparr>channel_enabled := b\<rparr>) (channels cat)\<rparr>), Inr ()))"

section \<open>The provisioning agent\<close>

record auto_provision_request =
  request_provider :: string
  request_channel :: string
  request_connector :: "string option"
  request_endpoint :: "string option"
  request_capabilities :: "capability set"

definition new_provider_from_request :: "integration_catalog \<Rightarrow> auto_provision_request \<Rightarrow> provider_config" where
  "new_provider_from_request cat req =
     (case bt_get (templates cat) (request_provider req) of
        Some t \<Rightarrow>
          \<lparr>provider_id = template_provider_id t,
           provider_connector = (case request_connector req of Some n \<Rightarrow> n | None \<Rightarrow> default_connector_name t),
           provider_version = default_version t, provider_metadata = template_metadata t\<rparr>
      | None \<Rightarrow>
          \<lparr>provider_id = request_provider req,
           provider_connector = (case request_connector req of
               Some n \<Rightarrow> n | None \<Rightarrow> request_provider req @ ''-connector''),
           provider_version = ''0.1.0'',
           provider_metadata = bt_insert ''source'' ''auto-generated'' bt_empty\<rparr>)"

definition plan_provider ::
    "integration_catalog \<Rightarrow> auto_provision_request \<Rightarrow> provision_action list \<times> provider_config" where
  "plan_provider cat req =
     (case bt_get (providers cat) (request_provider req) of
        Some existing \<Rightarrow>
          (case request_connector req of
             Some expected \<Rightarrow>
               if provider_connector existing \<noteq> expected then
                 let patched = existing\<lparr>provider_connector := expected\<rparr> in
                 ([PatchProvider patched ''connector override required by request''], patched)
               else ([], existing)
           | None \<Rightarrow> ([], existing))
      | None \<Rightarrow>
          let new_provider = new_provider_from_request cat req in
          ([AddProvider new_provider ''provider missing and generated from template''], new_provider))"

definition plan_channel ::
    "integration_catalog \<Rightarrow> auto_provision_request \<Rightarrow> provider_config
       \<Rightarrow> provision_action list \<times> channel_config" where
  "plan_channel cat req provider =
     (case bt_get (channels cat) (request_channel req) of
        Some existing \<Rightarrow>
          let rebind = channel_provider existing \<noteq> provider_id provider;
              patched = (if rebind then existing\<lparr>channel_provider := provider_id provider\<rparr> else existing);
              enable = \<not> channel_enabled patched;
              patched = (if enable then patched\<lparr>channel_enabled := True\<rparr> else patched);
              (move, patched) = (case request_endpoint req of
                  Some e \<Rightarrow> if channel_endpoint patched \<noteq> e then (True, patched\<lparr>channel_endpoint := e\<rparr>) else (False, patched)
                | None \<Rightarrow> (False, patched)) in
          if rebind \<or> enable \<or> move then
            ([PatchChannel patched ''channel requires repair for provider binding or endpoint''], patched)
          else ([], existing)
      | None \<Rightarrow>
          let new_channel = \<lparr>channel_id = request_channel req, channel_provider = provider_id provider,
                channel_endpoint = (case request_endpoint req of
                    Some e \<Rightarrow> e
                  | None \<Rightarrow> ''https://'' @ provider_id provider @ ''.local/'' @ request_channel req @ ''/invoke''),
                channel_enabled = True, channel_metadata = bt_empty\<rparr> in
          ([AddChannel new_channel ''channel missing and generated from provider defaults''], new_channel))"

definition provision_plan_for ::
    "integration_catalog \<Rightarrow> vertical_pack_manifest \<Rightarrow> auto_provision_request
       \<Rightarrow> integration_error + provision_plan" where
  "provision_plan_for cat pack req =
     (let (provider_actions, provider) = plan_provider cat req;
          (channel_actions, channel) = plan_channel cat req provider;
          connector_name = provider_connector provider in
      if \<not> channel_enabled channel then Inl (ChannelDisabled (channel_id channel))
      else Inr \<lparr>plan_actions = provider_actions @ channel_actions,
        pack_connector_additions =
          (if connector_name \<notin> allowed_connectors pack then {connector_name} else {}),
        pack_capability_additions =
          (if InvokeConnector \<notin> granted_capabilities pack then {InvokeConnector} else {})
          \<union> {c \<in> request_capabilities req. c \<notin> granted_capabilities pack}\<rparr>)"

section \<open>The keys of the catalog\<close>

definition catalog_inv :: "integration_catalog \<Rightarrow> bool" where
  "catalog_inv cat \<longleftrightarrow>
     bt_ok (providers cat) \<and> bt_ok (channels cat) \<and> bt_ok (templates cat)
     \<and> (\<forall>k p. bt_get (providers cat) k = Some p \<longrightarrow> provider_id p = k)
     \<and> (\<forall>k c. bt_get (channels cat) k = Some c \<longrightarrow> channel_id c = k)
     \<and> (\<forall>k t. bt_get (templates cat) k = Some t \<longrightarrow> template_provider_id t = k)"

lemma bump_revision_simps [simp]:
  "providers (bump_revision cat) = providers cat" "channels (bump_revision cat) = channels cat"
  "templates (bump_revision cat) = templates cat" "revision (bump_revision cat) = sat_add_u64 (revision cat) 1"
  by (simp_all add: bump_revision_def)

lemma catalog_inv_new: "catalog_inv catalog_new"
  by (simp add: catalog_inv_def catalog_new_def)

lemma catalog_inv_template: "catalog_inv cat \<Longrightarrow> catalog_inv (register_template t cat)"
  by (simp add: catalog_inv_def register_template_def)

lemma catalog_inv_action: "catalog_inv cat \<Longrightarrow> catalog_inv (apply_action a cat)"
  by (cases a) (simp_all add: catalog_inv_def upsert_provider_def upsert_channel_def)

lemma catalog_inv_fold: "catalog_inv cat \<Longrightarrow> catalog_inv (fold apply_action acts cat)"
  by (induction acts arbitrary: cat) (simp_all add: catalog_inv_action)

lemma catalog_inv_hotfix: "catalog_inv cat \<Longrightarrow> catalog_inv (fst (apply_hotfix h cat))"
  by (cases h) (auto simp: catalog_inv_def split: option.splits)

text \<open>The states that the operations reach.\<close>

inductive catalog_reachable :: "integration_catalog \<Rightarrow> bool" where
  new: "catalog_reachable catalog_new"
| template: "catalog_reachable cat \<Longrightarrow> catalog_reachable (register_template t cat)"
| provider: "catalog_reachable cat \<Longrightarrow> catalog_reachable (upsert_provider p cat)"
| channel: "catalog_reachable cat \<Longrightarrow> catalog_reachable (upsert_channel c cat)"
| provision: "catalog_reachable cat \<Longrightarrow> catalog_reachable (fst (fst (apply_plan p cat pack)))"
| hotfix: "catalog_reachable cat \<Longrightarrow> catalog_reachable (fst (apply_hotfix h cat))"

lemma catalog_reachable_inv: "catalog_reachable cat \<Longrightarrow> catalog_inv cat"
proof (induction rule: catalog_reachable.induct)
  case (provider cat p)
  then show ?case using catalog_inv_action [of cat "AddProvider p []"] by simp
next
  case (channel cat c)
  then show ?case using catalog_inv_action [of cat "AddChannel c []"] by simp
qed (simp_all add: catalog_inv_new catalog_inv_template catalog_inv_hotfix catalog_inv_fold apply_plan_def)

section \<open>What provisioning achieves\<close>

lemma plan_provider_settles:
  assumes "catalog_inv cat" and "plan_provider cat req = (acts, p)"
  shows "provider_id p = request_provider req"
    and "bt_get (providers (fold apply_action acts cat)) (request_provider req) = Some p"
    and "case request_connector req of Some n \<Rightarrow> provider_connector p = n | None \<Rightarrow> True"
    and "channels (fold apply_action acts cat) = channels cat"
  using assms by (auto simp: plan_provider_def new_provider_from_request_def upsert_provider_def catalog_inv_def Let_def
      split: option.splits if_splits)

lemma plan_channel_settles:
  assumes "catalog_inv cat" and "plan_channel cat req p = (acts, c)"
  shows "bt_get (channels (fold apply_action acts cat)) (request_channel req) = Some c"
    and "channel_provider c = provider_id p" and "channel_enabled c"
    and "case request_endpoint req of Some e \<Rightarrow> channel_endpoint c = e | None \<Rightarrow> True"
    and "providers (fold apply_action acts cat) = providers cat"
  using assms by (auto simp: plan_channel_def upsert_channel_def catalog_inv_def Let_def
      split: option.splits if_splits)

lemma plan_channel_same_channels:
  "channels cat = channels cat' \<Longrightarrow> plan_channel cat req p = plan_channel cat' req p"
  by (simp add: plan_channel_def)

lemma settled_plan_noop:
  assumes "bt_get (providers cat) (request_provider req) = Some p"
    and "case request_connector req of Some n \<Rightarrow> provider_connector p = n | None \<Rightarrow> True"
    and "bt_get (channels cat) (request_channel req) = Some c"
    and "channel_provider c = provider_id p" "channel_enabled c"
    and "case request_endpoint req of Some e \<Rightarrow> channel_endpoint c = e | None \<Rightarrow> True"
    and "provider_connector p \<in> allowed_connectors pack"
    and "insert InvokeConnector (request_capabilities req) \<subseteq> granted_capabilities pack"
  shows "\<exists>q. provision_plan_for cat pack req = Inr q \<and> is_noop q"
proof -
  have "plan_provider cat req = ([], p)" using assms(1,2) by (simp add: plan_provider_def split: option.splits)
  moreover have "plan_channel cat req p = ([], c)"
    using assms(3-6) by (simp add: plan_channel_def split: option.splits)
  ultimately show ?thesis using assms(5,7,8) by (auto simp: provision_plan_for_def is_noop_def)
qed

text \<open>
  C30: provisioning settles a request.  In every reachable catalog the agent finds a plan; applying it
  leaves the provider with the connector that was asked for, the channel enabled, bound to the
  provider and at the endpoint that was asked for, and the pack with exactly the capabilities and the
  connector that the request needs in addition; and planning the same request again has nothing left
  to do.
\<close>

theorem provisioning_settles:
  assumes "catalog_reachable cat"
  shows "\<exists>plan cat' pack' p c. provision_plan_for cat pack req = Inr plan
    \<and> apply_plan plan cat pack = ((cat', pack'), Inr ())
    \<and> bt_get (providers cat') (request_provider req) = Some p
    \<and> (case request_connector req of Some n \<Rightarrow> provider_connector p = n | None \<Rightarrow> True)
    \<and> bt_get (channels cat') (request_channel req) = Some c
    \<and> channel_enabled c \<and> channel_provider c = request_provider req
    \<and> (case request_endpoint req of Some e \<Rightarrow> channel_endpoint c = e | None \<Rightarrow> True)
    \<and> granted_capabilities pack' = granted_capabilities pack \<union> insert InvokeConnector (request_capabilities req)
    \<and> allowed_connectors pack' = insert (provider_connector p) (allowed_connectors pack)
    \<and> (\<exists>again. provision_plan_for cat' pack' req = Inr again \<and> is_noop again)"
proof -
  have inv: "catalog_inv cat" by (rule catalog_reachable_inv [OF assms])
  obtain pa p where p: "plan_provider cat req = (pa, p)" by fastforce
  define mid where "mid = fold apply_action pa cat"
  have mid: "catalog_inv mid" by (simp add: mid_def catalog_inv_fold [OF inv])
  obtain ca c where c: "plan_channel mid req p = (ca, c)" by fastforce
  note P = plan_provider_settles [OF inv p, folded mid_def]
  note C = plan_channel_settles [OF mid c]
  define cat' where "cat' = fold apply_action (pa @ ca) cat"
  have cat': "cat' = fold apply_action ca mid" by (simp add: cat'_def mid_def)
  have c0: "plan_channel cat req p = (ca, c)"
    using c plan_channel_same_channels [OF P(4)] by simp
  define plan where "plan = \<lparr>plan_actions = pa @ ca,
    pack_connector_additions = (if provider_connector p \<notin> allowed_connectors pack then {provider_connector p} else {}),
    pack_capability_additions = (if InvokeConnector \<notin> granted_capabilities pack then {InvokeConnector} else {})
      \<union> {c \<in> request_capabilities req. c \<notin> granted_capabilities pack}\<rparr>"
  have planned: "provision_plan_for cat pack req = Inr plan"
    using p c0 C(3) by (simp add: provision_plan_for_def plan_def)
  define pack' where "pack' = pack\<lparr>allowed_connectors := allowed_connectors pack \<union> pack_connector_additions plan,
    granted_capabilities := granted_capabilities pack \<union> pack_capability_additions plan\<rparr>"
  have applied: "apply_plan plan cat pack = ((cat', pack'), Inr ())"
    by (simp add: apply_plan_def pack'_def cat'_def plan_def)
  have pack': "granted_capabilities pack' = granted_capabilities pack \<union> insert InvokeConnector (request_capabilities req)"
    "allowed_connectors pack' = insert (provider_connector p) (allowed_connectors pack)"
    by (auto simp: pack'_def plan_def)
  have prov: "bt_get (providers cat') (request_provider req) = Some p" using P(2) C(5) by (simp add: cat')
  have chan: "bt_get (channels cat') (request_channel req) = Some c" using C(1) by (simp add: cat')
  have "\<exists>again. provision_plan_for cat' pack' req = Inr again \<and> is_noop again"
    by (intro settled_plan_noop [OF prov P(3) chan C(2,3,4)]) (auto simp: pack')
  with planned applied prov chan P(1,3) C(2-4) pack' show ?thesis
    by (intro exI [of _ plan] exI [of _ cat'] exI [of _ pack'] exI [of _ p] exI [of _ c]) simp
qed

definition sample_provision :: auto_provision_request where
  "sample_provision = \<lparr>request_provider = ''openai'', request_channel = ''chat'', request_connector = None,
     request_endpoint = Some ''https://api'', request_capabilities = {InvokeTool}\<rparr>"

definition bare_pack :: vertical_pack_manifest where
  "bare_pack = \<lparr>pack_id = ''p'', pack_domain = ''d'', pack_version = ''0.1.0'',
     default_route = \<lparr>route_harness_kind = EmbeddedPi, route_adapter = None\<rparr>,
     allowed_connectors = {}, granted_capabilities = {}, pack_metadata = []\<rparr>"

theorem provisioning_settles_witness:
  "\<exists>plan cat' pack'. provision_plan_for catalog_new bare_pack sample_provision = Inr plan
     \<and> apply_plan plan catalog_new bare_pack = ((cat', pack'), Inr ())
     \<and> granted_capabilities pack' = {InvokeConnector, InvokeTool}"
proof -
  from provisioning_settles [OF catalog_reachable.new, of bare_pack sample_provision]
  obtain plan cat' pack' where "provision_plan_for catalog_new bare_pack sample_provision = Inr plan"
    "apply_plan plan catalog_new bare_pack = ((cat', pack'), Inr ())"
    "granted_capabilities pack' = granted_capabilities bare_pack
      \<union> insert InvokeConnector (request_capabilities sample_provision)"
    by blast
  then show ?thesis by (simp add: bare_pack_def sample_provision_def)
qed

end
