(* ===== verification/Plugin_Bootstrap.thy ===== *)
theory Plugin_Bootstrap
  imports Loong_Prelude
begin

text \<open>
  Which activated plugins are applied without asking (\<open>kernel/src/bootstrap.rs\<close>): the executor walks
  over the candidates of an activation plan (\<open>plugin_ir.rs\<close>) and applies, defers or skips each under
  the bootstrap policy.  Of a candidate only the fields that the executor reads are modelled.
\<close>

section \<open>Plans and policies\<close>

datatype plugin_bridge_kind = HttpJson | ProcessStdio | NativeFfi | WasmComponent | McpServer | AcpBridge
  | AcpRuntime | UnknownBridge

datatype plugin_trust_tier = Official | VerifiedCommunity | Unverified

datatype plugin_compatibility_mode = NativeMode | OpenClawModern | OpenClawLegacy

record plugin_compatibility_shim =
  shim_id :: string
  shim_family :: string

datatype plugin_activation_status = Ready | SetupIncomplete | BlockedInvalidManifestContract
  | BlockedCompatibilityMode | BlockedIncompatibleHost | BlockedUnsupportedBridge
  | BlockedUnsupportedAdapterFamily | BlockedSlotClaimConflict | UnknownStatus

record plugin_identity =
  plugin_id :: string
  source_path :: string
  trust_tier :: plugin_trust_tier
  compatibility_mode :: plugin_compatibility_mode
  compatibility_shim :: "plugin_compatibility_shim option"
  bridge_kind :: plugin_bridge_kind
  adapter_family :: string
  bootstrap_hint :: string

record plugin_activation_candidate = plugin_identity +
  activation_status :: plugin_activation_status

record bootstrap_policy =
  allow_http_json_auto_apply :: bool
  allow_process_stdio_auto_apply :: bool
  allow_native_ffi_auto_apply :: bool
  allow_wasm_component_auto_apply :: bool
  allow_mcp_server_auto_apply :: bool
  allow_acp_bridge_auto_apply :: bool
  allow_acp_runtime_auto_apply :: bool
  block_unverified_high_risk_auto_apply :: bool
  enforce_ready_execution :: bool
  max_tasks :: usize

definition bootstrap_policy_default :: bootstrap_policy where
  "bootstrap_policy_default = \<lparr>allow_http_json_auto_apply = True, allow_process_stdio_auto_apply = False,
     allow_native_ffi_auto_apply = False, allow_wasm_component_auto_apply = False,
     allow_mcp_server_auto_apply = False, allow_acp_bridge_auto_apply = False,
     allow_acp_runtime_auto_apply = False, block_unverified_high_risk_auto_apply = False,
     enforce_ready_execution = False, max_tasks = 256\<rparr>"

datatype bootstrap_task_status = Applied | DeferredUnsupportedAutoApply | SkippedNotReady | SkippedByPolicyLimit

record bootstrap_task = plugin_identity +
  task_status :: bootstrap_task_status
  task_reason :: string

record bootstrap_report =
  total_tasks :: usize
  applied_tasks :: usize
  deferred_tasks :: usize
  skipped_tasks :: usize
  report_blocked :: bool
  block_reason :: "string option"
  applied_plugin_keys :: "(string \<times> string) set"
  report_tasks :: "bootstrap_task list"

definition bootstrap_report_default :: bootstrap_report where
  "bootstrap_report_default = \<lparr>total_tasks = 0, applied_tasks = 0, deferred_tasks = 0, skipped_tasks = 0,
     report_blocked = False, block_reason = None, applied_plugin_keys = {}, report_tasks = []\<rparr>"

section \<open>The executor\<close>

fun bridge_auto_apply_allowed :: "plugin_bridge_kind \<Rightarrow> bootstrap_policy \<Rightarrow> bool" where
  "bridge_auto_apply_allowed HttpJson policy = allow_http_json_auto_apply policy"
| "bridge_auto_apply_allowed ProcessStdio policy = allow_process_stdio_auto_apply policy"
| "bridge_auto_apply_allowed NativeFfi policy = allow_native_ffi_auto_apply policy"
| "bridge_auto_apply_allowed WasmComponent policy = allow_wasm_component_auto_apply policy"
| "bridge_auto_apply_allowed McpServer policy = allow_mcp_server_auto_apply policy"
| "bridge_auto_apply_allowed AcpBridge policy = allow_acp_bridge_auto_apply policy"
| "bridge_auto_apply_allowed AcpRuntime policy = allow_acp_runtime_auto_apply policy"
| "bridge_auto_apply_allowed UnknownBridge policy = False"

definition plugin_bridge_is_high_risk_auto_apply :: "plugin_bridge_kind \<Rightarrow> bool" where
  "plugin_bridge_is_high_risk_auto_apply bridge \<longleftrightarrow>
     bridge \<in> {ProcessStdio, NativeFfi, WasmComponent, McpServer, AcpBridge, AcpRuntime}"

definition push_task ::
    "plugin_activation_candidate \<Rightarrow> bootstrap_task_status \<Rightarrow> string \<Rightarrow> bootstrap_report \<Rightarrow> bootstrap_report" where
  "push_task c st reason r = r\<lparr>report_tasks := report_tasks r
     @ [\<lparr>plugin_id = plugin_id c, source_path = source_path c, trust_tier = trust_tier c,
       compatibility_mode = compatibility_mode c, compatibility_shim = compatibility_shim c,
       bridge_kind = bridge_kind c, adapter_family = adapter_family c, bootstrap_hint = bootstrap_hint c,
       task_status = st, task_reason = reason\<rparr>]\<rparr>"

definition bootstrap_candidate ::
    "bootstrap_policy \<Rightarrow> plugin_activation_candidate \<Rightarrow> bootstrap_report \<times> usize \<Rightarrow> bootstrap_report \<times> usize" where
  "bootstrap_candidate policy c st =
     (let (r, ready_handled) = st;
          r = r\<lparr>total_tasks := sat_inc (total_tasks r)\<rparr> in
      if activation_status c \<noteq> Ready then
        (push_task c SkippedNotReady ''activation status is not ready''
           (r\<lparr>skipped_tasks := sat_inc (skipped_tasks r)\<rparr>), ready_handled)
      else if max_tasks policy \<le> ready_handled then
        (push_task c SkippedByPolicyLimit (''max bootstrap task limit reached: '' @ show_nat (max_tasks policy))
           (r\<lparr>skipped_tasks := sat_inc (skipped_tasks r)\<rparr>), ready_handled)
      else
        let ready_handled = sat_inc ready_handled in
        if block_unverified_high_risk_auto_apply policy \<and> trust_tier c = Unverified
            \<and> plugin_bridge_is_high_risk_auto_apply (bridge_kind c) then
          (push_task c DeferredUnsupportedAutoApply
             ''bridge is ready but auto-apply is blocked by bootstrap trust policy for unverified high-risk plugins''
             (r\<lparr>deferred_tasks := sat_inc (deferred_tasks r)\<rparr>), ready_handled)
        else if bridge_auto_apply_allowed (bridge_kind c) policy then
          (push_task c Applied ''bridge is allowed for automatic bootstrap apply''
             (r\<lparr>applied_tasks := sat_inc (applied_tasks r),
                applied_plugin_keys := insert (source_path c, plugin_id c) (applied_plugin_keys r)\<rparr>), ready_handled)
        else
          (push_task c DeferredUnsupportedAutoApply ''bridge is ready but auto-apply is disabled by bootstrap policy''
             (r\<lparr>deferred_tasks := sat_inc (deferred_tasks r)\<rparr>), ready_handled))"

definition bootstrap_execute :: "plugin_activation_candidate list \<Rightarrow> bootstrap_policy \<Rightarrow> bootstrap_report" where
  "bootstrap_execute candidates policy =
     (let r = fst (fold (bootstrap_candidate policy) candidates (bootstrap_report_default, 0)) in
      if enforce_ready_execution policy \<and> 0 < deferred_tasks r then
        r\<lparr>report_blocked := True,
          block_reason := Some (''bootstrap policy blocked '' @ show_nat (deferred_tasks r)
            @ '' ready plugin(s) that were not auto-applied'')\<rparr>
      else r)"

section \<open>What is applied\<close>

text \<open>The verdict on one candidate, given the ready candidates before it.\<close>

definition may_auto_apply :: "bootstrap_policy \<Rightarrow> plugin_activation_candidate \<Rightarrow> bool" where
  "may_auto_apply policy c \<longleftrightarrow>
     bridge_auto_apply_allowed (bridge_kind c) policy
     \<and> \<not> (block_unverified_high_risk_auto_apply policy \<and> trust_tier c = Unverified
          \<and> plugin_bridge_is_high_risk_auto_apply (bridge_kind c))"

definition considered :: "bootstrap_policy \<Rightarrow> plugin_activation_candidate list \<Rightarrow> plugin_activation_candidate list" where
  "considered policy cs = take (max_tasks policy) (filter (\<lambda>c. activation_status c = Ready) cs)"

definition plugin_key :: "plugin_activation_candidate \<Rightarrow> string \<times> string" where
  "plugin_key c = (source_path c, plugin_id c)"

definition bootstrap_inv ::
    "bootstrap_policy \<Rightarrow> plugin_activation_candidate list \<Rightarrow> bootstrap_report \<times> usize \<Rightarrow> bool" where
  "bootstrap_inv policy cs st \<longleftrightarrow>
     (let r = fst st; ok = filter (may_auto_apply policy) (considered policy cs) in
      snd st = length (considered policy cs)
      \<and> total_tasks r = length cs \<and> applied_tasks r = length ok
      \<and> deferred_tasks r = length (considered policy cs) - length ok
      \<and> skipped_tasks r = length cs - length (considered policy cs)
      \<and> applied_plugin_keys r = plugin_key ` set ok
      \<and> map plugin_identity.truncate (report_tasks r) = map plugin_identity.truncate cs
      \<and> \<not> report_blocked r \<and> block_reason r = None)"

lemma considered_snoc:
  "considered policy (cs @ [c]) =
     (if activation_status c = Ready \<and> length (considered policy cs) < max_tasks policy
      then considered policy cs @ [c] else considered policy cs)"
  by (auto simp: considered_def)

lemma length_considered: "length (considered policy cs) \<le> length cs"
  unfolding considered_def 
  by (rule order_trans [OF _ length_filter_le [of "\<lambda>c. activation_status c = Ready"]]) simp

lemma considered_limit: "length (considered policy cs) \<le> max_tasks policy"
  by (simp add: considered_def)

lemma bootstrap_inv_step:
  assumes "bootstrap_inv policy cs st" and "length cs < usize_max"
  shows "bootstrap_inv policy (cs @ [c]) (bootstrap_candidate policy c st)"
proof -
  obtain r n where st: "st = (r, n)" by (cases st)
  let ?con = "considered policy cs"
  let ?ok = "filter (may_auto_apply policy) ?con"
  have le: "length ?ok \<le> length ?con" "length ?con \<le> length cs"
    by (simp_all add: length_considered)
  have inc: "sat_inc k = Suc k" if "k \<le> length cs" for k
    using that assms(2) by (simp add: sat_inc_below)
  note I = assms(1) [unfolded bootstrap_inv_def st Let_def fst_conv snd_conv]
  have incs: "sat_inc (total_tasks r) = Suc (length cs)" "sat_inc (applied_tasks r) = Suc (length ?ok)"
    "sat_inc (deferred_tasks r) = Suc (length ?con - length ?ok)"
    "sat_inc (skipped_tasks r) = Suc (length cs - length ?con)" "sat_inc n = Suc (length ?con)"
    using I le inc [OF order_trans [OF le]] by (simp_all add: inc)
  consider "activation_status c \<noteq> Ready" | "activation_status c = Ready" "max_tasks policy \<le> length ?con"
    | "activation_status c = Ready" "length ?con < max_tasks policy" "may_auto_apply policy c"
    | "activation_status c = Ready" "length ?con < max_tasks policy" "\<not> may_auto_apply policy c"
    by linarith
  then show ?thesis
    using I le incs
    by cases (auto simp: bootstrap_inv_def bootstrap_candidate_def st push_task_def considered_snoc plugin_key_def
        may_auto_apply_def Suc_diff_le plugin_identity.truncate_def Let_def)
qed

lemma bootstrap_inv_fold:
  "length cs \<le> usize_max \<Longrightarrow>
     bootstrap_inv policy cs (fold (bootstrap_candidate policy) cs (bootstrap_report_default, 0))"
proof (induction cs rule: rev_induct)
  case Nil
  show ?case by (simp add: bootstrap_inv_def bootstrap_report_default_def considered_def)
next
  case (snoc c cs)
  then show ?case using bootstrap_inv_step [of policy cs _ c] by simp
qed

text \<open>
  C29: what the bootstrap applies.  Of the ready candidates it considers the first \<open>max_tasks\<close>, in their
  order, and applies exactly those whose bridge the policy allows and that are not unverified plugins
  behind a risky bridge while the policy blocks these.  Every candidate is accounted for once, and the
  report is blocked exactly when the policy insists on execution and a considered candidate was
  deferred.
\<close>

theorem bootstrap_applies_exactly:
  assumes "length candidates \<le> usize_max" and r_def: "r = bootstrap_execute candidates policy"
  shows "applied_plugin_keys r = plugin_key ` set (filter (may_auto_apply policy) (considered policy candidates))
    \<and> applied_tasks r \<le> max_tasks policy
    \<and> total_tasks r = length candidates
    \<and> applied_tasks r + deferred_tasks r + skipped_tasks r = total_tasks r
    \<and> map plugin_identity.truncate (report_tasks r) = map plugin_identity.truncate candidates
    \<and> (report_blocked r \<longleftrightarrow> enforce_ready_execution policy
         \<and> (\<exists>c \<in> set (considered policy candidates). \<not> may_auto_apply policy c))"
proof -
  let ?con = "considered policy candidates"
  let ?ok = "filter (may_auto_apply policy) ?con"
  let ?r = "fst (fold (bootstrap_candidate policy) candidates (bootstrap_report_default, 0))"
  have I: "total_tasks ?r = length candidates" "applied_tasks ?r = length ?ok"
    "deferred_tasks ?r = length ?con - length ?ok" "skipped_tasks ?r = length candidates - length ?con"
    "applied_plugin_keys ?r = plugin_key ` set ?ok"
    "map plugin_identity.truncate (report_tasks ?r) = map plugin_identity.truncate candidates"
    "\<not> report_blocked ?r"
    using bootstrap_inv_fold [OF assms(1), of policy] by (simp_all add: bootstrap_inv_def Let_def)
  have le: "length ?ok \<le> length ?con" by (rule length_filter_le)
  have "0 < length ?con - length ?ok \<longleftrightarrow> (\<exists>c \<in> set ?con. \<not> may_auto_apply policy c)"
    using le by (metis filter_id_conv less_irrefl length_filter_less zero_less_diff)
  moreover have "length ?ok \<le> max_tasks policy" using le considered_limit order_trans by blast
  moreover have "length ?ok + (length ?con - length ?ok) + (length candidates - length ?con) = length candidates"
    using le length_considered [of policy candidates] by simp
  ultimately show ?thesis
    unfolding r_def bootstrap_execute_def Let_def using I by simp
qed

definition sample_candidate :: "string \<Rightarrow> plugin_bridge_kind \<Rightarrow> plugin_activation_candidate" where
  "sample_candidate n b = \<lparr>plugin_id = n, source_path = ''/plugins'', trust_tier = Unverified,
     compatibility_mode = NativeMode, compatibility_shim = None, bridge_kind = b, adapter_family = ''a'',
     bootstrap_hint = ''h'', activation_status = Ready\<rparr>"

theorem bootstrap_applies_exactly_witness:
  "applied_plugin_keys (bootstrap_execute [sample_candidate ''a'' HttpJson, sample_candidate ''b'' McpServer]
     bootstrap_policy_default) = {(''/plugins'', ''a'')}"
proof -
  let ?cs = "[sample_candidate ''a'' HttpJson, sample_candidate ''b'' McpServer]"
  have "filter (may_auto_apply bootstrap_policy_default) (considered bootstrap_policy_default ?cs)
      = [sample_candidate ''a'' HttpJson]"
    by (simp add: considered_def may_auto_apply_def sample_candidate_def bootstrap_policy_default_def
        plugin_bridge_is_high_risk_auto_apply_def)
  moreover have "length ?cs \<le> usize_max" by (simp add: usize_max_def)
  note bootstrap_applies_exactly [OF this refl, of bootstrap_policy_default]
  ultimately show ?thesis by (simp add: plugin_key_def sample_candidate_def)
qed

end
