(* ===== verification/Spec2Isabelle.thy ===== *)
theory Spec2Isabelle
  imports Policy_Extension Audit_Repair Kernel_Guarantees Task_Supervisor Agent_Mailbox
    Architecture_Guard Protocol_Router Protocol_Transport Control_Turns Control_Events Control_Leases
    Pairing_Guarantees
    Plan_Executor Tool_Capabilities Bash_Governance Integration_Catalog Plugin_Bootstrap
begin

text \<open>
  \<^bold>\<open>A verification of the Loong agent runtime\<close>

  Loong is a Rust workspace (\<open>crates/\<close>).  Its centre is a small kernel that mediates every effect of
  an agent: a \<^emph>\<open>pack\<close> declares what an agent may do, a \<^emph>\<open>capability token\<close> says what it may do now,
  a policy engine and policy extensions decide on each call, adapters in planes carry it out, and an
  audit journal records it.  Around the kernel stand the wire protocol, the control plane through
  which clients connect, and the application that runs conversations and tools.

  \<^bold>\<open>Parts and theories\<close>

  \<^item> Shared: \<open>Loong_Prelude\<close> (results, panics, machine integers, hexadecimal), \<open>Rust_Strings\<close> (the
    string operations the code uses, on ASCII), \<open>Btree_Map\<close> (\<open>BTreeMap\<close> with its interface as a
    locale), \<open>Event_Log\<close> (a bounded log with consecutive numbers, a locale).
  \<^item> \<open>Contracts\<close>, \<open>Contract_Errors\<close>: \<open>crates/contracts\<close> (capabilities, tokens, packs, requests, errors,
    faults, task states).
  \<^item> \<open>Policy_Engine\<close>, \<open>Policy_Extension\<close>: \<open>kernel/src/policy.rs\<close> and \<open>policy_ext.rs\<close>.
  \<^item> \<open>Audit_Sink\<close>, \<open>Audit_Journal\<close>, \<open>Audit_Repair\<close>: \<open>kernel/src/audit.rs\<close> (sinks, the hash-chained
    journal, its verification and repair).
  \<^item> \<open>Adapter_Planes\<close>: \<open>harness.rs\<close>, \<open>tool.rs\<close>, \<open>runtime.rs\<close>, \<open>memory.rs\<close>, \<open>connector.rs\<close> of the kernel.
  \<^item> \<open>Kernel_Core\<close>, \<open>Kernel_Guarantees\<close>: \<open>kernel/src/kernel.rs\<close>, every operation of \<open>LoongKernel\<close>, and
    what it guarantees over sequences of operations.
  \<^item> \<open>Task_Supervisor\<close>, \<open>Agent_Mailbox\<close>, \<open>Architecture_Guard\<close>: \<open>task_supervisor.rs\<close>, \<open>mailbox.rs\<close>,
    \<open>architecture.rs\<close> of the kernel.
  \<^item> \<open>Protocol_Router\<close>, \<open>Protocol_Transport\<close>: \<open>protocol/src/lib.rs\<close>.
  \<^item> \<open>Control_Turns\<close>, \<open>Control_Events\<close>, \<open>Control_Leases\<close>, \<open>Control_Pairing\<close>, \<open>Pairing_Guarantees\<close>:
    the registries of \<open>app/src/control_plane.rs\<close>; \<open>Pairing_Store\<close>: the pairing tables of
    \<open>app/src/session/repository.rs\<close>.
  \<^item> \<open>Integration_Catalog\<close>, \<open>Plugin_Bootstrap\<close>: \<open>integration.rs\<close> and \<open>bootstrap.rs\<close> of the kernel, the
    catalog of providers and channels with its provisioning agent, and the choice of the plugins that
    are applied without asking.
  \<^item> \<open>Plan_Graph\<close>, \<open>Plan_Executor\<close>: \<open>plan_ir.rs\<close> and \<open>plan_executor.rs\<close> of \<open>app/src/conversation\<close>, plans
    as graphs, their validation, and their execution in dependency order with retries and budgets.
  \<^item> \<open>Unix_Paths\<close>, \<open>Shell_Policy\<close>, \<open>File_Policy\<close>: \<open>std::path\<close> on Unix, and the policies of
    \<open>app/src/tools\<close> for shell and file requests (\<open>shell_request_prep.rs\<close>, \<open>shell_policy_ext.rs\<close>,
    \<open>file_policy_ext.rs\<close>).
  \<^item> \<open>Bash_Governance\<close>: the rules over bash commands and the tool in front of bash
    (\<open>bash_rules.rs\<close>, \<open>bash_governance.rs\<close>, \<open>bash.rs\<close>).
  \<^item> \<open>Tool_Lease\<close>, \<open>Tool_Routing\<close>, \<open>Tool_Dispatch\<close>: leases of discoverable tools and the shared secret
    behind them (\<open>tool_lease_authority.rs\<close>), the routing of facade tools (\<open>routing.rs\<close>), and the way of
    a request through the adapter (\<open>mod.rs\<close>, \<open>tool_lease.rs\<close>, \<open>direct_policy_preflight.rs\<close>).
    \<open>Tool_Guarantees\<close> and \<open>Tool_Capabilities\<close> join them with the kernel.

  \<^bold>\<open>How the model reads\<close>

  A struct is a record, an enum a datatype, a \<open>Result\<close> a sum with the error on the left.  A method
  with \<open>&mut self\<close> takes the state and returns it updated.  A \<open>u64\<close> is a \<open>64 word\<close>, so that counters
  wrap as they do in release builds; theorems about identifiers bound the number of operations by
  \<open>2 ^ 64\<close> where wrapping would matter.  Trait objects are functions over a state of the outside
  world.  What lies outside the sources (serde, sha2, tokio channels, SQLite and file system failures,
  clocks, random numbers) is an argument; the laws a theorem needs of it are its hypotheses, and its
  witness instantiates them with concrete functions.  A lock is not modelled where the code holds it
  for a whole operation; where it does not (\<open>ControlPlaneManager::record_event\<close>, two journal
  writers, the publication of the lease secret), the operation is split and the interleaving is
  stated.  Loops are structural recursions or recursions with a measure; nothing uses fuel.  Two
  worklist loops over a plan, the draining of a mailbox and the recursion through \<open>tool.invoke\<close> are
  partial functions, for which not returning is the value \<open>None\<close>; that they return is proved, for the
  mailbox from the laws of its channel and for the recursion from the fact that the catalog exposes
  \<open>tool.invoke\<close> itself.

  \<^bold>\<open>What the lemmas show\<close>

  Mediation: no call has an effect that the pack, the token, the engine and every extension did not
  admit, refusals are audited, completed calls leave their trail. Tokens: which history makes the
  engine accept a token, revocation, distinct identifiers, confinement of scoped tokens. Journal:
  verification means a sealed chain, recording preserves it when the file ends in a newline, repair
  refuses exactly what does not verify and keeps the events, equal tail hashes mean equal histories
  or a collision between lines of the journals. Protocol: the router implements its table, frames
  without doubles or deep nesting survive the wire. Control plane: logs have no gaps, a poller that
  keeps up receives every event once unless recordings overlap, leases and challenges end when they
  should, a device is let in only by an approval, given now or stored. Plans: what validation
  accepts, execution respects the dependencies and its bound on attempts. Tools: a shell command or
  file request that completes was admitted by the policies, no request reaches a tool past them,
  bash runs only commands that its rules admit, a lease opens its tool only, processes agree on the
  lease secret, and no tool runs beyond the capabilities that the kernel checked, whatever facade
  the request came through. Provisioning settles its request; the bootstrap applies exactly what its
  policy admits.

  \<^bold>\<open>Not modelled\<close>

  Provider clients, channel adapters, the terminal interface, configuration files and the command
  line (\<open>app/src/provider\<close>, \<open>channel\<close>, \<open>chat\<close>, \<open>config\<close>, \<open>crates/daemon\<close>) are input and output around the
  parts above.  The SQL of the session store is modelled only where the control plane relies on it.
  The analysis of bash commands rests on the tree-sitter grammar, rule files on a Starlark
  interpreter.  \<open>plugin.rs\<close>, \<open>plugin_ir.rs\<close> and \<open>awareness.rs\<close> scan a file system and parse manifests in formats defined
  by third-party parsers; only the data that the bootstrap reads is modelled.  The tools themselves,
  the tool catalog and the view of a runtime are parameters of the dispatch.  The conversation
  runtime around the plans, the memory system, the external processes of \<open>crates/bridge-runtime\<close>, and
  the scenario runner and benchmarks of \<open>crates/spec\<close> and \<open>crates/bench\<close> are left out.  Unicode case
  mapping and white space outside ASCII are left out: strings are lists of 8-bit characters.
\<close>

end
